(* ===== verification/Prelude.thy ===== *)
theory Prelude
  imports Main "HOL-Library.Multiset" "HOL-Library.List_Lexorder" "HOL-Library.Char_ord"
begin

text \<open>
  Shared vocabulary of the Lore development: the lemma collections the component
  theories feed, and generic facts about association lists and partial maps that
  the JavaScript objects, the Redux store slices and the React bridge all use.
  A JavaScript object is an association list whose order is the key insertion
  order; a store slice (\<open>byId\<close>, \<open>byCid\<close>, \<open>find\<close>) is a partial map.
\<close>

named_theorems json_simps "evaluation rules of the JSON value model"
named_theorems cache_simps "evaluation rules of the record cache operations"
named_theorems bridge_simps "evaluation rules of the store subscription bridge"

type_synonym 'v alist = "(string \<times> 'v) list"

subsection \<open>Writing one key of an association list in place\<close>

text \<open>
  \<open>alist_put k v xs\<close> overwrites the value of the first entry with key \<open>k\<close>
  where it stands, or appends \<open>(k, v)\<close>: the way a JavaScript property
  assignment \<open>o[k] = v\<close> keeps the key insertion order.
\<close>

fun alist_put :: "'k \<Rightarrow> 'v \<Rightarrow> ('k \<times> 'v) list \<Rightarrow> ('k \<times> 'v) list" where
  "alist_put k v [] = [(k, v)]"
| "alist_put k v ((k', v') # kvs) =
     (if k = k' then (k, v) # kvs else (k', v') # alist_put k v kvs)"

lemma map_of_alist_put [simp]: "map_of (alist_put k v xs) = (map_of xs)(k \<mapsto> v)"
  by (induction xs) (auto simp: fun_eq_iff)

lemma keys_alist_put:
  "map fst (alist_put k v xs) = (if k \<in> set (map fst xs) then map fst xs else map fst xs @ [k])"
  by (induction xs) force+

lemma distinct_alist_put [simp]:
  "distinct (map fst xs) \<Longrightarrow> distinct (map fst (alist_put k v xs))"
  by (simp add: keys_alist_put)

lemma set_keys_alist_put [simp]: "fst ` set (alist_put k v xs) = insert k (fst ` set xs)"
  by (induction xs) force+

lemma set_alist_put: "set (alist_put k v xs) \<subseteq> insert (k, v) (set xs)"
  by (induction k v xs rule: alist_put.induct) auto

subsection \<open>Maps\<close>

text \<open>Two key-distinct association lists for the same map are permutations.\<close>

lemma mset_eq_if_map_of_eq:
  assumes "distinct (map fst xs)" "distinct (map fst ys)" "map_of xs = map_of ys"
  shows "mset xs = mset ys"
proof -
  from assms have "set xs = set ys" by (simp add: map_of_inject_set)
  moreover from assms(1,2) have "distinct xs" "distinct ys"
    by (simp_all add: distinct_map)
  ultimately show ?thesis by (simp add: set_eq_iff_mset_eq_distinct)
qed

lemma sort_key_fst_eq_if_map_of_eq:
  assumes "distinct (map fst xs)" "distinct (map fst ys)" "map_of xs = map_of ys"
  shows "sort_key fst xs = sort_key fst ys"
proof (rule sort_key_eq_sort_key)
  from assms show "mset xs = mset ys" by (rule mset_eq_if_map_of_eq)
  from assms(1) show "inj_on fst (set xs)" by (simp add: distinct_map)
qed

lemma map_of_rev_distinct: "distinct (map fst xs) \<Longrightarrow> map_of (rev xs) = map_of xs"
  by (simp add: map_of_inject_set rev_map [symmetric])

subsection \<open>Options\<close>

lemma option_case_Some_id [simp]: "(case x of None \<Rightarrow> d | Some v \<Rightarrow> Some v) = (if x = None then d else x)"
  by (cases x) auto

end
