(* ===== verification/Json.thy ===== *)
theory Json
  imports Prelude
begin

text \<open>
  JavaScript values as the Lore code passes them around: query objects, pagination
  objects, server responses, selected view state. Objects are association lists in
  key insertion order. This theory holds the value type, property reads, lodash's
  \<open>_.extend\<close> (used by \<open>find.js\<close> to build the request parameters), lodash's
  \<open>_.isPlainObject\<close> (used by \<open>connect.js\<close>), and the serialisation of a query
  into the key of the \<open>find\<close> cache, with the lemmas each of them needs.
\<close>

datatype json =
    JUndef
  | JNull
  | JBool bool
  | JNum int
  | JStr string
  | JArr "json list"
  | JObj "json alist"

subsection \<open>Reading objects\<close>

fun is_plain_object :: "json \<Rightarrow> bool" where
  "is_plain_object (JObj _) = True"
| "is_plain_object _ = False"

fun obj_fields :: "json \<Rightarrow> json alist" where
  "obj_fields (JObj kvs) = kvs"
| "obj_fields _ = []"

text \<open>\<open>o.k\<close>: a missing key reads as \<open>undefined\<close>.\<close>

definition obj_get :: "json \<Rightarrow> string \<Rightarrow> json" where
  "obj_get obj k = (case map_of (obj_fields obj) k of None \<Rightarrow> JUndef | Some v \<Rightarrow> v)"

text \<open>JavaScript truthiness, for the \<open>if (options.x)\<close> guards.\<close>

fun truthy :: "json \<Rightarrow> bool" where
  "truthy JUndef = False"
| "truthy JNull = False"
| "truthy (JBool b) = b"
| "truthy (JNum n) = (n \<noteq> 0)"
| "truthy (JStr s) = (s \<noteq> [])"
| "truthy (JArr _) = True"
| "truthy (JObj _) = True"

subsection \<open>\<open>_.extend\<close>\<close>

text \<open>
  lodash's \<open>_.extend(target, s1, s2, \<dots>)\<close> (an alias of \<open>_.assignIn\<close>) copies the
  enumerable keys of each source, left to right, onto the target; a key already
  present keeps its position and takes the later value, \<open>undefined\<close> values
  included. A source that is not an object (\<open>undefined\<close>, \<open>null\<close>, a number)
  contributes no key.
\<close>

fun assign_fields :: "json alist \<Rightarrow> json alist \<Rightarrow> json alist" where
  "assign_fields t [] = t"
| "assign_fields t ((k, v) # kvs) = assign_fields (alist_put k v t) kvs"

definition js_extend :: "json \<Rightarrow> json list \<Rightarrow> json" where
  "js_extend target sources =
     JObj (fold (\<lambda>s acc. assign_fields acc (obj_fields s)) sources (obj_fields target))"

subsection \<open>Serialising a query\<close>

text \<open>
  Numbers print as JSON does (JavaScript numbers are modelled as integers); strings are
  quoted with the escapes of \<open>JSON.stringify\<close> below.
\<close>

definition digit_char :: "nat \<Rightarrow> char" where
  "digit_char d = ''0123456789'' ! d"

fun nat_str :: "nat \<Rightarrow> string" where
  "nat_str n = (if n < 10 then [digit_char n] else nat_str (n div 10) @ [digit_char (n mod 10)])"

declare nat_str.simps [simp del]

definition int_str :: "int \<Rightarrow> string" where
  "int_str i = (if i < 0 then CHR ''-'' # nat_str (nat (- i)) else nat_str (nat i))"

text \<open>\<open>Array.prototype.join\<close>.\<close>

fun join :: "string \<Rightarrow> string list \<Rightarrow> string" where
  "join sep [] = []"
| "join sep [x] = x"
| "join sep (x # xs) = x @ sep @ join sep xs"

text \<open>
  \<open>JSON.stringify\<close> on a string (ECMA-262, QuoteJSONString): the double quote and the
  backslash are escaped with a backslash, the control characters backspace, tab, line feed,
  form feed and carriage return by their short escapes, every other character below
  \<open>0x20\<close> as \<open>\u00XX\<close> in lowercase hexadecimal; all others are copied. Characters are
  single code units.
\<close>

definition hex_digit :: "nat \<Rightarrow> char" where
  "hex_digit d = ''0123456789abcdef'' ! d"

definition escape_char :: "char \<Rightarrow> string" where
  "escape_char c =
     (if c = CHR 0x22 then [CHR 0x5C, CHR 0x22]
      else if c = CHR 0x5C then [CHR 0x5C, CHR 0x5C]
      else if c = CHR 0x08 then [CHR 0x5C, CHR ''b'']
      else if c = CHR 0x09 then [CHR 0x5C, CHR ''t'']
      else if c = CHR 0x0A then [CHR 0x5C, CHR ''n'']
      else if c = CHR 0x0C then [CHR 0x5C, CHR ''f'']
      else if c = CHR 0x0D then [CHR 0x5C, CHR ''r'']
      else if of_char c < (32::nat) then
        [CHR 0x5C, CHR ''u'', CHR ''0'', CHR ''0'', hex_digit (of_char c div 16), hex_digit (of_char c mod 16)]
      else [c])"

definition quote :: "string \<Rightarrow> string" where
  "quote s = CHR 0x22 # concat (map escape_char s) @ [CHR 0x22]"

fun stringify :: "json \<Rightarrow> string" where
  "stringify JUndef = ''null''"
| "stringify JNull = ''null''"
| "stringify (JBool b) = (if b then ''true'' else ''false'')"
| "stringify (JNum n) = int_str n"
| "stringify (JStr s) = quote s"
| "stringify (JArr xs) = ''['' @ join '','' (map stringify xs) @ '']''"
| "stringify (JObj kvs) =
     ''{'' @ join '',''
        (map (\<lambda>(k, v). quote k @ '':'' @ stringify v) (filter (\<lambda>(k, v). v \<noteq> JUndef) kvs))
     @ ''}''"

text \<open>Canonical form: the keys of every object sorted, recursively.\<close>

fun canon :: "json \<Rightarrow> json" where
  "canon (JArr xs) = JArr (map canon xs)"
| "canon (JObj kvs) = JObj (sort_key fst (map (\<lambda>(k, v). (k, canon v)) kvs))"
| "canon v = v"

subsection \<open>Lemmas\<close>

lemma map_of_assign_fields [json_simps]:
  "map_of (assign_fields t s) = map_of t ++ map_of (rev s)"
proof (induction s arbitrary: t)
  case Nil
  then show ?case by simp
next
  case (Cons kv s)
  obtain k v where kv: "kv = (k, v)" by fastforce
  have "map_of (assign_fields t (kv # s)) = (map_of t)(k \<mapsto> v) ++ map_of (rev s)"
    using Cons.IH [of "alist_put k v t"] kv by (simp only: assign_fields.simps map_of_alist_put)
  also have "\<dots> = map_of t ++ (map_of [(k, v)] ++ map_of (rev s))"
    by (simp add: map_add_assoc [symmetric])
  also have "map_of [(k, v)] ++ map_of (rev s) = map_of (rev (kv # s))"
    by (simp add: kv map_of_append)
  finally show ?case .
qed

lemma distinct_assign_fields [json_simps]:
  "distinct (map fst t) \<Longrightarrow> distinct (map fst (assign_fields t s))"
  by (induction s arbitrary: t) auto

text \<open>\<open>_.extend(t, a, b)\<close> on objects with distinct keys: later sources win.\<close>

lemma map_of_js_extend2 [json_simps]:
  assumes "distinct (map fst (obj_fields a))" "distinct (map fst (obj_fields b))"
  shows "map_of (obj_fields (js_extend t [a, b])) =
         map_of (obj_fields t) ++ map_of (obj_fields a) ++ map_of (obj_fields b)"
  using assms by (simp add: js_extend_def map_of_assign_fields map_of_rev_distinct)

lemma keys_assign_fields:
  "fst ` set (assign_fields t s) = fst ` set t \<union> fst ` set s"
  by (induction t s rule: assign_fields.induct) simp_all

end
