(* ===== verification/Record_Store.thy ===== *)
theory Record_Store
  imports Json
begin

text \<open>
  The record cache of one model type (spec section 3 and 4.1): the \<open>byCid\<close>,
  \<open>byId\<close> and \<open>find\<close> slices of the Redux state that the integration test
  \<open>src/packages/lore/test/integration/redux.spec.js\<close> inspects
  (\<open>state.todo.byCid\<close>, \<open>state.todo.byId\<close>, \<open>state.todo.find\<close>). The reducers
  themselves live in \<open>lore-hook-reducers\<close>, outside \<open>src/\<close>, so the operations
  here follow the specification; the optimistic \<open>get\<close> follows what the
  integration test observes. Every operation is a pure function from cache to
  cache, and \<open>apply_op\<close> is the reducer: the interface on which the action
  blueprints and the cache agree.
\<close>

datatype cid = Cid nat

datatype rstate = RESOLVED | PENDING_OPTIMISTIC | PENDING_UPDATE | PENDING_DESTROY | FETCHING | ERROR

type_synonym fields = "string \<rightharpoonup> json"

record rec =
  r_cid :: cid
  r_id :: "string option"
  r_data :: fields
  r_state :: rstate
  r_prior :: "fields option"
  r_error :: json

datatype qstate = Q_PENDING | Q_RESOLVED | Q_ERROR

record qresult =
  q_ids :: "string list"
  q_state :: qstate
  q_error :: json

record cache =
  byCid :: "cid \<rightharpoonup> rec"
  byId :: "string \<rightharpoonup> rec"
  find_slice :: "string \<rightharpoonup> qresult"

definition empty_cache :: cache where
  "empty_cache = \<lparr>byCid = Map.empty, byId = Map.empty, find_slice = Map.empty\<rparr>"

subsection \<open>Placing and removing one record\<close>

text \<open>A record is stored under its client id and, once it has one, its server id.\<close>

definition put_rec :: "cache \<Rightarrow> rec \<Rightarrow> cache" where
  "put_rec c r =
     c\<lparr>byCid := (byCid c)(r_cid r \<mapsto> r),
       byId := (case r_id r of None \<Rightarrow> byId c | Some i \<Rightarrow> (byId c)(i \<mapsto> r))\<rparr>"

definition drop_rec :: "cache \<Rightarrow> rec \<Rightarrow> cache" where
  "drop_rec c r =
     c\<lparr>byCid := (byCid c)(r_cid r := None),
       byId := (case r_id r of None \<Rightarrow> byId c | Some i \<Rightarrow> (byId c)(i := None))\<rparr>"

definition replace_rec :: "cache \<Rightarrow> rec \<Rightarrow> rec \<Rightarrow> cache" where
  "replace_rec c r r' = put_rec (drop_rec c r) r'"

definition with_rec :: "cache \<Rightarrow> cid \<Rightarrow> (rec \<Rightarrow> rec) \<Rightarrow> cache" where
  "with_rec c k f = (case byCid c k of None \<Rightarrow> c | Some r \<Rightarrow> replace_rec c r (f r))"

definition new_rec :: "cid \<Rightarrow> string option \<Rightarrow> fields \<Rightarrow> rstate \<Rightarrow> rec" where
  "new_rec k i d s = \<lparr>r_cid = k, r_id = i, r_data = d, r_state = s, r_prior = None, r_error = JNull\<rparr>"

subsection \<open>Create\<close>

definition applyOptimisticCreate :: "cache \<Rightarrow> cid \<Rightarrow> fields \<Rightarrow> cache" where
  "applyOptimisticCreate c k d =
     (if k \<in> dom (byCid c) then c else put_rec c (new_rec k None d PENDING_OPTIMISTIC))"

text \<open>
  On success the record takes its server id and the server's fields over its own.
  A record that a concurrent \<open>find\<close> already cached under the same server id (with
  another client id) is dropped, so the two converge on one entry.
\<close>

definition applyCreateSuccess :: "cache \<Rightarrow> cid \<Rightarrow> string \<Rightarrow> fields \<Rightarrow> cache" where
  "applyCreateSuccess c k i d =
     (case byCid c k of
        None \<Rightarrow> c
      | Some r \<Rightarrow>
          let c1 = drop_rec c r;
              c2 = (case byId c1 i of None \<Rightarrow> c1 | Some r0 \<Rightarrow> drop_rec c1 r0)
          in put_rec c2 (r\<lparr>r_id := Some i, r_data := r_data r ++ d, r_state := RESOLVED,
                           r_prior := None\<rparr>))"

definition applyCreateError :: "cache \<Rightarrow> cid \<Rightarrow> json \<Rightarrow> cache" where
  "applyCreateError c k e = with_rec c k (\<lambda>r. r\<lparr>r_state := ERROR, r_error := e\<rparr>)"

subsection \<open>Update\<close>

definition applyOptimisticUpdate :: "cache \<Rightarrow> cid \<Rightarrow> fields \<Rightarrow> cache" where
  "applyOptimisticUpdate c k p =
     with_rec c k (\<lambda>r. r\<lparr>r_data := r_data r ++ p, r_state := PENDING_UPDATE,
                         r_prior := Some (r_data r)\<rparr>)"

definition applyUpdateSuccess :: "cache \<Rightarrow> cid \<Rightarrow> fields \<Rightarrow> cache" where
  "applyUpdateSuccess c k d =
     with_rec c k (\<lambda>r. r\<lparr>r_data := r_data r ++ d, r_state := RESOLVED, r_prior := None\<rparr>)"

definition applyUpdateError :: "cache \<Rightarrow> cid \<Rightarrow> json \<Rightarrow> cache" where
  "applyUpdateError c k e =
     with_rec c k (\<lambda>r. r\<lparr>r_data := (case r_prior r of None \<Rightarrow> r_data r | Some d \<Rightarrow> d),
                         r_state := ERROR, r_prior := None, r_error := e\<rparr>)"

subsection \<open>Destroy\<close>

definition applyOptimisticDestroy :: "cache \<Rightarrow> cid \<Rightarrow> cache" where
  "applyOptimisticDestroy c k = with_rec c k (\<lambda>r. r\<lparr>r_state := PENDING_DESTROY\<rparr>)"

definition remove_id_from_queries :: "string \<Rightarrow> (string \<rightharpoonup> qresult) \<Rightarrow> (string \<rightharpoonup> qresult)" where
  "remove_id_from_queries i qs = map_option (\<lambda>q. q\<lparr>q_ids := filter (\<lambda>j. j \<noteq> i) (q_ids q)\<rparr>) \<circ> qs"

definition applyDestroySuccess :: "cache \<Rightarrow> cid \<Rightarrow> cache" where
  "applyDestroySuccess c k =
     (case byCid c k of
        None \<Rightarrow> c
      | Some r \<Rightarrow>
          let c1 = drop_rec c r
          in (case r_id r of
                None \<Rightarrow> c1
              | Some i \<Rightarrow> c1\<lparr>find_slice := remove_id_from_queries i (find_slice c1)\<rparr>))"

definition applyDestroyError :: "cache \<Rightarrow> cid \<Rightarrow> json \<Rightarrow> cache" where
  "applyDestroyError c k e = with_rec c k (\<lambda>r. r\<lparr>r_state := RESOLVED, r_error := e\<rparr>)"

subsection \<open>Find and get\<close>

definition applyFindPending :: "cache \<Rightarrow> string \<Rightarrow> cache" where
  "applyFindPending c key =
     c\<lparr>find_slice := (find_slice c)(key \<mapsto> \<lparr>q_ids = [], q_state = Q_PENDING, q_error = JNull\<rparr>)\<rparr>"

text \<open>A returned record replaces the cached one with the same server id, or is new.\<close>

definition upsert :: "cache \<Rightarrow> cid \<times> string \<times> fields \<Rightarrow> cache" where
  "upsert c m =
     (case m of (k, i, d) \<Rightarrow>
       (case byId c i of
          Some r \<Rightarrow> replace_rec c r (r\<lparr>r_data := d, r_state := RESOLVED, r_prior := None\<rparr>)
        | None \<Rightarrow> put_rec c (new_rec k (Some i) d RESOLVED)))"

definition applyFindSuccess :: "cache \<Rightarrow> string \<Rightarrow> (cid \<times> string \<times> fields) list \<Rightarrow> cache" where
  "applyFindSuccess c key ms =
     (let c1 = fold (\<lambda>m c. upsert c m) ms c
      in c1\<lparr>find_slice := (find_slice c1)(key \<mapsto>
               \<lparr>q_ids = map (\<lambda>(k, i, d). i) ms, q_state = Q_RESOLVED, q_error = JNull\<rparr>)\<rparr>)"

definition applyFindError :: "cache \<Rightarrow> string \<Rightarrow> json \<Rightarrow> cache" where
  "applyFindError c key e =
     c\<lparr>find_slice := (find_slice c)(key \<mapsto>
        (case find_slice c key of
           None \<Rightarrow> \<lparr>q_ids = [], q_state = Q_ERROR, q_error = e\<rparr>
         | Some q \<Rightarrow> q\<lparr>q_state := Q_ERROR, q_error := e\<rparr>))\<rparr>"

text \<open>
  \<open>get(id)\<close> places an optimistic record under the requested server id at once,
  without a \<open>find\<close> entry (\<open>redux.spec.js\<close> lines 128--132).
\<close>

definition applyGetPending :: "cache \<Rightarrow> cid \<Rightarrow> string \<Rightarrow> cache" where
  "applyGetPending c k i =
     (case byId c i of
        Some r \<Rightarrow> replace_rec c r (r\<lparr>r_state := FETCHING\<rparr>)
      | None \<Rightarrow> put_rec c (new_rec k (Some i) Map.empty FETCHING))"

definition applyGetSuccess :: "cache \<Rightarrow> cid \<Rightarrow> string \<Rightarrow> fields \<Rightarrow> cache" where
  "applyGetSuccess c k i d = upsert c (k, i, d)"

definition applyGetError :: "cache \<Rightarrow> string \<Rightarrow> json \<Rightarrow> cache" where
  "applyGetError c i e =
     (case byId c i of
        None \<Rightarrow> c
      | Some r \<Rightarrow> replace_rec c r (r\<lparr>r_state := ERROR, r_error := e\<rparr>))"

subsection \<open>The reducer\<close>

datatype cache_op =
    OptimisticCreate cid fields
  | CreateSuccess cid string fields
  | CreateError cid json
  | OptimisticUpdate cid fields
  | UpdateSuccess cid fields
  | UpdateError cid json
  | OptimisticDestroy cid
  | DestroySuccess cid
  | DestroyError cid json
  | FindPending string
  | FindSuccess string "(cid \<times> string \<times> fields) list"
  | FindError string json
  | GetPending cid string
  | GetSuccess cid string fields
  | GetError string json

fun apply_op :: "cache \<Rightarrow> cache_op \<Rightarrow> cache" where
  "apply_op c (OptimisticCreate k d) = applyOptimisticCreate c k d"
| "apply_op c (CreateSuccess k i d) = applyCreateSuccess c k i d"
| "apply_op c (CreateError k e) = applyCreateError c k e"
| "apply_op c (OptimisticUpdate k p) = applyOptimisticUpdate c k p"
| "apply_op c (UpdateSuccess k d) = applyUpdateSuccess c k d"
| "apply_op c (UpdateError k e) = applyUpdateError c k e"
| "apply_op c (OptimisticDestroy k) = applyOptimisticDestroy c k"
| "apply_op c (DestroySuccess k) = applyDestroySuccess c k"
| "apply_op c (DestroyError k e) = applyDestroyError c k e"
| "apply_op c (FindPending key) = applyFindPending c key"
| "apply_op c (FindSuccess key ms) = applyFindSuccess c key ms"
| "apply_op c (FindError key e) = applyFindError c key e"
| "apply_op c (GetPending k i) = applyGetPending c k i"
| "apply_op c (GetSuccess k i d) = applyGetSuccess c k i d"
| "apply_op c (GetError i e) = applyGetError c i e"

subsection \<open>The invariant of the cache\<close>

text \<open>
  The two record indices agree: a record sits in \<open>byCid\<close> under its own client id,
  in \<open>byId\<close> under its own server id, and the two hold the same copy. Every server id
  listed by a query result can be looked up in \<open>byId\<close>.
\<close>

definition index_inv :: "cache \<Rightarrow> bool" where
  "index_inv c \<longleftrightarrow>
     (\<forall>k r. byCid c k = Some r \<longrightarrow> r_cid r = k) \<and>
     (\<forall>i r. byId c i = Some r \<longrightarrow> r_id r = Some i) \<and>
     (\<forall>i r. byId c i = Some r \<longrightarrow> byCid c (r_cid r) = Some r) \<and>
     (\<forall>k r i. byCid c k = Some r \<longrightarrow> r_id r = Some i \<longrightarrow> byId c i = Some r)"

definition query_inv :: "cache \<Rightarrow> bool" where
  "query_inv c \<longleftrightarrow> (\<forall>key q. find_slice c key = Some q \<longrightarrow> set (q_ids q) \<subseteq> dom (byId c))"

definition cache_inv :: "cache \<Rightarrow> bool" where
  "cache_inv c \<longleftrightarrow> index_inv c \<and> query_inv c"

definition id_free :: "cache \<Rightarrow> string option \<Rightarrow> bool" where
  "id_free c i = (case i of None \<Rightarrow> True | Some j \<Rightarrow> j \<notin> dom (byId c))"

text \<open>
  What the action dispatcher guarantees when it hands an operation to the reducer:
  the client ids it introduces are fresh (it draws them from a counter), and a create
  is confirmed only for a record that has no server id yet.
\<close>

fun op_cids :: "cache_op \<Rightarrow> cid list" where
  "op_cids (FindSuccess key ms) = map fst ms"
| "op_cids (GetPending k i) = [k]"
| "op_cids (GetSuccess k i d) = [k]"
| "op_cids _ = []"

definition op_ok :: "cache \<Rightarrow> cache_op \<Rightarrow> bool" where
  "op_ok c op \<longleftrightarrow>
     distinct (op_cids op) \<and> list_all (\<lambda>k. byCid c k = None) (op_cids op) \<and>
     (case op of
        CreateSuccess k i d \<Rightarrow> (case byCid c k of None \<Rightarrow> True | Some r \<Rightarrow> r_id r = None)
      | _ \<Rightarrow> True)"

subsection \<open>An example cache\<close>

text \<open>The cache after \<open>populateStore\<close> puts one todo in it (\<open>redux.spec.js\<close> line 170).\<close>

definition todo_rec :: rec where
  "todo_rec = new_rec (Cid 1) (Some ''1'') [''title'' \<mapsto> JStr ''foo''] RESOLVED"

definition todo_cache :: cache where
  "todo_cache = put_rec empty_cache todo_rec"

subsection \<open>Lemmas\<close>

lemmas cache_op_defs [cache_simps] =
  applyOptimisticCreate_def applyCreateSuccess_def applyCreateError_def
  applyOptimisticUpdate_def applyUpdateSuccess_def applyUpdateError_def
  applyOptimisticDestroy_def applyDestroySuccess_def applyDestroyError_def
  applyFindPending_def applyFindSuccess_def applyFindError_def
  applyGetPending_def applyGetSuccess_def applyGetError_def
  upsert_def with_rec_def replace_rec_def put_rec_def drop_rec_def new_rec_def
  remove_id_from_queries_def empty_cache_def


lemma byCid_put_rec [simp]: "byCid (put_rec c r) = (byCid c)(r_cid r \<mapsto> r)"
  by (simp add: put_rec_def)

lemma byId_put_rec [simp]:
  "byId (put_rec c r) = (case r_id r of None \<Rightarrow> byId c | Some i \<Rightarrow> (byId c)(i \<mapsto> r))"
  by (simp add: put_rec_def)

lemma find_slice_put_rec [simp]: "find_slice (put_rec c r) = find_slice c"
  by (simp add: put_rec_def)

lemma index_invD:
  assumes "index_inv c"
  shows "byCid c k = Some r \<Longrightarrow> r_cid r = k"
    and "byId c i = Some r \<Longrightarrow> r_id r = Some i"
    and "byId c i = Some r \<Longrightarrow> byCid c (r_cid r) = Some r"
    and "byCid c k = Some r \<Longrightarrow> r_id r = Some i \<Longrightarrow> byId c i = Some r"
  using assms unfolding index_inv_def by blast+

lemma index_invI:
  assumes "\<And>k r. byCid c k = Some r \<Longrightarrow> r_cid r = k"
    and "\<And>i r. byId c i = Some r \<Longrightarrow> r_id r = Some i"
    and "\<And>i r. byId c i = Some r \<Longrightarrow> byCid c (r_cid r) = Some r"
    and "\<And>k r i. byCid c k = Some r \<Longrightarrow> r_id r = Some i \<Longrightarrow> byId c i = Some r"
  shows "index_inv c"
  using assms unfolding index_inv_def by blast

lemma byId_put_rec_other:
  "byId (put_rec c r) i = Some r' \<Longrightarrow> r_id r \<noteq> Some i \<Longrightarrow> byId c i = Some r'"
  by (cases "r_id r") (auto split: if_splits)

lemma index_inv_put_rec:
  assumes inv: "index_inv c" and k: "r_cid r \<notin> dom (byCid c)" and i: "id_free c (r_id r)"
  shows "index_inv (put_rec c r)"
proof (rule index_invI)
  fix k' r'
  assume "byCid (put_rec c r) k' = Some r'"
  then show "r_cid r' = k'"
    using index_invD(1) [OF inv] by (cases "k' = r_cid r") auto
next
  fix i' r'
  assume a: "byId (put_rec c r) i' = Some r'"
  show "r_id r' = Some i'"
  proof (cases "r_id r = Some i'")
    case True
    with a show ?thesis by simp
  next
    case False
    with a have "byId c i' = Some r'" by (rule byId_put_rec_other)
    then show ?thesis by (rule index_invD(2) [OF inv])
  qed
next
  fix i' r'
  assume a: "byId (put_rec c r) i' = Some r'"
  show "byCid (put_rec c r) (r_cid r') = Some r'"
  proof (cases "r_id r = Some i'")
    case True
    with a show ?thesis by simp
  next
    case False
    with a have "byId c i' = Some r'" by (rule byId_put_rec_other)
    then have "byCid c (r_cid r') = Some r'" by (rule index_invD(3) [OF inv])
    moreover from this k have "r_cid r' \<noteq> r_cid r" by auto
    ultimately show ?thesis by simp
  qed
next
  fix k' r' i'
  assume a: "byCid (put_rec c r) k' = Some r'" and b: "r_id r' = Some i'"
  show "byId (put_rec c r) i' = Some r'"
  proof (cases "k' = r_cid r")
    case True
    with a b show ?thesis by simp
  next
    case False
    with a have "byCid c k' = Some r'" by simp
    from index_invD(4) [OF inv this b] have c: "byId c i' = Some r'" .
    with i have "r_id r \<noteq> Some i'" by (auto simp: id_free_def)
    with c show ?thesis by (cases "r_id r") auto
  qed
qed

lemma byCid_drop_rec [simp]: "byCid (drop_rec c r) = (byCid c)(r_cid r := None)"
  by (simp add: drop_rec_def)

lemma byId_drop_rec [simp]:
  "byId (drop_rec c r) = (case r_id r of None \<Rightarrow> byId c | Some i \<Rightarrow> (byId c)(i := None))"
  by (simp add: drop_rec_def)

lemma find_slice_drop_rec [simp]: "find_slice (drop_rec c r) = find_slice c"
  by (simp add: drop_rec_def)

lemma byId_drop_rec_SomeD:
  "byId (drop_rec c r) i = Some r' \<Longrightarrow> byId c i = Some r' \<and> r_id r \<noteq> Some i"
  by (cases "r_id r") (auto split: if_splits)

lemma index_inv_drop_rec:
  assumes inv: "index_inv c" and r: "byCid c (r_cid r) = Some r"
  shows "index_inv (drop_rec c r)"
proof (rule index_invI)
  fix k' r'
  assume "byCid (drop_rec c r) k' = Some r'"
  then have "byCid c k' = Some r'" by (simp split: if_splits)
  then show "r_cid r' = k'" by (rule index_invD(1) [OF inv])
next
  fix i' r'
  assume "byId (drop_rec c r) i' = Some r'"
  then have "byId c i' = Some r'" by (rule byId_drop_rec_SomeD [THEN conjunct1])
  then show "r_id r' = Some i'" by (rule index_invD(2) [OF inv])
next
  fix i' r'
  assume d: "byId (drop_rec c r) i' = Some r'"
  then have a: "byId c i' = Some r'" by (rule byId_drop_rec_SomeD [THEN conjunct1])
  from d have b: "r_id r \<noteq> Some i'" by (rule byId_drop_rec_SomeD [THEN conjunct2])
  from a have c: "byCid c (r_cid r') = Some r'" by (rule index_invD(3) [OF inv])
  have "r_cid r' \<noteq> r_cid r"
  proof
    assume e: "r_cid r' = r_cid r"
    from c have "byCid c (r_cid r) = Some r'" by (simp only: e)
    with r have "r' = r" by simp
    moreover from a have "r_id r' = Some i'" by (rule index_invD(2) [OF inv])
    ultimately show False using b by simp
  qed
  with c show "byCid (drop_rec c r) (r_cid r') = Some r'" by simp
next
  fix k' r' i'
  assume a: "byCid (drop_rec c r) k' = Some r'" and b: "r_id r' = Some i'"
  from a have k': "k' \<noteq> r_cid r" by (simp split: if_splits)
  from a have c: "byCid c k' = Some r'" by (simp split: if_splits)
  from index_invD(4) [OF inv c b] have d: "byId c i' = Some r'" .
  have "r_id r \<noteq> Some i'"
  proof
    assume "r_id r = Some i'"
    from index_invD(4) [OF inv r this] d have "r' = r" by simp
    moreover from c have "r_cid r' = k'" by (rule index_invD(1) [OF inv])
    ultimately show False using k' by simp
  qed
  with d show "byId (drop_rec c r) i' = Some r'" by (cases "r_id r") auto
qed

lemma drop_rec_frees:
  assumes "byCid c (r_cid r) = Some r"
  shows "r_cid r \<notin> dom (byCid (drop_rec c r))" "id_free (drop_rec c r) (r_id r)"
  by (auto simp: id_free_def split: option.splits)

lemma index_inv_replace_rec:
  assumes "index_inv c" "byCid c (r_cid r) = Some r" "r_cid r' = r_cid r" "r_id r' = r_id r"
  shows "index_inv (replace_rec c r r')"
  unfolding replace_rec_def
  by (rule index_inv_put_rec) (use assms drop_rec_frees [OF assms(2)] index_inv_drop_rec in simp_all)

lemma dom_byId_replace_rec:
  assumes "index_inv c" "byCid c (r_cid r) = Some r" "r_id r' = r_id r"
  shows "dom (byId (replace_rec c r r')) = dom (byId c)"
  using assms index_invD(4) [OF assms(1,2)]
  by (cases "r_id r") (auto simp: replace_rec_def)

lemma find_slice_replace_rec [simp]: "find_slice (replace_rec c r r') = find_slice c"
  by (simp add: replace_rec_def)

lemma find_slice_with_rec: "find_slice (with_rec c k f) = find_slice c"
  by (cases "byCid c k") (simp_all add: with_rec_def)

lemma index_inv_byCid_self:
  "index_inv c \<Longrightarrow> byCid c k = Some r \<Longrightarrow> byCid c (r_cid r) = Some r"
  using index_invD(1) by metis

lemma cache_inv_replace_rec:
  assumes "cache_inv c" "byCid c (r_cid r) = Some r" "r_cid r' = r_cid r" "r_id r' = r_id r"
  shows "cache_inv (replace_rec c r r')"
proof -
  from assms have "index_inv c" "query_inv c" by (simp_all add: cache_inv_def)
  with assms show ?thesis
    unfolding cache_inv_def query_inv_def
    by (simp add: index_inv_replace_rec dom_byId_replace_rec)
qed

lemma dom_byId_put_rec: "dom (byId c) \<subseteq> dom (byId (put_rec c r))"
  by (cases "r_id r") auto

lemma cache_inv_put_rec:
  assumes "cache_inv c" "r_cid r \<notin> dom (byCid c)" "id_free c (r_id r)"
  shows "cache_inv (put_rec c r)"
proof -
  from assms(1) have i: "index_inv c" and q: "query_inv c" by (simp_all add: cache_inv_def)
  from i assms(2,3) have "index_inv (put_rec c r)" by (rule index_inv_put_rec)
  moreover have "query_inv (put_rec c r)"
    using q dom_byId_put_rec [of c r] unfolding query_inv_def find_slice_put_rec by blast
  ultimately show ?thesis by (simp add: cache_inv_def)
qed

lemma cache_inv_with_rec:
  assumes "cache_inv c" "\<And>r. r_cid (f r) = r_cid r" "\<And>r. r_id (f r) = r_id r"
  shows "cache_inv (with_rec c k f)"
proof (cases "byCid c k")
  case None
  with assms show ?thesis by (simp add: with_rec_def)
next
  case (Some r)
  with assms(1) have "byCid c (r_cid r) = Some r"
    by (auto simp: cache_inv_def intro: index_inv_byCid_self)
  with Some assms show ?thesis by (simp add: with_rec_def cache_inv_replace_rec)
qed

lemma cache_inv_empty: "cache_inv empty_cache"
  by (simp add: cache_inv_def index_inv_def query_inv_def empty_cache_def)

lemma cache_inv_drop_rec_noid:
  assumes "cache_inv c" "byCid c (r_cid r) = Some r" "r_id r = None"
  shows "cache_inv (drop_rec c r)"
proof -
  from assms(1) have i: "index_inv c" and q: "query_inv c" by (simp_all add: cache_inv_def)
  from i assms(2) have "index_inv (drop_rec c r)" by (rule index_inv_drop_rec)
  moreover from q assms(3) have "query_inv (drop_rec c r)" by (simp add: query_inv_def)
  ultimately show ?thesis by (simp add: cache_inv_def)
qed

lemma cache_inv_create_success:
  assumes inv: "cache_inv c" and r: "byCid c k = Some r" and noid: "r_id r = None"
  shows "cache_inv (applyCreateSuccess c k i d)"
proof -
  from inv have i: "index_inv c" by (simp add: cache_inv_def)
  from index_invD(1) [OF i r] have rk: "r_cid r = k" .
  with r have r': "byCid c (r_cid r) = Some r" by simp
  define c1 where "c1 = drop_rec c r"
  define c2 where "c2 = (case byId c1 i of None \<Rightarrow> c1 | Some r0 \<Rightarrow> drop_rec c1 r0)"
  define r2 where "r2 = r\<lparr>r_id := Some i, r_data := r_data r ++ d, r_state := RESOLVED, r_prior := None\<rparr>"
  have inv1: "cache_inv c1" unfolding c1_def using inv r' noid by (rule cache_inv_drop_rec_noid)
  have byId1: "byId c1 = byId c" using noid by (simp add: c1_def)
  have free1: "k \<notin> dom (byCid c1)" using rk by (simp add: c1_def)
  have i1: "index_inv c1" using inv1 by (simp add: cache_inv_def)
  have "index_inv c2 \<and> k \<notin> dom (byCid c2) \<and> byId c2 i = None \<and> find_slice c2 = find_slice c
        \<and> dom (byId c) - {i} \<subseteq> dom (byId c2)"
  proof (cases "byId c1 i")
    case None
    with i1 free1 byId1 show ?thesis by (simp add: c2_def c1_def)
  next
    case (Some r0)
    from index_invD(3) [OF i1 Some] have r0: "byCid c1 (r_cid r0) = Some r0" .
    from index_invD(2) [OF i1 Some] have r0i: "r_id r0 = Some i" .
    from i1 r0 have "index_inv (drop_rec c1 r0)" by (rule index_inv_drop_rec)
    with Some free1 r0i byId1 show ?thesis by (auto simp: c2_def c1_def)
  qed
  then have i2: "index_inv c2" and f2: "k \<notin> dom (byCid c2)" and n2: "byId c2 i = None"
    and fs2: "find_slice c2 = find_slice c" and d2: "dom (byId c) - {i} \<subseteq> dom (byId c2)"
    by blast+
  have res: "applyCreateSuccess c k i d = put_rec c2 r2"
    unfolding applyCreateSuccess_def c2_def c1_def r2_def using r by (simp only: option.case Let_def)
  have "index_inv (put_rec c2 r2)"
    using i2 f2 n2 rk by (intro index_inv_put_rec) (simp_all add: r2_def id_free_def domIff)
  moreover have "query_inv (put_rec c2 r2)"
  proof -
    have "dom (byId c) \<subseteq> dom (byId (put_rec c2 r2))"
      using d2 by (auto simp: r2_def)
    with inv show ?thesis unfolding cache_inv_def query_inv_def find_slice_put_rec fs2 by blast
  qed
  ultimately show ?thesis by (simp add: res cache_inv_def)
qed

lemma index_inv_find_slice_update [simp]: "index_inv (c\<lparr>find_slice := f\<rparr>) = index_inv c"
  by (simp add: index_inv_def)

lemma cache_inv_destroy_success:
  assumes inv: "cache_inv c"
  shows "cache_inv (applyDestroySuccess c k)"
proof (cases "byCid c k")
  case None
  with inv show ?thesis by (simp add: applyDestroySuccess_def)
next
  case (Some r)
  from inv have i: "index_inv c" and q: "query_inv c" by (simp_all add: cache_inv_def)
  from index_inv_byCid_self [OF i Some] have r: "byCid c (r_cid r) = Some r" .
  from i r have i1: "index_inv (drop_rec c r)" by (rule index_inv_drop_rec)
  show ?thesis
  proof (cases "r_id r")
    case None
    with inv r show ?thesis using Some by (simp add: applyDestroySuccess_def cache_inv_drop_rec_noid)
  next
    case (Some j)
    have dom1: "dom (byId (drop_rec c r)) = dom (byId c) - {j}"
      using Some by auto
    have "query_inv ((drop_rec c r)\<lparr>find_slice := remove_id_from_queries j (find_slice (drop_rec c r))\<rparr>)"
      unfolding query_inv_def
    proof (intro allI impI)
      fix key q
      assume "find_slice ((drop_rec c r)\<lparr>find_slice := remove_id_from_queries j (find_slice (drop_rec c r))\<rparr>) key = Some q"
      then obtain q0 where q0: "find_slice c key = Some q0"
        and qq: "q = q0\<lparr>q_ids := filter (\<lambda>j'. j' \<noteq> j) (q_ids q0)\<rparr>"
        by (auto simp: remove_id_from_queries_def)
      from q q0 have "set (q_ids q0) \<subseteq> dom (byId c)" by (simp add: query_inv_def)
      with qq dom1 show "set (q_ids q) \<subseteq> dom (byId ((drop_rec c r)\<lparr>find_slice := remove_id_from_queries j (find_slice (drop_rec c r))\<rparr>))"
        by auto
    qed
    moreover have "index_inv ((drop_rec c r)\<lparr>find_slice := remove_id_from_queries j (find_slice (drop_rec c r))\<rparr>)"
      using i1 by simp
    ultimately show ?thesis
      using \<open>byCid c k = Some r\<close> Some by (simp add: applyDestroySuccess_def cache_inv_def)
  qed
qed

lemma upsert_inv:
  assumes inv: "cache_inv c" and k: "byCid c k = None"
  shows "cache_inv (upsert c (k, i, d)) \<and> i \<in> dom (byId (upsert c (k, i, d)))
         \<and> dom (byId c) \<subseteq> dom (byId (upsert c (k, i, d)))
         \<and> dom (byCid (upsert c (k, i, d))) \<subseteq> insert k (dom (byCid c))
         \<and> find_slice (upsert c (k, i, d)) = find_slice c"
proof (cases "byId c i")
  case None
  have "cache_inv (put_rec c (new_rec k (Some i) d RESOLVED))"
    using inv k None by (intro cache_inv_put_rec) (simp_all add: new_rec_def id_free_def domIff)
  with None show ?thesis by (auto simp: upsert_def new_rec_def)
next
  case (Some r)
  from inv have i: "index_inv c" by (simp add: cache_inv_def)
  from index_invD(3) [OF i Some] have r: "byCid c (r_cid r) = Some r" .
  let ?r' = "r\<lparr>r_data := d, r_state := RESOLVED, r_prior := None\<rparr>"
  have "cache_inv (replace_rec c r ?r')" using inv r by (intro cache_inv_replace_rec) simp_all
  moreover have "dom (byId (replace_rec c r ?r')) = dom (byId c)"
    using i r by (intro dom_byId_replace_rec) simp_all
  moreover have "dom (byCid (replace_rec c r ?r')) = dom (byCid c)"
    using r by (auto simp: replace_rec_def)
  ultimately show ?thesis using Some by (auto simp: upsert_def)
qed

lemma fold_upsert_inv:
  assumes "cache_inv c" "distinct (map fst ms)" "list_all (\<lambda>k. byCid c k = None) (map fst ms)"
  shows "cache_inv (fold (\<lambda>m c. upsert c m) ms c)
         \<and> set (map (\<lambda>(k, i, d). i) ms) \<subseteq> dom (byId (fold (\<lambda>m c. upsert c m) ms c))
         \<and> find_slice (fold (\<lambda>m c. upsert c m) ms c) = find_slice c
         \<and> dom (byId c) \<subseteq> dom (byId (fold (\<lambda>m c. upsert c m) ms c))"
  using assms
proof (induction ms arbitrary: c)
  case Nil
  then show ?case by simp
next
  case (Cons m ms)
  obtain k i d where m: "m = (k, i, d)" by (cases m) auto
  let ?c1 = "upsert c (k, i, d)"
  from Cons.prems m have k: "byCid c k = None" by simp
  from upsert_inv [OF Cons.prems(1) k]
  have c1: "cache_inv ?c1" "i \<in> dom (byId ?c1)" "dom (byCid ?c1) \<subseteq> insert k (dom (byCid c))"
    "find_slice ?c1 = find_slice c" "dom (byId c) \<subseteq> dom (byId ?c1)"
    by blast+
  have fresh: "list_all (\<lambda>k. byCid ?c1 k = None) (map fst ms)"
    unfolding list_all_iff
  proof
    fix k' assume "k' \<in> set (map fst ms)"
    with Cons.prems m have "k' \<noteq> k" "byCid c k' = None" by (auto simp: list_all_iff)
    with c1(3) show "byCid ?c1 k' = None" by blast
  qed
  from Cons.prems m have "distinct (map fst ms)" by simp
  from Cons.IH [OF c1(1) this fresh]
  have ih: "cache_inv (fold (\<lambda>m c. upsert c m) ms ?c1)"
    "set (map (\<lambda>(k, i, d). i) ms) \<subseteq> dom (byId (fold (\<lambda>m c. upsert c m) ms ?c1))"
    "find_slice (fold (\<lambda>m c. upsert c m) ms ?c1) = find_slice ?c1"
    "dom (byId ?c1) \<subseteq> dom (byId (fold (\<lambda>m c. upsert c m) ms ?c1))"
    by blast+
  have eq: "fold (\<lambda>m c. upsert c m) (m # ms) c = fold (\<lambda>m c. upsert c m) ms ?c1"
    by (simp add: m)
  show ?case unfolding eq
  proof (intro conjI)
    show "cache_inv (fold (\<lambda>m c. upsert c m) ms ?c1)" by (rule ih(1))
    have "i \<in> dom (byId (fold (\<lambda>m c. upsert c m) ms ?c1))" using c1(2) ih(4) by blast
    with ih(2) show "set (map (\<lambda>(k, i, d). i) (m # ms)) \<subseteq> dom (byId (fold (\<lambda>m c. upsert c m) ms ?c1))"
      by (simp add: m)
    show "find_slice (fold (\<lambda>m c. upsert c m) ms ?c1) = find_slice c" using ih(3) c1(4) by simp
    show "dom (byId c) \<subseteq> dom (byId (fold (\<lambda>m c. upsert c m) ms ?c1))" using c1(5) ih(4) by blast
  qed
qed

lemma cache_inv_set_query:
  assumes "cache_inv c" "set (q_ids q) \<subseteq> dom (byId c)"
  shows "cache_inv (c\<lparr>find_slice := (find_slice c)(key \<mapsto> q)\<rparr>)"
  using assms by (simp add: cache_inv_def query_inv_def)

lemma cache_inv_find_pending: "cache_inv c \<Longrightarrow> cache_inv (applyFindPending c key)"
  unfolding applyFindPending_def by (rule cache_inv_set_query) simp_all

lemma cache_inv_find_error: "cache_inv c \<Longrightarrow> cache_inv (applyFindError c key e)"
  unfolding applyFindError_def
  by (rule cache_inv_set_query) (auto simp: cache_inv_def query_inv_def split: option.splits)

lemma cache_inv_find_success:
  assumes "cache_inv c" "distinct (map fst ms)" "list_all (\<lambda>k. byCid c k = None) (map fst ms)"
  shows "cache_inv (applyFindSuccess c key ms)"
proof -
  from fold_upsert_inv [OF assms] show ?thesis
    unfolding applyFindSuccess_def Let_def by (intro cache_inv_set_query) simp_all
qed

lemma cache_inv_optimistic_create: "cache_inv c \<Longrightarrow> cache_inv (applyOptimisticCreate c k d)"
  unfolding applyOptimisticCreate_def
  by (auto intro: cache_inv_put_rec simp: new_rec_def id_free_def)

lemma cache_inv_get_pending:
  assumes inv: "cache_inv c" and k: "byCid c k = None"
  shows "cache_inv (applyGetPending c k i)"
proof (cases "byId c i")
  case None
  with inv k show ?thesis
    by (simp add: applyGetPending_def cache_inv_put_rec new_rec_def id_free_def domIff)
next
  case (Some r)
  from inv have "index_inv c" by (simp add: cache_inv_def)
  from index_invD(3) [OF this Some] have "byCid c (r_cid r) = Some r" .
  with inv Some show ?thesis by (simp add: applyGetPending_def cache_inv_replace_rec)
qed

lemma cache_inv_get_error: "cache_inv c \<Longrightarrow> cache_inv (applyGetError c i e)"
proof (cases "byId c i")
  case None
  then show "cache_inv c \<Longrightarrow> ?thesis" by (simp add: applyGetError_def)
next
  case (Some r)
  assume inv: "cache_inv c"
  then have "index_inv c" by (simp add: cache_inv_def)
  from index_invD(3) [OF this Some] have "byCid c (r_cid r) = Some r" .
  with inv Some show ?thesis by (simp add: applyGetError_def cache_inv_replace_rec)
qed

text \<open>
  Property: every operation of the reducer keeps the cache
  consistent (each record under its own client id and server id, the two indices
  holding the same copy, every id listed by a query resolvable in \<open>byId\<close>),
  provided the dispatcher hands it fresh client ids and confirms only unconfirmed creates.
\<close>

theorem apply_op_preserves_inv:
  assumes "cache_inv c" and "op_ok c op"
  shows "cache_inv (apply_op c op)"
  using assms
proof (cases op)
  case (CreateSuccess k i d)
  show ?thesis
  proof (cases "byCid c k")
    case None
    then show ?thesis using CreateSuccess assms(1) by (simp add: applyCreateSuccess_def)
  next
    case (Some r)
    with assms CreateSuccess have "r_id r = None" by (simp add: op_ok_def)
    with assms(1) Some CreateSuccess show ?thesis by (simp add: cache_inv_create_success)
  qed
qed (simp_all add: op_ok_def cache_inv_with_rec applyCreateError_def applyOptimisticUpdate_def
       applyUpdateSuccess_def applyUpdateError_def applyOptimisticDestroy_def applyDestroyError_def
       cache_inv_destroy_success cache_inv_find_pending cache_inv_find_error cache_inv_find_success
       cache_inv_optimistic_create cache_inv_get_pending cache_inv_get_error applyGetSuccess_def
       upsert_inv)


subsection \<open>Reading one record after an operation\<close>

lemma with_rec_absent: "byCid c k = None \<Longrightarrow> with_rec c k f = c"
  by (simp add: with_rec_def)

lemma byCid_with_rec:
  assumes "cache_inv c" "\<And>r. r_cid (f r) = r_cid r"
  shows "byCid (with_rec c k f) k = map_option f (byCid c k)"
proof (cases "byCid c k")
  case None
  then show ?thesis by (simp add: with_rec_def)
next
  case (Some r)
  from assms(1) have "index_inv c" by (simp add: cache_inv_def)
  from index_invD(1) [OF this Some] have "r_cid r = k" .
  with Some assms(2) [of r] show ?thesis by (simp add: with_rec_def replace_rec_def)
qed

lemma byCid_destroy_success_self: "cache_inv c \<Longrightarrow> byCid (applyDestroySuccess c k) k = None"
  by (cases "byCid c k")
     (auto simp: applyDestroySuccess_def cache_inv_def Let_def dest: index_invD(1) split: option.splits)

subsection \<open>Properties of the cache operations\<close>

text \<open>
  Property: an optimistic create followed by its confirmation leaves exactly one record
  for the server id, reachable by the original client id and by the server id, with
  the server fields merged over the optimistic ones and state RESOLVED (spec section 8).
\<close>

theorem create_then_success:
  assumes inv: "cache_inv c" and fresh: "byCid c k = None"
  shows "\<exists>r. byCid (applyCreateSuccess (applyOptimisticCreate c k d) k i d') k = Some r
           \<and> byId (applyCreateSuccess (applyOptimisticCreate c k d) k i d') i = Some r
           \<and> r_data r = d ++ d' \<and> r_state r = RESOLVED
           \<and> (\<forall>k' r'. byCid (applyCreateSuccess (applyOptimisticCreate c k d) k i d') k' = Some r'
                 \<longrightarrow> r_id r' = Some i \<longrightarrow> k' = k)"
proof -
  let ?c1 = "applyOptimisticCreate c k d"
  let ?c2 = "applyCreateSuccess ?c1 k i d'"
  have c1: "byCid ?c1 k = Some (new_rec k None d PENDING_OPTIMISTIC)"
    using fresh by (simp add: applyOptimisticCreate_def domIff new_rec_def)
  have inv1: "cache_inv ?c1" using inv by (rule cache_inv_optimistic_create)
  have inv2: "cache_inv ?c2" using inv1 c1 by (rule cache_inv_create_success) (simp add: new_rec_def)
  let ?r = "(new_rec k None d PENDING_OPTIMISTIC)\<lparr>r_id := Some i, r_data := d ++ d', r_state := RESOLVED, r_prior := None\<rparr>"
  have k2: "byCid ?c2 k = Some ?r"
    using c1 by (simp add: applyCreateSuccess_def Let_def new_rec_def split: option.splits)
  from inv2 have i2: "index_inv ?c2" by (simp add: cache_inv_def)
  from index_invD(4) [OF i2 k2] have "byId ?c2 i = Some ?r" by simp
  moreover have "\<forall>k' r'. byCid ?c2 k' = Some r' \<longrightarrow> r_id r' = Some i \<longrightarrow> k' = k"
  proof (intro allI impI)
    fix k' r' assume a: "byCid ?c2 k' = Some r'" and b: "r_id r' = Some i"
    from index_invD(4) [OF i2 a b] \<open>byId ?c2 i = Some ?r\<close> have "r' = ?r" by simp
    with index_invD(1) [OF i2 a] show "k' = k" by (simp add: new_rec_def)
  qed
  ultimately show ?thesis using k2 by (auto simp: new_rec_def)
qed


text \<open>
  Property: an optimistic update rolled back by a failed request restores the
  record's fields exactly as they were before the update (spec section 8).
\<close>

theorem update_error_restores:
  assumes inv: "cache_inv c" and r: "byCid c k = Some r"
  shows "map_option r_data (byCid (applyUpdateError (applyOptimisticUpdate c k p) k e) k) = Some (r_data r)"
proof -
  have inv1: "cache_inv (applyOptimisticUpdate c k p)"
    unfolding applyOptimisticUpdate_def using inv by (rule cache_inv_with_rec) simp_all
  have "byCid (applyOptimisticUpdate c k p) k
        = Some (r\<lparr>r_data := r_data r ++ p, r_state := PENDING_UPDATE, r_prior := Some (r_data r)\<rparr>)"
    unfolding applyOptimisticUpdate_def using r by (simp add: byCid_with_rec [OF inv])
  then show ?thesis
    unfolding applyUpdateError_def using r by (simp add: byCid_with_rec [OF inv1])
qed

text \<open>
  Property: after an optimistic destroy and its confirmation the record is gone
  from byCid and byId and its server id from every query result (spec section 8).
\<close>

theorem destroy_removes_everywhere:
  assumes inv: "cache_inv c" and r: "byCid c k = Some r"
  shows "byCid (applyDestroySuccess (applyOptimisticDestroy c k) k) k = None
       \<and> (case r_id r of
            None \<Rightarrow> True
          | Some i \<Rightarrow> byId (applyDestroySuccess (applyOptimisticDestroy c k) k) i = None
              \<and> (\<forall>key q. find_slice (applyDestroySuccess (applyOptimisticDestroy c k) k) key = Some q
                     \<longrightarrow> i \<notin> set (q_ids q)))"
proof -
  let ?r1 = "r\<lparr>r_state := PENDING_DESTROY\<rparr>"
  have inv1: "cache_inv (applyOptimisticDestroy c k)"
    unfolding applyOptimisticDestroy_def using inv by (rule cache_inv_with_rec) simp_all
  have b1: "byCid (applyOptimisticDestroy c k) k = Some ?r1"
    unfolding applyOptimisticDestroy_def using r by (simp add: byCid_with_rec [OF inv])
  from inv1 have "index_inv (applyOptimisticDestroy c k)" by (simp add: cache_inv_def)
  from index_invD(1) [OF this b1] have cid: "r_cid r = k" by simp
  show ?thesis
  proof (cases "r_id r")
    case None
    with b1 cid show ?thesis by (simp add: applyDestroySuccess_def Let_def)
  next
    case (Some i)
    with b1 cid show ?thesis
      by (auto simp: applyDestroySuccess_def Let_def remove_id_from_queries_def)
  qed
qed

text \<open>
  Property: a confirmed destroy is final: a reconciliation of an earlier update,
  destroy or create that completes after it does not bring the record back (spec 4.1).
\<close>

theorem destroy_wins:
  assumes "cache_inv c"
  shows "byCid (apply_op (applyDestroySuccess c k) (UpdateSuccess k d)) k = None
       \<and> byCid (apply_op (applyDestroySuccess c k) (UpdateError k e)) k = None
       \<and> byCid (apply_op (applyDestroySuccess c k) (DestroyError k e)) k = None
       \<and> byCid (apply_op (applyDestroySuccess c k) (CreateError k e)) k = None"
  using byCid_destroy_success_self [OF assms]
  by (simp add: with_rec_absent applyUpdateSuccess_def applyUpdateError_def
      applyDestroyError_def applyCreateError_def)


text \<open>
  Property: a create confirmed after a find already cached the same server record
  under another client id converges on one record: the find's copy is dropped and no
  other client id holds the server id (spec 4.1, edge cases).
\<close>

theorem create_find_converge:
  assumes inv: "cache_inv c" and k1: "byCid c k1 = None" and k2: "byCid c k2 = None"
    and ne: "k1 \<noteq> k2" and i: "byId c i = None"
  shows "byCid (applyCreateSuccess (applyFindSuccess (applyOptimisticCreate c k1 d) key [(k2, i, d2)]) k1 i d1) k2 = None
       \<and> (\<forall>k r. byCid (applyCreateSuccess (applyFindSuccess (applyOptimisticCreate c k1 d) key [(k2, i, d2)]) k1 i d1) k = Some r
               \<longrightarrow> r_id r = Some i \<longrightarrow> k = k1)"
proof -
  let ?c1 = "applyOptimisticCreate c k1 d"
  let ?c2 = "applyFindSuccess ?c1 key [(k2, i, d2)]"
  let ?c3 = "applyCreateSuccess ?c2 k1 i d1"
  let ?r1 = "new_rec k1 None d PENDING_OPTIMISTIC"
  let ?r2 = "new_rec k2 (Some i) d2 RESOLVED"
  let ?r3 = "?r1\<lparr>r_id := Some i, r_data := r_data ?r1 ++ d1, r_state := RESOLVED, r_prior := None\<rparr>"
  have b1: "byCid ?c1 = (byCid c)(k1 \<mapsto> ?r1)" and i1: "byId ?c1 = byId c"
    using k1 by (simp_all add: applyOptimisticCreate_def domIff new_rec_def)
  have b2: "byCid ?c2 = (byCid c)(k1 \<mapsto> ?r1, k2 \<mapsto> ?r2)" and i2: "byId ?c2 = (byId c)(i \<mapsto> ?r2)"
    using b1 i1 i by (simp_all add: applyFindSuccess_def upsert_def new_rec_def)
  have r1: "byCid ?c2 k1 = Some ?r1" using b2 ne by simp
  have c3: "?c3 = put_rec (drop_rec (drop_rec ?c2 ?r1) ?r2) ?r3"
    using r1 i2 by (simp add: applyCreateSuccess_def Let_def new_rec_def)
  have inv1: "cache_inv ?c1" using inv by (rule cache_inv_optimistic_create)
  have inv2: "cache_inv ?c2"
    using inv1 b1 k2 ne by (intro cache_inv_find_success) simp_all
  have inv3: "cache_inv ?c3"
    using inv2 r1 by (rule cache_inv_create_success) (simp add: new_rec_def)
  then have ix: "index_inv ?c3" by (simp add: cache_inv_def)
  have "byCid ?c3 k1 = Some ?r3" unfolding c3 by (simp add: new_rec_def)
  from index_invD(4) [OF ix this] have bi: "byId ?c3 i = Some ?r3" by simp
  have "byCid ?c3 k2 = None" unfolding c3 using ne by (simp add: new_rec_def)
  moreover have "\<forall>k r. byCid ?c3 k = Some r \<longrightarrow> r_id r = Some i \<longrightarrow> k = k1"
  proof (intro allI impI)
    fix k r assume a: "byCid ?c3 k = Some r" and b: "r_id r = Some i"
    from index_invD(4) [OF ix a b] bi have "r = ?r3" by simp
    with index_invD(1) [OF ix a] show "k = k1" by (simp add: new_rec_def)
  qed
  ultimately show ?thesis by blast
qed


subsection \<open>Witnesses\<close>

lemma cache_inv_ok_example:
  "op_ok empty_cache (FindSuccess ''q'' [(Cid 1, ''1'', Map.empty)])"
  by (simp add: op_ok_def empty_cache_def)

theorem apply_op_preserves_inv_witness:
  "cache_inv empty_cache \<and> op_ok empty_cache (FindSuccess ''q'' [(Cid 1, ''1'', Map.empty)])
   \<and> cache_inv (apply_op empty_cache (FindSuccess ''q'' [(Cid 1, ''1'', Map.empty)]))"
  using apply_op_preserves_inv [OF cache_inv_empty cache_inv_ok_example] cache_inv_empty cache_inv_ok_example
  by simp

theorem create_then_success_witness:
  "cache_inv empty_cache \<and> byCid empty_cache (Cid 0) = None \<and>
   (\<exists>r. byCid (applyCreateSuccess (applyOptimisticCreate empty_cache (Cid 0) [''title'' \<mapsto> JStr ''foo''])
               (Cid 0) ''1'' [''id'' \<mapsto> JStr ''1'']) (Cid 0) = Some r
      \<and> byId (applyCreateSuccess (applyOptimisticCreate empty_cache (Cid 0) [''title'' \<mapsto> JStr ''foo''])
               (Cid 0) ''1'' [''id'' \<mapsto> JStr ''1'']) ''1'' = Some r
      \<and> r_data r = [''title'' \<mapsto> JStr ''foo''] ++ [''id'' \<mapsto> JStr ''1''] \<and> r_state r = RESOLVED)"
proof -
  have e: "byCid empty_cache (Cid 0) = None" by (simp add: empty_cache_def)
  show ?thesis
    using create_then_success [OF cache_inv_empty e, of "[''title'' \<mapsto> JStr ''foo'']" "''1''" "[''id'' \<mapsto> JStr ''1'']"]
      cache_inv_empty e by blast
qed

lemma todo_cache_inv: "cache_inv todo_cache"
  unfolding todo_cache_def
  by (rule cache_inv_put_rec [OF cache_inv_empty])
     (simp_all add: todo_rec_def new_rec_def empty_cache_def id_free_def)

lemma todo_cache_cid: "byCid todo_cache (Cid 1) = Some todo_rec"
  by (simp add: todo_cache_def todo_rec_def new_rec_def)

theorem update_error_restores_witness:
  "cache_inv todo_cache \<and> byCid todo_cache (Cid 1) = Some todo_rec \<and>
   map_option r_data (byCid (applyUpdateError (applyOptimisticUpdate todo_cache (Cid 1) [''title'' \<mapsto> JStr ''baz''])
     (Cid 1) JNull) (Cid 1)) = Some [''title'' \<mapsto> JStr ''foo'']"
  using update_error_restores [OF todo_cache_inv todo_cache_cid] todo_cache_inv todo_cache_cid
  by (simp add: todo_rec_def new_rec_def)

theorem destroy_removes_everywhere_witness:
  "cache_inv todo_cache \<and> byCid todo_cache (Cid 1) = Some todo_rec \<and>
   byCid (applyDestroySuccess (applyOptimisticDestroy todo_cache (Cid 1)) (Cid 1)) (Cid 1) = None \<and>
   byId (applyDestroySuccess (applyOptimisticDestroy todo_cache (Cid 1)) (Cid 1)) ''1'' = None"
  using destroy_removes_everywhere [OF todo_cache_inv todo_cache_cid] todo_cache_inv todo_cache_cid
  by (simp add: todo_rec_def new_rec_def)

theorem destroy_wins_witness:
  "cache_inv todo_cache \<and>
   byCid (apply_op (applyDestroySuccess todo_cache (Cid 1)) (UpdateSuccess (Cid 1) [''title'' \<mapsto> JStr ''bar''])) (Cid 1) = None"
  using destroy_wins [OF todo_cache_inv, of "Cid 1" "[''title'' \<mapsto> JStr ''bar'']" JNull] todo_cache_inv
  by blast

theorem create_find_converge_witness:
  "cache_inv empty_cache \<and> byCid empty_cache (Cid 1) = None \<and> byCid empty_cache (Cid 2) = None
   \<and> Cid 1 \<noteq> Cid 2 \<and> byId empty_cache ''1'' = None \<and>
   byCid (applyCreateSuccess (applyFindSuccess (applyOptimisticCreate empty_cache (Cid 1) Map.empty) ''q''
      [(Cid 2, ''1'', Map.empty)]) (Cid 1) ''1'' Map.empty) (Cid 2) = None"
proof -
  have h: "byCid empty_cache (Cid 1) = None" "byCid empty_cache (Cid 2) = None" "Cid 1 \<noteq> Cid 2"
    "byId empty_cache ''1'' = None"
    by (simp_all add: empty_cache_def)
  show ?thesis
    using create_find_converge [OF cache_inv_empty h, of Map.empty "''q''" Map.empty Map.empty] cache_inv_empty h
    by blast
qed

end
