(* ===== verification/Find_Blueprint.thy ===== *)
theory Find_Blueprint
  imports Record_Store
begin

text \<open>
  The \<open>find\<close> action blueprint, \<open>src/packages/lore-actions/src/blueprints/find.js\<close>.
  The blueprint validates its options once (lines 8--20) and returns \<open>fetchAll\<close>
  (lines 22--80), a Redux thunk. Running the thunk is split the way the JavaScript event
  loop splits it:
  \<^item> \<open>fetchAll_issue\<close> is the synchronous part: build the request, start
    \<open>collection.fetch\<close>, and dispatch the optimistic action (lines 24--33, 72--78);
  \<^item> \<open>fetchAll_settle\<close> is the part that runs when the fetch promise settles: the
    \<open>then\<close> handler (lines 35--55) and the \<open>catch\<close> handler chained after it
    (lines 56--70), which also receives whatever the \<open>then\<close> handler throws.
  The Redux store is a type variable \<open>'s\<close> and \<open>store.dispatch\<close> a parameter: it
  returns the next store state and, if the reducer or a subscriber threw, the exception.
  Dispatched actions and callback invocations are recorded as events, in order.
\<close>

subsection \<open>Actions and payloads\<close>

datatype js_exn = JsError string | JsThrown json

text \<open>
  A Backbone model of the fetched collection: its client id and its attributes. The
  payload helpers \<open>payload\<close> and \<open>payloadCollection\<close> live in
  \<open>lore-actions/src/utils\<close>, outside \<open>src/\<close>.
\<close>

type_synonym bmodel = "cid \<times> json"

record model_payload =
  mp_id :: json
  mp_cid :: cid
  mp_state :: string
  mp_error :: json
  mp_data :: json

record coll_payload =
  cp_state :: string
  cp_error :: json
  cp_data :: "model_payload list"
  cp_query :: json

datatype payload = PCollection coll_payload | PModel model_payload

record action =
  a_type :: string
  a_payload :: payload
  a_query :: json

definition model_payload_of :: "bmodel \<Rightarrow> string \<Rightarrow> model_payload" where
  "model_payload_of m st =
     \<lparr>mp_id = obj_get (snd m) ''id'', mp_cid = fst m, mp_state = st, mp_error = JObj [],
      mp_data = snd m\<rparr>"

definition payloadCollection :: "bmodel list \<Rightarrow> string \<Rightarrow> json \<Rightarrow> json \<Rightarrow> coll_payload" where
  "payloadCollection models st err q =
     \<lparr>cp_state = st, cp_error = err, cp_data = map (\<lambda>m. model_payload_of m st) models, cp_query = q\<rparr>"

subsection \<open>Options\<close>

text \<open>
  The options object as the caller writes it: each of the three stages (\<open>optimistic\<close>,
  \<open>onSuccess\<close>, \<open>onError\<close>) may be absent or name only some of its fields;
  \<open>beforeDispatch\<close> records whether the \<open>onError\<close> stage has that callback.
  \<open>normalize.getActions\<close> is the caller's function from the fetched models to the
  extra actions; \<open>normalize.dispatchActions\<close> whether the caller supplied the function
  that dispatches them.
\<close>

record stage_opts =
  so_actionType :: "string option"
  so_payloadState :: "string option"
  so_beforeDispatch :: bool

record normalize_opts =
  n_getActions :: "(bmodel list \<Rightarrow> action list) option"
  n_dispatchActions :: bool

record find_opts =
  fo_collection :: "string option"
  fo_optimistic :: "stage_opts option"
  fo_onSuccess :: "stage_opts option"
  fo_onError :: "stage_opts option"
  fo_normalize :: "normalize_opts option"

text \<open>A validated stage: both fields present.\<close>

record stage =
  actionType :: string
  payloadState :: string
  beforeDispatch :: bool

record find_config =
  fc_collection :: string
  fc_optimistic :: "stage option"
  fc_onSuccess :: "stage option"
  fc_onError :: "stage option"
  fc_normalize :: "normalize_opts option"

datatype config_error = MustSpecifyCollection | MissingPair string

text \<open>
  \<open>_.defaultsDeep(options, defaultOptions)\<close> (line 12): a field the caller left
  undefined takes the default; two nested objects are merged the same way, field by field.
\<close>

definition default_field :: "'a option \<Rightarrow> 'a option \<Rightarrow> 'a option" where
  "default_field u d = (case u of None \<Rightarrow> d | Some x \<Rightarrow> Some x)"

definition defaults_stage :: "stage_opts option \<Rightarrow> stage_opts option \<Rightarrow> stage_opts option" where
  "defaults_stage u d =
     (case (u, d) of
        (Some x, Some y) \<Rightarrow>
          Some \<lparr>so_actionType = default_field (so_actionType x) (so_actionType y),
                so_payloadState = default_field (so_payloadState x) (so_payloadState y),
                so_beforeDispatch = (so_beforeDispatch x \<or> so_beforeDispatch y)\<rparr>
      | (None, _) \<Rightarrow> d
      | (Some x, None) \<Rightarrow> Some x)"

definition defaults_normalize :: "normalize_opts option \<Rightarrow> normalize_opts option \<Rightarrow> normalize_opts option" where
  "defaults_normalize u d =
     (case (u, d) of
        (Some x, Some y) \<Rightarrow>
          Some \<lparr>n_getActions = default_field (n_getActions x) (n_getActions y),
                n_dispatchActions = (n_dispatchActions x \<or> n_dispatchActions y)\<rparr>
      | (None, _) \<Rightarrow> d
      | (Some x, None) \<Rightarrow> Some x)"

definition defaultsDeep :: "find_opts \<Rightarrow> find_opts \<Rightarrow> find_opts" where
  "defaultsDeep u d =
     \<lparr>fo_collection = default_field (fo_collection u) (fo_collection d),
      fo_optimistic = defaults_stage (fo_optimistic u) (fo_optimistic d),
      fo_onSuccess = defaults_stage (fo_onSuccess u) (fo_onSuccess d),
      fo_onError = defaults_stage (fo_onError u) (fo_onError d),
      fo_normalize = defaults_normalize (fo_normalize u) (fo_normalize d)\<rparr>"

text \<open>
  \<open>validatePartialPairs\<close> (utils, outside \<open>src/\<close>; spec section 7): a stage that is
  given must name both its action type and its payload state.
\<close>

definition validate_stage :: "string \<Rightarrow> stage_opts option \<Rightarrow> config_error + stage option" where
  "validate_stage name so =
     (case so of
        None \<Rightarrow> Inr None
      | Some x \<Rightarrow>
          (case (so_actionType x, so_payloadState x) of
             (Some t, Some p) \<Rightarrow> Inr (Some \<lparr>actionType = t, payloadState = p, beforeDispatch = so_beforeDispatch x\<rparr>)
           | _ \<Rightarrow> Inl (MissingPair name)))"

definition validatePartialPairs :: "find_opts \<Rightarrow> string \<Rightarrow> config_error + find_config" where
  "validatePartialPairs o2 coll =
     (case validate_stage ''optimistic'' (fo_optimistic o2) of Inl e \<Rightarrow> Inl e | Inr opt \<Rightarrow>
      case validate_stage ''onSuccess'' (fo_onSuccess o2) of Inl e \<Rightarrow> Inl e | Inr suc \<Rightarrow>
      case validate_stage ''onError'' (fo_onError o2) of Inl e \<Rightarrow> Inl e | Inr err \<Rightarrow>
        Inr \<lparr>fc_collection = coll, fc_optimistic = opt, fc_onSuccess = suc, fc_onError = err,
             fc_normalize = fo_normalize o2\<rparr>)"

text \<open>Lines 8--20: clone, fill in the defaults, require a collection, validate.\<close>

definition find_blueprint :: "find_opts \<Rightarrow> find_opts \<Rightarrow> config_error + find_config" where
  "find_blueprint defaultOptions opts =
     (let options = defaultsDeep opts defaultOptions
      in case fo_collection options of
           None \<Rightarrow> Inl MustSpecifyCollection
         | Some coll \<Rightarrow> validatePartialPairs options coll)"

subsection \<open>Running the thunk\<close>

type_synonym 's dispatcher = "action \<Rightarrow> 's \<Rightarrow> 's \<times> js_exn option"

text \<open>
  Redux's \<open>store.dispatch\<close> for a reducer and subscribers that do not throw: the
  next state is the reducer applied to the action.
\<close>

definition redux_dispatch :: "('s \<Rightarrow> action \<Rightarrow> 's) \<Rightarrow> 's dispatcher" where
  "redux_dispatch reducer a s = (reducer s a, None)"

record find_request =
  req_collection :: string
  req_query :: json
  req_params :: json
  req_combined :: json

datatype fetch_result = Fetched "bmodel list" | FetchFailed json

datatype find_event =
    EvDispatch action
  | EvBeforeDispatch json "json list"
  | EvDispatchActions "action list"
  | EvUnhandled js_exn

text \<open>\<open>fetchAll(query = {}, pagination)\<close>: the default applies to \<open>undefined\<close> only.\<close>

definition default_query :: "json \<Rightarrow> json" where
  "default_query q = (if q = JUndef then JObj [] else q)"

definition queryParameters :: "json \<Rightarrow> json \<Rightarrow> json" where
  "queryParameters q pagination = js_extend (JObj []) [q, pagination]"

definition combinedQuery :: "json \<Rightarrow> json \<Rightarrow> json" where
  "combinedQuery q pagination = JObj [(''where'', q), (''pagination'', pagination)]"

definition find_request_of :: "find_config \<Rightarrow> json \<Rightarrow> json \<Rightarrow> find_request" where
  "find_request_of cfg query pagination =
     (let q = default_query query
      in \<lparr>req_collection = fc_collection cfg, req_query = q,
          req_params = queryParameters q pagination, req_combined = combinedQuery q pagination\<rparr>)"

definition stage_action :: "stage \<Rightarrow> bmodel list \<Rightarrow> json \<Rightarrow> json \<Rightarrow> action" where
  "stage_action st models err cq =
     \<lparr>a_type = actionType st, a_payload = PCollection (payloadCollection models (payloadState st) err cq),
      a_query = cq\<rparr>"

text \<open>
  Lines 72--78, run after \<open>collection.fetch\<close> has been started (line 33): with an
  \<open>optimistic\<close> stage, dispatch its action over the still empty collection and return
  it; without one the thunk returns \<open>undefined\<close>. A dispatch that throws makes the
  thunk throw; the request is in flight regardless.
\<close>

definition fetchAll_issue ::
  "find_config \<Rightarrow> json \<Rightarrow> json \<Rightarrow> 's dispatcher \<Rightarrow> 's \<Rightarrow>
   find_request \<times> 's \<times> find_event list \<times> (js_exn + action option)" where
  "fetchAll_issue cfg query pagination dispatch s =
     (let req = find_request_of cfg query pagination
      in case fc_optimistic cfg of
           None \<Rightarrow> (req, s, [], Inr None)
         | Some st \<Rightarrow>
             let a = stage_action st [] JNull (req_combined req);
                 (s1, ex) = dispatch a s
             in (req, s1, [EvDispatch a], case ex of None \<Rightarrow> Inr (Some a) | Some e \<Rightarrow> Inl e))"

text \<open>\<open>options.normalize.dispatchActions(actions, dispatch)\<close>: dispatches each action in turn.\<close>

fun dispatch_all :: "'s dispatcher \<Rightarrow> action list \<Rightarrow> 's \<Rightarrow> 's \<times> find_event list \<times> js_exn option" where
  "dispatch_all dispatch [] s = (s, [], None)"
| "dispatch_all dispatch (a # as) s =
     (case dispatch a s of
        (s1, Some e) \<Rightarrow> (s1, [EvDispatch a], Some e)
      | (s1, None) \<Rightarrow> (case dispatch_all dispatch as s1 of (s2, evs, ex) \<Rightarrow> (s2, EvDispatch a # evs, ex)))"

text \<open>The \<open>then\<close> handler, lines 35--55.\<close>

definition on_fetch_success ::
  "find_config \<Rightarrow> json \<Rightarrow> bmodel list \<Rightarrow> 's dispatcher \<Rightarrow> 's \<Rightarrow> 's \<times> find_event list \<times> js_exn option" where
  "on_fetch_success cfg cq models dispatch s =
     (case fc_onSuccess cfg of
        None \<Rightarrow> (s, [], None)
      | Some st \<Rightarrow>
          let actions = (case fc_normalize cfg of
                           Some n \<Rightarrow> (case n_getActions n of Some g \<Rightarrow> g models | None \<Rightarrow> [])
                         | None \<Rightarrow> []);
              a = stage_action st models JNull cq;
              (s1, ex) = dispatch a s
          in case ex of
               Some e \<Rightarrow> (s1, [EvDispatch a], Some e)
             | None \<Rightarrow>
                 (if (case fc_normalize cfg of Some n \<Rightarrow> n_dispatchActions n | None \<Rightarrow> False)
                  then (case dispatch_all dispatch actions s1 of
                          (s2, evs, ex2) \<Rightarrow> (s2, EvDispatch a # EvDispatchActions actions # evs, ex2))
                  else (s1, [EvDispatch a], None)))"

text \<open>
  The value the \<open>catch\<close> handler receives: the rejected response, or what the \<open>then\<close>
  handler threw. An \<open>Error\<close> object has no \<open>data\<close> property.
\<close>

fun exn_response :: "js_exn \<Rightarrow> json" where
  "exn_response (JsError msg) = JObj [(''message'', JStr msg)]"
| "exn_response (JsThrown v) = v"

text \<open>
  The \<open>catch\<close> handler, lines 56--70. Its payload is built over the same collection,
  which holds the fetched models when the \<open>then\<close> handler is the one that threw. An
  exception it throws itself rejects the chain and is reported as unhandled. The rejection
  Backbone passes is a response object; \<open>response.data\<close> on a \<open>null\<close> or \<open>undefined\<close>
  rejection would throw, which the model does not represent (\<open>obj_get\<close> reads undefined).
  \<open>beforeDispatch\<close> and \<open>normalize.getActions\<close> are assumed not to throw.
\<close>

definition on_fetch_error ::
  "find_config \<Rightarrow> json \<Rightarrow> json \<Rightarrow> bmodel list \<Rightarrow> json \<Rightarrow> 's dispatcher \<Rightarrow> 's \<Rightarrow> 's \<times> find_event list" where
  "on_fetch_error cfg q cq models response dispatch s =
     (case fc_onError cfg of
        None \<Rightarrow> (s, [])
      | Some st \<Rightarrow>
          let err = obj_get response ''data'';
              evs0 = (if beforeDispatch st then [EvBeforeDispatch response [q]] else []);
              a = stage_action st models err cq;
              (s1, ex) = dispatch a s
          in (s1, evs0 @ [EvDispatch a] @ (case ex of None \<Rightarrow> [] | Some e \<Rightarrow> [EvUnhandled e])))"

definition fetchAll_settle ::
  "find_config \<Rightarrow> find_request \<Rightarrow> fetch_result \<Rightarrow> 's dispatcher \<Rightarrow> 's \<Rightarrow> 's \<times> find_event list" where
  "fetchAll_settle cfg req result dispatch s =
     (case result of
        Fetched models \<Rightarrow>
          (case on_fetch_success cfg (req_combined req) models dispatch s of
             (s1, evs, None) \<Rightarrow> (s1, evs)
           | (s1, evs, Some e) \<Rightarrow>
               (case on_fetch_error cfg (req_query req) (req_combined req) models (exn_response e) dispatch s1 of
                  (s2, evs2) \<Rightarrow> (s2, evs @ evs2)))
      | FetchFailed response \<Rightarrow>
          on_fetch_error cfg (req_query req) (req_combined req) [] response dispatch s)"

text \<open>
  One whole call: the synchronous part, then, on a later turn of the event loop, the
  settlement. Other work may run between the two; \<open>fetchAll_run\<close> is the run where
  none does.
\<close>

definition fetchAll_run ::
  "find_config \<Rightarrow> json \<Rightarrow> json \<Rightarrow> fetch_result \<Rightarrow> 's dispatcher \<Rightarrow> 's \<Rightarrow> 's \<times> find_event list" where
  "fetchAll_run cfg query pagination result dispatch s =
     (case fetchAll_issue cfg query pagination dispatch s of
        (req, s1, evs1, _) \<Rightarrow>
          (case fetchAll_settle cfg req result dispatch s1 of (s2, evs2) \<Rightarrow> (s2, evs1 @ evs2)))"

fun dispatched :: "find_event list \<Rightarrow> action list" where
  "dispatched [] = []"
| "dispatched (EvDispatch a # evs) = a # dispatched evs"
| "dispatched (_ # evs) = dispatched evs"

subsection \<open>The configuration of the \<open>todo\<close> model\<close>

text \<open>
  The options that \<open>lore-hook-actions\<close> passes to the blueprint for a model \<open>todo\<close>
  (outside \<open>src/\<close>): action type \<open>FETCH_TODOS\<close> for every stage and the payload
  states \<open>FETCHING\<close>, \<open>RESOLVED\<close> and \<open>ERROR_FETCHING\<close>.
\<close>

definition fetch_stage :: "string \<Rightarrow> stage_opts option" where
  "fetch_stage st = Some \<lparr>so_actionType = Some ''FETCH_TODOS'', so_payloadState = Some st, so_beforeDispatch = False\<rparr>"

definition todo_find_defaults :: find_opts where
  "todo_find_defaults =
     \<lparr>fo_collection = Some ''todos'', fo_optimistic = fetch_stage ''FETCHING'',
      fo_onSuccess = fetch_stage ''RESOLVED'', fo_onError = fetch_stage ''ERROR_FETCHING'',
      fo_normalize = None\<rparr>"

definition no_opts :: find_opts where
  "no_opts = \<lparr>fo_collection = None, fo_optimistic = None, fo_onSuccess = None, fo_onError = None,
                fo_normalize = None\<rparr>"

definition fetch_todos :: "string \<Rightarrow> stage" where
  "fetch_todos st = \<lparr>actionType = ''FETCH_TODOS'', payloadState = st, beforeDispatch = False\<rparr>"

definition todo_find_config :: find_config where
  "todo_find_config =
     \<lparr>fc_collection = ''todos'', fc_optimistic = Some (fetch_todos ''FETCHING''),
      fc_onSuccess = Some (fetch_todos ''RESOLVED''), fc_onError = Some (fetch_todos ''ERROR_FETCHING''),
      fc_normalize = None\<rparr>"

subsection \<open>Lemmas\<close>

lemma todo_find_blueprint: "find_blueprint todo_find_defaults no_opts = Inr todo_find_config"
  by (simp add: find_blueprint_def defaultsDeep_def no_opts_def todo_find_defaults_def default_field_def
      defaults_stage_def defaults_normalize_def validatePartialPairs_def validate_stage_def fetch_stage_def
      todo_find_config_def fetch_todos_def)

lemma dispatched_append [simp]: "dispatched (xs @ ys) = dispatched xs @ dispatched ys"
  by (induction xs rule: dispatched.induct) auto

text \<open>
  C1: with an optimistic and an onSuccess stage and a store that does not
  throw, one call of fetchAll whose fetch succeeds dispatches exactly two actions: first
  the optimistic one over the empty collection, then the success one carrying the fetched
  models in server order, both tagged with the combined query {where, pagination}.
\<close>

theorem find_success_dispatch_order:
  assumes opt: "fc_optimistic cfg = Some so" and suc: "fc_onSuccess cfg = Some ss"
    and nrm: "fc_normalize cfg = None"
  shows "dispatched (snd (fetchAll_run cfg query pagination (Fetched models) (redux_dispatch reducer) s)) =
         [stage_action so [] JNull (combinedQuery (default_query query) pagination),
          stage_action ss models JNull (combinedQuery (default_query query) pagination)]"
  using opt suc nrm
  by (simp add: redux_dispatch_def fetchAll_run_def fetchAll_issue_def fetchAll_settle_def on_fetch_success_def
      find_request_of_def Let_def split: prod.splits option.splits)

text \<open>
  C2: when the fetch is rejected, the optimistic action is followed by the
  onError.beforeDispatch callback (called with the response and [query], if configured)
  and then by exactly one error action whose error is response.data.
\<close>

theorem find_error_dispatch_order:
  assumes opt: "fc_optimistic cfg = Some so" and err: "fc_onError cfg = Some se"
  shows "snd (fetchAll_run cfg query pagination (FetchFailed response) (redux_dispatch reducer) s) =
         [EvDispatch (stage_action so [] JNull (combinedQuery (default_query query) pagination))]
         @ (if beforeDispatch se then [EvBeforeDispatch response [default_query query]] else [])
         @ [EvDispatch (stage_action se [] (obj_get response ''data'') (combinedQuery (default_query query) pagination))]"
  using opt err
  by (simp add: redux_dispatch_def fetchAll_run_def fetchAll_issue_def fetchAll_settle_def on_fetch_error_def
      find_request_of_def Let_def split: prod.splits option.splits)

text \<open>
  C3: because the catch handler is chained after the then handler, an
  exception thrown while dispatching the success action is handled as a failed request:
  the error action is dispatched as well, over the fetched models, with an undefined error.
\<close>

theorem success_exception_dispatches_error:
  assumes suc: "fc_onSuccess cfg = Some ss" and err: "fc_onError cfg = Some se"
    and thr: "dispatch (stage_action ss models JNull (req_combined req)) s = (s1, Some (JsError msg))"
  shows "dispatched (snd (fetchAll_settle cfg req (Fetched models) dispatch s)) =
         [stage_action ss models JNull (req_combined req),
          stage_action se models JUndef (req_combined req)]"
  using suc err thr
  by (simp add: fetchAll_settle_def on_fetch_success_def on_fetch_error_def obj_get_def Let_def
      split: prod.splits option.splits)

text \<open>
  C20: the request parameters _.extend({}, query, pagination) hold every
  key of the query and of the pagination, a pagination key overriding a query key.
\<close>

theorem queryParameters_merge:
  assumes "distinct (map fst (obj_fields q))" "distinct (map fst (obj_fields pagination))"
  shows "map_of (obj_fields (queryParameters q pagination)) =
         map_of (obj_fields q) ++ map_of (obj_fields pagination)"
  using map_of_js_extend2 [OF assms, of "JObj []"] by (simp add: queryParameters_def)

lemma validatePartialPairs_not_collection: "validatePartialPairs o2 coll \<noteq> Inl MustSpecifyCollection"
  by (simp add: validatePartialPairs_def validate_stage_def split: option.splits sum.splits)

text \<open>
  C21: the blueprint refuses its options with "Must specify a collection"
  exactly when neither the caller nor the defaults name a collection, whatever the stages say.
\<close>

theorem find_blueprint_collection_error:
  "find_blueprint d opts = Inl MustSpecifyCollection \<longleftrightarrow>
   fo_collection opts = None \<and> fo_collection d = None"
  by (auto simp: find_blueprint_def defaultsDeep_def default_field_def validatePartialPairs_not_collection
      split: option.splits)

text \<open>
  C22: a stage field the caller gives survives _.defaultsDeep: the validated
  onSuccess stage carries the caller's action type.
\<close>

theorem find_blueprint_caller_wins:
  assumes ok: "find_blueprint d opts = Inr cfg" and so: "fo_onSuccess opts = Some x"
    and t: "so_actionType x = Some t"
  shows "\<exists>st. fc_onSuccess cfg = Some st \<and> actionType st = t"
  using ok so t
  by (auto simp: find_blueprint_def defaultsDeep_def defaults_stage_def default_field_def
      validatePartialPairs_def validate_stage_def Let_def split: option.splits sum.splits if_splits)

lemma dispatch_all_redux:
  "dispatch_all (redux_dispatch r) as s = (fold (\<lambda>a s. r s a) as s, map EvDispatch as, None)"
  by (induction as arbitrary: s) (simp_all add: redux_dispatch_def)

lemma dispatched_map_EvDispatch [simp]: "dispatched (map EvDispatch as) = as"
  by (induction as) simp_all

text \<open>
  C9: with normalize.getActions and normalize.dispatchActions
  configured, a successful fetch dispatches the optimistic action, then the success action,
  then the actions getActions computed from the fetched models, in their order.
\<close>

theorem find_normalize_order:
  assumes opt: "fc_optimistic cfg = Some so" and suc: "fc_onSuccess cfg = Some ss"
    and nrm: "fc_normalize cfg = Some n" and g: "n_getActions n = Some g" and d: "n_dispatchActions n"
  shows "dispatched (snd (fetchAll_run cfg query pagination (Fetched models) (redux_dispatch reducer) s)) =
         [stage_action so [] JNull (combinedQuery (default_query query) pagination),
          stage_action ss models JNull (combinedQuery (default_query query) pagination)] @ g models"
  using assms
  by (simp add: redux_dispatch_def fetchAll_run_def fetchAll_issue_def fetchAll_settle_def on_fetch_success_def
      find_request_of_def dispatch_all_redux Let_def split: prod.splits option.splits)

subsection \<open>Witnesses\<close>

theorem find_success_dispatch_order_witness:
  "fc_optimistic todo_find_config = Some (fetch_todos ''FETCHING'') \<and>
   fc_onSuccess todo_find_config = Some (fetch_todos ''RESOLVED'') \<and> fc_normalize todo_find_config = None \<and>
   dispatched (snd (fetchAll_run todo_find_config JUndef JUndef (Fetched [(Cid 1, JObj [(''id'', JStr ''1'')])])
      (redux_dispatch (\<lambda>s a. s)) ())) =
   [stage_action (fetch_todos ''FETCHING'') [] JNull (combinedQuery (JObj []) JUndef),
    stage_action (fetch_todos ''RESOLVED'') [(Cid 1, JObj [(''id'', JStr ''1'')])] JNull (combinedQuery (JObj []) JUndef)]"
  using find_success_dispatch_order [of todo_find_config "fetch_todos ''FETCHING''" "fetch_todos ''RESOLVED''"
      JUndef JUndef "[(Cid 1, JObj [(''id'', JStr ''1'')])]" "\<lambda>s a. s" "()"]
  by (simp add: todo_find_config_def default_query_def)

theorem find_error_dispatch_order_witness:
  "fc_optimistic todo_find_config = Some (fetch_todos ''FETCHING'') \<and>
   fc_onError todo_find_config = Some (fetch_todos ''ERROR_FETCHING'') \<and>
   snd (fetchAll_run todo_find_config JUndef JUndef (FetchFailed (JObj [(''data'', JStr ''boom'')]))
      (redux_dispatch (\<lambda>s a. s)) ()) =
   [EvDispatch (stage_action (fetch_todos ''FETCHING'') [] JNull (combinedQuery (JObj []) JUndef)),
    EvDispatch (stage_action (fetch_todos ''ERROR_FETCHING'') [] (JStr ''boom'') (combinedQuery (JObj []) JUndef))]"
  using find_error_dispatch_order [of todo_find_config "fetch_todos ''FETCHING''" "fetch_todos ''ERROR_FETCHING''"
      JUndef JUndef "JObj [(''data'', JStr ''boom'')]" "\<lambda>s a. s" "()"]
  by (simp add: todo_find_config_def default_query_def fetch_todos_def obj_get_def)

theorem success_exception_dispatches_error_witness:
  "fc_onSuccess todo_find_config = Some (fetch_todos ''RESOLVED'') \<and>
   fc_onError todo_find_config = Some (fetch_todos ''ERROR_FETCHING'') \<and>
   dispatched (snd (fetchAll_settle todo_find_config (find_request_of todo_find_config JUndef JUndef)
      (Fetched []) (\<lambda>a s. (s, Some (JsError ''reducer failed''))) ())) =
   [stage_action (fetch_todos ''RESOLVED'') [] JNull (combinedQuery (JObj []) JUndef),
    stage_action (fetch_todos ''ERROR_FETCHING'') [] JUndef (combinedQuery (JObj []) JUndef)]"
  using success_exception_dispatches_error [of todo_find_config "fetch_todos ''RESOLVED''"
      "fetch_todos ''ERROR_FETCHING''" "\<lambda>a s. (s, Some (JsError ''reducer failed''))" "[]"
      "find_request_of todo_find_config JUndef JUndef" "()" "()" "''reducer failed''"]
  by (simp add: todo_find_config_def find_request_of_def default_query_def Let_def)

theorem queryParameters_merge_witness:
  "distinct (map fst (obj_fields (JObj [(''completed'', JBool True)]))) \<and>
   distinct (map fst (obj_fields (JObj [(''completed'', JBool False), (''page'', JNum 2)]))) \<and>
   map_of (obj_fields (queryParameters (JObj [(''completed'', JBool True)])
                                      (JObj [(''completed'', JBool False), (''page'', JNum 2)]))) ''completed''
     = Some (JBool False)"
  using queryParameters_merge [of "JObj [(''completed'', JBool True)]" "JObj [(''completed'', JBool False), (''page'', JNum 2)]"]
  by simp

theorem find_blueprint_caller_wins_witness:
  "\<exists>cfg. find_blueprint todo_find_defaults
            (no_opts\<lparr>fo_onSuccess := Some \<lparr>so_actionType = Some ''LOAD_TODOS'', so_payloadState = None,
                                               so_beforeDispatch = False\<rparr>\<rparr>) = Inr cfg
       \<and> (\<exists>st. fc_onSuccess cfg = Some st \<and> actionType st = ''LOAD_TODOS'')"
proof -
  let ?x = "\<lparr>so_actionType = Some ''LOAD_TODOS'', so_payloadState = None, so_beforeDispatch = False\<rparr>"
  let ?o = "no_opts\<lparr>fo_onSuccess := Some ?x\<rparr>"
  obtain cfg where cfg: "find_blueprint todo_find_defaults ?o = Inr cfg"
    by (simp add: find_blueprint_def defaultsDeep_def no_opts_def todo_find_defaults_def default_field_def
        defaults_stage_def defaults_normalize_def validatePartialPairs_def validate_stage_def fetch_stage_def)
  have "\<exists>st. fc_onSuccess cfg = Some st \<and> actionType st = ''LOAD_TODOS''"
    using find_blueprint_caller_wins [OF cfg] by simp
  with cfg show ?thesis by blast
qed

theorem find_normalize_order_witness:
  "fc_optimistic (todo_find_config\<lparr>fc_normalize := Some \<lparr>n_getActions = Some (\<lambda>ms. [stage_action (fetch_todos ''NORMALIZED'') ms JNull JNull]),
      n_dispatchActions = True\<rparr>\<rparr>) = Some (fetch_todos ''FETCHING'') \<and>
   dispatched (snd (fetchAll_run (todo_find_config\<lparr>fc_normalize := Some \<lparr>n_getActions = Some (\<lambda>ms. [stage_action (fetch_todos ''NORMALIZED'') ms JNull JNull]),
      n_dispatchActions = True\<rparr>\<rparr>) JUndef JUndef (Fetched []) (redux_dispatch (\<lambda>s a. s)) ())) =
   [stage_action (fetch_todos ''FETCHING'') [] JNull (combinedQuery (default_query JUndef) JUndef),
    stage_action (fetch_todos ''RESOLVED'') [] JNull (combinedQuery (default_query JUndef) JUndef),
    stage_action (fetch_todos ''NORMALIZED'') [] JNull JNull]"
  using find_normalize_order [of "todo_find_config\<lparr>fc_normalize := Some \<lparr>n_getActions = Some (\<lambda>ms. [stage_action (fetch_todos ''NORMALIZED'') ms JNull JNull]),
      n_dispatchActions = True\<rparr>\<rparr>" "fetch_todos ''FETCHING''" "fetch_todos ''RESOLVED''"
      "\<lparr>n_getActions = Some (\<lambda>ms. [stage_action (fetch_todos ''NORMALIZED'') ms JNull JNull]), n_dispatchActions = True\<rparr>"
      "\<lambda>ms. [stage_action (fetch_todos ''NORMALIZED'') ms JNull JNull]" JUndef JUndef "[]" "\<lambda>s a. s" "()"]
  by (simp add: todo_find_config_def)

end
