(* ===== verification/Json_Parse.thy ===== *)
theory Json_Parse
  imports Json
begin

text \<open>
  A decoder for the text \<open>JSON.stringify\<close> produces (the grammar of JSON, ECMA-404, for
  the values \<open>stringify\<close> emits), used to show what a serialised query key determines.
  The decoder runs on fuel: every nested call consumes one unit, and the length of the
  text is always enough. \<open>norm\<close> is the value a serialisation denotes (\<open>undefined\<close>
  reads back as \<open>null\<close>, undefined object fields vanish). Strings are decoded with
  the escapes of JSON (\<open>parse_chars\<close>), so the round trip holds for every string.
\<close>

definition is_digit :: "char \<Rightarrow> bool" where
  "is_digit c \<longleftrightarrow> CHR ''0'' \<le> c \<and> c \<le> CHR ''9''"

definition digit_val :: "char \<Rightarrow> nat" where
  "digit_val c = of_char c - 48"

definition digits_nat :: "string \<Rightarrow> nat" where
  "digits_nat ds = foldl (\<lambda>a c. 10 * a + digit_val c) 0 ds"

definition parse_num :: "string \<Rightarrow> (nat \<times> string) option" where
  "parse_num s = (let ds = takeWhile is_digit s in
     if ds = [] then None else Some (digits_nat ds, dropWhile is_digit s))"

text \<open>The escapes of a JSON string: the two-character ones and \<open>\uXXXX\<close>.\<close>

definition hex_val :: "char \<Rightarrow> nat option" where
  "hex_val c =
     (if CHR ''0'' \<le> c \<and> c \<le> CHR ''9'' then Some (of_char c - 48)
      else if CHR ''a'' \<le> c \<and> c \<le> CHR ''f'' then Some (of_char c - 87)
      else if CHR ''A'' \<le> c \<and> c \<le> CHR ''F'' then Some (of_char c - 55)
      else None)"

definition hex4 :: "string \<Rightarrow> char option" where
  "hex4 cs =
     (case those (map hex_val cs) of
        Some [a, b, c, d] \<Rightarrow>
          let n = ((a * 16 + b) * 16 + c) * 16 + d in if n < 256 then Some (char_of n) else None
      | _ \<Rightarrow> None)"

definition simple_unescape :: "char \<Rightarrow> char option" where
  "simple_unescape e =
     (if e = CHR 0x22 then Some (CHR 0x22)
      else if e = CHR 0x5C then Some (CHR 0x5C)
      else if e = CHR ''/'' then Some (CHR ''/'')
      else if e = CHR ''b'' then Some (CHR 0x08)
      else if e = CHR ''f'' then Some (CHR 0x0C)
      else if e = CHR ''n'' then Some (CHR 0x0A)
      else if e = CHR ''r'' then Some (CHR 0x0D)
      else if e = CHR ''t'' then Some (CHR 0x09)
      else None)"

text \<open>The characters of a string up to its closing quote; a raw control character is refused.\<close>

fun parse_chars :: "string \<Rightarrow> (string \<times> string) option" where
  "parse_chars [] = None"
| "parse_chars (c # r) =
     (if c = CHR 0x22 then Some ([], r)
      else if c = CHR 0x5C then
        (case r of
           [] \<Rightarrow> None
         | e # r' \<Rightarrow>
             if e = CHR ''u'' then
               (case hex4 (take 4 r') of
                  None \<Rightarrow> None
                | Some ch \<Rightarrow> map_option (\<lambda>(s, t). (ch # s, t)) (parse_chars (drop 4 r')))
             else
               (case simple_unescape e of
                  None \<Rightarrow> None
                | Some ch \<Rightarrow> map_option (\<lambda>(s, t). (ch # s, t)) (parse_chars r')))
      else if of_char c < (32::nat) then None
      else map_option (\<lambda>(s, t). (c # s, t)) (parse_chars r))"

definition parse_str :: "string \<Rightarrow> (string \<times> string) option" where
  "parse_str s = (case s of c # r \<Rightarrow> if c = CHR 0x22 then parse_chars r else None | [] \<Rightarrow> None)"

definition after :: "char \<Rightarrow> string \<Rightarrow> string option" where
  "after c s = (case s of d # r \<Rightarrow> if d = c then Some r else None | [] \<Rightarrow> None)"

fun parse_val :: "nat \<Rightarrow> string \<Rightarrow> (json \<times> string) option"
and parse_elems :: "nat \<Rightarrow> string \<Rightarrow> (json list \<times> string) option"
and parse_members :: "nat \<Rightarrow> string \<Rightarrow> ((string \<times> json) list \<times> string) option" where
  "parse_val 0 s = None"
| "parse_val (Suc n) s =
     (case s of
        [] \<Rightarrow> None
      | c # r \<Rightarrow>
          if c = CHR ''['' then
            (case after CHR '']'' r of
               Some r' \<Rightarrow> Some (JArr [], r')
             | None \<Rightarrow> map_option (\<lambda>(xs, r'). (JArr xs, r')) (parse_elems n r))
          else if c = CHR ''{'' then
            (case after CHR ''}'' r of
               Some r' \<Rightarrow> Some (JObj [], r')
             | None \<Rightarrow> map_option (\<lambda>(kvs, r'). (JObj kvs, r')) (parse_members n r))
          else if c = CHR ''\"'' then map_option (\<lambda>(str, r'). (JStr str, r')) (parse_str s)
          else if c = CHR ''-'' then map_option (\<lambda>(k, r'). (JNum (- int k), r')) (parse_num r)
          else if is_digit c then map_option (\<lambda>(k, r'). (JNum (int k), r')) (parse_num s)
          else if take 4 s = ''null'' then Some (JNull, drop 4 s)
          else if take 4 s = ''true'' then Some (JBool True, drop 4 s)
          else if take 5 s = ''false'' then Some (JBool False, drop 5 s)
          else None)"
| "parse_elems 0 s = None"
| "parse_elems (Suc n) s =
     (case parse_val n s of
        None \<Rightarrow> None
      | Some (v, r) \<Rightarrow>
          (case after CHR '','' r of
             Some r' \<Rightarrow> map_option (\<lambda>(vs, r''). (v # vs, r'')) (parse_elems n r')
           | None \<Rightarrow> map_option (\<lambda>r'. ([v], r')) (after CHR '']'' r)))"
| "parse_members 0 s = None"
| "parse_members (Suc n) s =
     (case parse_str s of
        None \<Rightarrow> None
      | Some (k, r) \<Rightarrow>
          (case after CHR '':'' r of
             None \<Rightarrow> None
           | Some r1 \<Rightarrow>
               (case parse_val n r1 of
                  None \<Rightarrow> None
                | Some (v, r2) \<Rightarrow>
                    (case after CHR '','' r2 of
                       Some r' \<Rightarrow> map_option (\<lambda>(kvs, r''). ((k, v) # kvs, r'')) (parse_members n r')
                     | None \<Rightarrow> map_option (\<lambda>r'. ([(k, v)], r')) (after CHR ''}'' r2)))))"

definition json_parse :: "string \<Rightarrow> json option" where
  "json_parse s = (case parse_val (length s) s of Some (v, []) \<Rightarrow> Some v | _ \<Rightarrow> None)"

fun norm :: "json \<Rightarrow> json" where
  "norm JUndef = JNull"
| "norm (JArr xs) = JArr (map norm xs)"
| "norm (JObj kvs) = JObj (map (\<lambda>(k, v). (k, norm v)) (filter (\<lambda>(k, v). v \<noteq> JUndef) kvs))"
| "norm v = v"

definition digit_free_start :: "string \<Rightarrow> bool" where
  "digit_free_start r = (case r of [] \<Rightarrow> True | c # _ \<Rightarrow> \<not> is_digit c)"

text \<open>One member \<open>"key":value\<close> of a serialised object.\<close>

definition member_str :: "string \<times> json \<Rightarrow> string" where
  "member_str kv = quote (fst kv) @ '':'' @ stringify (snd kv)"

subsection \<open>Lemmas\<close>

lemma digit_char_is_digit: "d < 10 \<Longrightarrow> is_digit (digit_char d)"
  by (auto simp: is_digit_def digit_char_def less_Suc_eq numeral_eq_Suc)

lemma digit_val_char: "d < 10 \<Longrightarrow> digit_val (digit_char d) = d"
  by (auto simp: digit_val_def digit_char_def less_Suc_eq numeral_eq_Suc)

lemma nat_str_props: "nat_str n \<noteq> [] \<and> list_all is_digit (nat_str n) \<and> digits_nat (nat_str n) = n"
proof (induction n rule: nat_str.induct)
  case (1 n)
  show ?case
  proof (cases "n < 10")
    case True
    then show ?thesis
      by (simp add: nat_str.simps digit_char_is_digit digit_val_char digits_nat_def)
  next
    case False
    have e: "nat_str n = nat_str (n div 10) @ [digit_char (n mod 10)]"
      using False by (subst nat_str.simps) simp
    from "1.IH" [OF False] show ?thesis
      by (simp add: e digit_char_is_digit digit_val_char digits_nat_def)
  qed
qed

lemma digit_not_special:
  "is_digit c \<Longrightarrow> c \<noteq> CHR ''['' \<and> c \<noteq> CHR ''{'' \<and> c \<noteq> CHR ''\"'' \<and> c \<noteq> CHR ''-''
     \<and> c \<noteq> CHR '']'' \<and> c \<noteq> CHR ''}'' \<and> c \<noteq> CHR '',''"
  by (auto simp: is_digit_def)

lemma parse_num_nat_str:
  assumes "digit_free_start r"
  shows "parse_num (nat_str k @ r) = Some (k, r)"
proof -
  have d: "list_all is_digit (nat_str k)" "nat_str k \<noteq> []" "digits_nat (nat_str k) = k"
    using nat_str_props [of k] by simp_all
  have r: "takeWhile is_digit r = [] \<and> dropWhile is_digit r = r"
    using assms by (cases r) (simp_all add: digit_free_start_def)
  show ?thesis
    using d r by (simp add: parse_num_def takeWhile_append2 dropWhile_append2 list_all_iff)
qed

lemma nat_str_Cons: "\<exists>c t. nat_str k = c # t \<and> is_digit c"
  using nat_str_props [of k] by (cases "nat_str k") auto

lemma parse_int_str:
  assumes "digit_free_start r"
  shows "parse_val (Suc n) (int_str i @ r) = Some (JNum i, r)"
proof (cases "i < 0")
  case True
  then show ?thesis
    using parse_num_nat_str [OF assms, of "nat (- i)"] by (simp add: int_str_def)
next
  case False
  obtain c t where ct: "nat_str (nat i) = c # t" "is_digit c" using nat_str_Cons by blast
  have "parse_num (c # t @ r) = Some (nat i, r)"
    using parse_num_nat_str [OF assms, of "nat i"] ct by simp
  with False ct show ?thesis
    using digit_not_special [OF ct(2)] by (simp add: int_str_def)
qed

lemma hex_val_digit: "d < 16 \<Longrightarrow> hex_val (hex_digit d) = Some d"
  by (auto simp: hex_val_def hex_digit_def less_Suc_eq numeral_eq_Suc)

lemma hex_val_zero: "hex_val (CHR ''0'') = Some 0"
  by (simp add: hex_val_def)

lemma parse_escape_char:
  "parse_chars (escape_char c @ t) = map_option (\<lambda>(s, r). (c # s, r)) (parse_chars t)"
proof -
  consider "c = CHR 0x22" | "c = CHR 0x5C" | "c = CHR 0x08" | "c = CHR 0x09" | "c = CHR 0x0A"
    | "c = CHR 0x0C" | "c = CHR 0x0D"
    | "c \<notin> {CHR 0x22, CHR 0x5C, CHR 0x08, CHR 0x09, CHR 0x0A, CHR 0x0C, CHR 0x0D}" "of_char c < (32::nat)"
    | "c \<notin> {CHR 0x22, CHR 0x5C, CHR 0x08, CHR 0x09, CHR 0x0A, CHR 0x0C, CHR 0x0D}" "\<not> of_char c < (32::nat)"
    by blast
  then show ?thesis
  proof cases
    case 8
    define n :: nat where "n = of_char c"
    have n16: "n div 16 < 16" "n mod 16 < 16" using 8(2) by (simp_all add: n_def)
    have lt: "n < 256" using 8(2) by (simp add: n_def)
    have "hex4 [CHR ''0'', CHR ''0'', hex_digit (n div 16), hex_digit (n mod 16)] = Some (char_of n)"
      using lt by (simp add: hex4_def hex_val_zero hex_val_digit [OF n16(1)] hex_val_digit [OF n16(2)] div_mult_mod_eq)
    with 8 show ?thesis by (simp add: escape_char_def n_def)
  next
    case 9
    then show ?thesis by (simp add: escape_char_def)
  qed (simp_all add: escape_char_def simple_unescape_def)
qed

lemma parse_chars_escaped: "parse_chars (concat (map escape_char s) @ CHR 0x22 # r) = Some (s, r)"
  by (induction s) (simp_all add: parse_escape_char)

lemma parse_str_quote: "parse_str (quote s @ r) = Some (s, r)"
  by (simp add: parse_str_def quote_def parse_chars_escaped)

lemma join_Cons2: "xs \<noteq> [] \<Longrightarrow> join sep (x # xs) = x @ sep @ join sep xs"
  by (cases xs) simp_all

lemma stringify_Cons: "\<exists>c t. stringify v = c # t \<and> c \<noteq> CHR '']'' \<and> c \<noteq> CHR ''}'' \<and> c \<noteq> CHR '',''"
proof (cases v)
  case (JNum i)
  obtain c t where ct: "nat_str (nat i) = c # t" "is_digit c" using nat_str_Cons by blast
  with JNum show ?thesis using digit_not_special [OF ct(2)] by (simp add: int_str_def)
qed (simp_all add: quote_def)

lemma after_stringify: "c = CHR '']'' \<or> c = CHR ''}'' \<or> c = CHR '','' \<Longrightarrow> after c (stringify v @ r) = None"
  using stringify_Cons [of v] by (auto simp: after_def)

lemma stringify_length: "0 < length (stringify v)"
  using stringify_Cons [of v] by auto

lemma dfs_close [simp]: "digit_free_start (CHR '']'' # r)" "digit_free_start (CHR ''}'' # r)"
  "digit_free_start (CHR '','' # r)"
  by (simp_all add: digit_free_start_def is_digit_def)

lemma parse_elems_join:
  assumes IH: "\<And>x m r. x \<in> set xs \<Longrightarrow> length (stringify x) \<le> m \<Longrightarrow> digit_free_start r
                 \<Longrightarrow> parse_val m (stringify x @ r) = Some (norm x, r)"
    and "xs \<noteq> []" "length (join '','' (map stringify xs)) < n"
  shows "parse_elems n (join '','' (map stringify xs) @ CHR '']'' # r) = Some (map norm xs, r)"
  using assms
proof (induction xs arbitrary: n)
  case Nil
  then show ?case by simp
next
  case (Cons x xs)
  then obtain m where n: "n = Suc m" by (cases n) auto
  show ?case
  proof (cases "xs = []")
    case True
    with Cons.prems n show ?thesis by (simp add: after_def)
  next
    case False
    have len: "length (stringify x) \<le> m" "length (join '','' (map stringify xs)) < m"
      using Cons.prems(3) False n stringify_length [of x] by (simp_all add: join_Cons2)
    have px: "parse_val m (stringify x @ CHR '','' # join '','' (map stringify xs) @ CHR '']'' # r)
              = Some (norm x, CHR '','' # join '','' (map stringify xs) @ CHR '']'' # r)"
      using Cons.prems(1) [of x m] len(1) by simp
    have "parse_elems m (join '','' (map stringify xs) @ CHR '']'' # r) = Some (map norm xs, r)"
      using Cons.IH [of m] Cons.prems False len(2) by simp
    with px n False show ?thesis by (simp add: join_Cons2 after_def)
  qed
qed

lemma length_member_str: "length (member_str (k, x)) = length (quote k) + 1 + length (stringify x)"
  by (simp add: member_str_def)

lemma parse_members_join:
  assumes IH: "\<And>k x m r. (k, x) \<in> set ys \<Longrightarrow> length (stringify x) \<le> m \<Longrightarrow> digit_free_start r
                 \<Longrightarrow> parse_val m (stringify x @ r) = Some (norm x, r)"
    and "ys \<noteq> []"
    and "length (join '','' (map member_str ys)) < n"
  shows "parse_members n (join '','' (map member_str ys) @ CHR ''}'' # r) = Some (map (\<lambda>(k, v). (k, norm v)) ys, r)"
  using assms
proof (induction ys arbitrary: n)
  case Nil
  then show ?case by simp
next
  case (Cons kx ys)
  obtain k x where kx: "kx = (k, x)" by fastforce
  from Cons.prems obtain m where n: "n = Suc m" by (cases n) auto
  have lx: "length (stringify x) \<le> m"
    using Cons.prems(3) n kx by (cases ys) (simp_all add: length_member_str)
  have px: "\<And>t. digit_free_start t \<Longrightarrow> parse_val m (stringify x @ t) = Some (norm x, t)"
    using Cons.prems(1) [of k x m] kx lx by simp
  have pk: "\<And>t. parse_str (member_str (k, x) @ t) = Some (k, CHR '':'' # stringify x @ t)"
    using parse_str_quote [of k] by (simp add: member_str_def)
  show ?case
  proof (cases "ys = []")
    case True
    then show ?thesis using pk [of "CHR ''}'' # r"] px [of "CHR ''}'' # r"]
      by (simp add: kx n after_def)
  next
    case False
    have ly: "length (join '','' (map member_str ys)) < m"
      using Cons.prems(3) False n kx by (simp add: join_Cons2 length_member_str)
    have "parse_members m (join '','' (map member_str ys) @ CHR ''}'' # r) = Some (map (\<lambda>(k, v). (k, norm v)) ys, r)"
    proof (rule Cons.IH)
      show "parse_val m' (stringify x' @ r') = Some (norm x', r')"
        if "(k', x') \<in> set ys" "length (stringify x') \<le> m'" "digit_free_start r'" for k' x' m' r'
        using Cons.prems(1) [of k' x' m' r'] that by simp
    qed (use False ly in simp_all)
    with False show ?thesis
      using pk [of "CHR '','' # join '','' (map member_str ys) @ CHR ''}'' # r"]
        px [of "CHR '','' # join '','' (map member_str ys) @ CHR ''}'' # r"]
      by (simp add: kx n join_Cons2 after_def)
  qed
qed


lemma map_member_str: "map (\<lambda>(k, v). quote k @ CHR '':'' # stringify v) ys = map member_str ys"
  by (simp add: member_str_def split_def)

lemma after_join: "xs \<noteq> [] \<Longrightarrow> c = CHR '']'' \<or> c = CHR ''}'' \<or> c = CHR '','' \<Longrightarrow>
  after c (join '','' (map stringify xs) @ t) = None"
  by (cases xs rule: list.exhaust; cases "tl xs") (auto simp: after_stringify simp del: stringify.simps)

lemma after_join_members: "ys \<noteq> [] \<Longrightarrow> after CHR ''}'' (join '','' (map member_str ys) @ t) = None"
  by (cases ys rule: list.exhaust; cases "tl ys") (auto simp: after_def member_str_def quote_def)

lemma parse_literals:
  "0 < n \<Longrightarrow> parse_val n (CHR ''n'' # CHR ''u'' # CHR ''l'' # CHR ''l'' # r) = Some (JNull, r)"
  "0 < n \<Longrightarrow> parse_val n (CHR ''t'' # CHR ''r'' # CHR ''u'' # CHR ''e'' # r) = Some (JBool True, r)"
  "0 < n \<Longrightarrow> parse_val n (CHR ''f'' # CHR ''a'' # CHR ''l'' # CHR ''s'' # CHR ''e'' # r) = Some (JBool False, r)"
  by (cases n; simp add: is_digit_def)+

lemma parse_val_stringify:
  "length (stringify v) \<le> n \<Longrightarrow> digit_free_start r \<Longrightarrow> parse_val n (stringify v @ r) = Some (norm v, r)"
proof (induction v arbitrary: n r)
  case (JNum i)
  then obtain m where "n = Suc m" using stringify_length [of "JNum i"] by (cases n) auto
  with JNum.prems show ?case using parse_int_str by simp
next
  case (JStr s)
  then obtain m where "n = Suc m" by (cases n) (auto simp: quote_def)
  with JStr.prems show ?case using parse_str_quote [of s r] by (simp add: quote_def)
next
  case (JArr xs)
  then obtain m where n: "n = Suc m" by (cases n) auto
  show ?case
  proof (cases "xs = []")
    case True
    then show ?thesis by (simp add: n after_def)
  next
    case False
    have "parse_elems m (join '','' (map stringify xs) @ CHR '']'' # r) = Some (map norm xs, r)"
      using JArr.IH JArr.prems False n by (intro parse_elems_join) simp_all
    with False show ?thesis by (simp add: n after_join)
  qed
next
  case (JObj kvs)
  define ys where "ys = filter (\<lambda>(k, v). v \<noteq> JUndef) kvs"
  from JObj obtain m where n: "n = Suc m" by (cases n) auto
  have s: "stringify (JObj kvs) = CHR ''{'' # join '','' (map member_str ys) @ ''}''"
    by (simp add: ys_def map_member_str)
  have nv: "norm (JObj kvs) = JObj (map (\<lambda>(k, v). (k, norm v)) ys)"
    by (simp add: ys_def)
  show ?case
  proof (cases "ys = []")
    case True
    show ?thesis unfolding s nv using True by (simp add: n after_def)
  next
    case False
    have "parse_members m (join '','' (map member_str ys) @ CHR ''}'' # r) = Some (map (\<lambda>(k, v). (k, norm v)) ys, r)"
    proof (rule parse_members_join)
      show "parse_val m' (stringify x' @ r') = Some (norm x', r')"
        if "(k', x') \<in> set ys" "length (stringify x') \<le> m'" "digit_free_start r'" for k' x' m' r'
        using JObj.IH [of "(k', x')" x' m' r'] that by (simp add: ys_def)
    qed (use False JObj.prems(1) n s in simp_all)
    with False show ?thesis unfolding s nv by (simp add: n after_join_members)
  qed
qed (auto simp: parse_literals)


lemma json_parse_stringify: "json_parse (stringify v) = Some (norm v)"
  using parse_val_stringify [of v "length (stringify v)" "[]"] by (simp add: json_parse_def digit_free_start_def)

lemma norm_not_undef [simp]: "norm v \<noteq> JUndef"
  by (cases v) simp_all

lemma stringify_norm: "stringify (norm v) = stringify v"
proof (induction v)
  case (JArr xs)
  have h: "map (\<lambda>x. stringify (norm x)) xs = map stringify xs"
    by (rule map_cong) (simp_all add: JArr.IH)
  show ?case by (simp only: norm.simps stringify.simps map_map comp_def h)
next
  case (JObj kvs)
  define ys where "ys = filter (\<lambda>(k, v). v \<noteq> JUndef) kvs"
  have h1: "filter (\<lambda>(k, v). v \<noteq> JUndef) (map (\<lambda>(k, v). (k, norm v)) ys) = map (\<lambda>(k, v). (k, norm v)) ys"
    by (induction ys) auto
  have h2: "map (member_str \<circ> (\<lambda>(k, v). (k, norm v))) ys = map member_str ys"
    by (rule map_cong) (auto simp: member_str_def ys_def JObj.IH)
  have h3: "(\<lambda>(k, v). quote k @ '':'' @ stringify v) = member_str"
    by (auto simp: member_str_def fun_eq_iff)
  show ?case
    by (simp only: norm.simps stringify.simps ys_def [symmetric] h1 h3 map_map h2)
qed simp_all

lemma stringify_eq_iff: "stringify v = stringify w \<longleftrightarrow> norm v = norm w"
  by (metis json_parse_stringify option.inject stringify_norm)

end
