(* ===== verification/Lore_Store.thy ===== *)
theory Lore_Store
  imports Find_Blueprint Json_Parse
begin

text \<open>
  The Redux store of a Lore application with one model, \<open>todo\<close>, as the integration
  test \<open>src/packages/lore/test/integration/redux.spec.js\<close> builds it. The
  \<open>find\<close> blueprint of \<open>find.js\<close> (theory \<open>Find_Blueprint\<close>) dispatches its actions
  into the reducer of the record cache (theory \<open>Record_Store\<close>); the other four verbs
  (\<open>create\<close>, \<open>get\<close>, \<open>update\<close>, \<open>destroy\<close>), whose blueprints are not under
  \<open>src/\<close>, are the optimistic and reconciling cache operations of spec section 4.2.
  Each \<open>describe\<close> block of the test is a scenario: a definition that runs it and one
  that states its \<open>expect\<close> calls. The test repeats every scenario with the server
  id given as a String and as a Number.
\<close>

subsection \<open>From actions to the cache\<close>

text \<open>
  The key of a query in \<open>state.todo.find\<close>: the query serialised with its object keys
  sorted (spec section 4.2, "order-independent serialization"), so that
  \<open>find()\<close> is cached under \<open>{"where":{}}\<close> (test line 92). Keys are sorted as strings;
  a JavaScript object enumerates integer-like keys first, which the model does not follow.
\<close>

definition query_key :: "json \<Rightarrow> string" where
  "query_key q = stringify (canon q)"

text \<open>
  A server id used as a property name of \<open>byId\<close>: JavaScript converts it to a string,
  so \<open>1\<close> and \<open>'1'\<close> name the same entry (test line 434 reads \<open>byId['1']\<close> after a
  Number id). Other values give no id.
\<close>

definition id_key :: "json \<Rightarrow> string option" where
  "id_key v = (case v of JStr s \<Rightarrow> Some s | JNum n \<Rightarrow> Some (int_str n) | _ \<Rightarrow> None)"

definition fields_of :: "json \<Rightarrow> fields" where
  "fields_of v = map_of (obj_fields v)"

definition payload_entry :: "model_payload \<Rightarrow> (cid \<times> string \<times> fields) option" where
  "payload_entry p = map_option (\<lambda>i. (mp_cid p, i, fields_of (mp_data p))) (id_key (mp_id p))"

text \<open>
  The \<open>find\<close> reducer of a model: an action of its type carrying a collection payload
  is routed by the payload state to the pending, success or error operation, keyed by
  the action's query.
\<close>

definition find_reducer :: "string \<Rightarrow> cache \<Rightarrow> action \<Rightarrow> cache" where
  "find_reducer t c a =
     (if a_type a \<noteq> t then c
      else case a_payload a of
        PModel _ \<Rightarrow> c
      | PCollection cp \<Rightarrow>
          (let key = query_key (a_query a)
           in if cp_state cp = ''FETCHING'' then applyFindPending c key
              else if cp_state cp = ''RESOLVED''
                then applyFindSuccess c key (List.map_filter payload_entry (cp_data cp))
              else if cp_state cp = ''ERROR_FETCHING'' then applyFindError c key (cp_error cp)
              else c))"

definition todo_reducer :: "cache \<Rightarrow> action \<Rightarrow> cache" where
  "todo_reducer = find_reducer ''FETCH_TODOS''"

text \<open>Backbone's \<open>model.id\<close> of a fetched model, as a key of \<open>byId\<close>.\<close>

definition model_id :: "bmodel \<Rightarrow> string option" where
  "model_id m = id_key (obj_get (snd m) ''id'')"

text \<open>The entries the reducer upserts for the fetched models: those with an id, in order.\<close>

definition find_entries :: "bmodel list \<Rightarrow> (cid \<times> string \<times> fields) list" where
  "find_entries ms = List.map_filter (\<lambda>m. map_option (\<lambda>i. (fst m, i, fields_of (snd m))) (model_id m)) ms"

text \<open>
  \<open>lore.actions.todo.find(query, pagination)\<close> against the store: the thunk of
  \<open>find.js\<close> dispatching into the \<open>todo\<close> reducer, the cache after its synchronous
  part and the cache after the fetch has settled with the given outcome.
\<close>

definition todo_find_run :: "json \<Rightarrow> json \<Rightarrow> fetch_result \<Rightarrow> cache \<Rightarrow> cache \<times> cache" where
  "todo_find_run q pagination result c =
     (case fetchAll_issue todo_find_config q pagination (redux_dispatch todo_reducer) c of
        (req, c1, _, _) \<Rightarrow>
          (c1, fst (fetchAll_settle todo_find_config req result (redux_dispatch todo_reducer) c1)))"

subsection \<open>The other verbs\<close>

datatype verb_error = PrecariousUpdateError

text \<open>
  The server's answer to a verb's request: the reply body, or a rejection with the
  response, whose \<open>data\<close> becomes the record's error (as in \<open>find.js\<close>).
\<close>

datatype verb_reply = Replied json | Rejected json

text \<open>
  Each verb returns the cache after its optimistic operation and the cache after the
  server's answer has been reconciled: the success operation on a reply, the error
  operation on a rejection (spec 4.2 and 7: a network failure is recorded, never thrown).
  \<open>update\<close> and \<open>destroy\<close> refuse a record that has no server id yet.
\<close>

definition create_action :: "cache \<Rightarrow> cid \<Rightarrow> fields \<Rightarrow> verb_reply \<Rightarrow> cache \<times> cache" where
  "create_action c k d rep =
     (let c1 = applyOptimisticCreate c k d
      in (c1, case rep of
                Replied reply \<Rightarrow>
                  (case id_key (obj_get reply ''id'') of
                     None \<Rightarrow> c1
                   | Some i \<Rightarrow> applyCreateSuccess c1 k i (fields_of reply))
              | Rejected resp \<Rightarrow> applyCreateError c1 k (obj_get resp ''data'')))"

text \<open>
  \<open>get\<close> follows what the integration test observes (lines 128--147): the record is put in
  \<open>byId\<close> and \<open>byCid\<close> at once, marked as being fetched, and \<open>find\<close> is left empty. Spec
  4.2 describes get as reusing the Query Result machinery instead (a recorded divergence).
\<close>

definition get_action :: "cache \<Rightarrow> cid \<Rightarrow> json \<Rightarrow> verb_reply \<Rightarrow> cache \<times> cache" where
  "get_action c k idv rep =
     (case id_key idv of
        None \<Rightarrow> (c, c)
      | Some i \<Rightarrow>
          let c1 = applyGetPending c k i
          in (c1, case rep of
                    Replied reply \<Rightarrow> applyGetSuccess c1 k i (fields_of reply)
                  | Rejected resp \<Rightarrow> applyGetError c1 i (obj_get resp ''data'')))"

definition update_action :: "cache \<Rightarrow> cid \<Rightarrow> fields \<Rightarrow> verb_reply \<Rightarrow> verb_error + cache \<times> cache" where
  "update_action c k p rep =
     (case byCid c k of
        Some r \<Rightarrow>
          if r_id r = None then Inl PrecariousUpdateError
          else let c1 = applyOptimisticUpdate c k p
               in Inr (c1, case rep of
                             Replied reply \<Rightarrow> applyUpdateSuccess c1 k (fields_of reply)
                           | Rejected resp \<Rightarrow> applyUpdateError c1 k (obj_get resp ''data''))
      | None \<Rightarrow> Inl PrecariousUpdateError)"

definition destroy_action :: "cache \<Rightarrow> cid \<Rightarrow> verb_reply \<Rightarrow> verb_error + cache \<times> cache" where
  "destroy_action c k rep =
     (case byCid c k of
        Some r \<Rightarrow>
          if r_id r = None then Inl PrecariousUpdateError
          else let c1 = applyOptimisticDestroy c k
               in Inr (c1, case rep of
                             Replied _ \<Rightarrow> applyDestroySuccess c1 k
                           | Rejected resp \<Rightarrow> applyDestroyError c1 k (obj_get resp ''data''))
      | None \<Rightarrow> Inl PrecariousUpdateError)"

subsection \<open>The scenarios of the integration test\<close>

text \<open>\<open>_.keys(state.todo.find).length\<close>, \<open>byId\<close> and \<open>byCid\<close> likewise.\<close>

definition key_counts :: "cache \<Rightarrow> nat \<times> nat \<times> nat" where
  "key_counts c = (card (dom (find_slice c)), card (dom (byId c)), card (dom (byCid c)))"

definition title_of :: "rec option \<Rightarrow> json option" where
  "title_of r = (case r of None \<Rightarrow> None | Some x \<Rightarrow> r_data x ''title'')"

text \<open>The mocked server's reply \<open>{id: idv, title: t}\<close>.\<close>

definition todo_reply :: "json \<Rightarrow> string \<Rightarrow> json" where
  "todo_reply idv t = JObj [(''id'', idv), (''title'', JStr t)]"

text \<open>\<open>populateStore(store, {todo: [{id: idv, cid: 'c1', title: 'foo'}]})\<close>.\<close>

definition populated :: "json \<Rightarrow> cache" where
  "populated idv = put_rec empty_cache (new_rec (Cid 1) (id_key idv) (fields_of (todo_reply idv ''foo'')) RESOLVED)"

definition create_scenario :: "json \<Rightarrow> cache \<times> cache" where
  "create_scenario idv =
     create_action empty_cache (Cid 1) (fields_of (JObj [(''title'', JStr ''foo'')])) (Replied (todo_reply idv ''foo''))"

definition create_expect :: "cache \<times> cache \<Rightarrow> bool" where
  "create_expect cs =
     (case cs of (c1, c2) \<Rightarrow>
        key_counts c1 = (0, 0, 1) \<and> key_counts c2 = (0, 1, 1) \<and>
        (case byCid c2 (Cid 1) of None \<Rightarrow> False | Some r \<Rightarrow> r_id r \<noteq> None))"

definition find_scenario :: "json \<Rightarrow> cache \<times> cache" where
  "find_scenario idv =
     todo_find_run JUndef JUndef (Fetched [(Cid 1, todo_reply idv ''foo'')]) empty_cache"

definition find_expect :: "cache \<times> cache \<Rightarrow> bool" where
  "find_expect cs =
     (case cs of (c1, c2) \<Rightarrow>
        key_counts c1 = (1, 0, 0) \<and> map_option (length \<circ> q_ids) (find_slice c1 ''{\"where\":{}}'') = Some 0 \<and>
        key_counts c2 = (1, 1, 1) \<and> map_option (length \<circ> q_ids) (find_slice c2 ''{\"where\":{}}'') = Some 1)"

definition get_scenario :: "json \<Rightarrow> cache \<times> cache" where
  "get_scenario idv = get_action empty_cache (Cid 1) idv (Replied (todo_reply idv ''foo''))"

definition get_expect :: "string \<Rightarrow> cache \<times> cache \<Rightarrow> bool" where
  "get_expect i cs =
     (case cs of (c1, c2) \<Rightarrow>
        key_counts c1 = (0, 1, 1) \<and> key_counts c2 = (0, 1, 1) \<and> title_of (byId c2 i) = Some (JStr ''foo''))"

definition update_scenario :: "json \<Rightarrow> verb_error + cache \<times> cache" where
  "update_scenario idv =
     update_action (populated idv) (Cid 1) [''title'' \<mapsto> JStr ''baz''] (Replied (todo_reply idv ''bar''))"

definition update_expect :: "string \<Rightarrow> verb_error + cache \<times> cache \<Rightarrow> bool" where
  "update_expect i res =
     (case res of
        Inl _ \<Rightarrow> False
      | Inr (c1, c2) \<Rightarrow>
          key_counts c1 = (0, 1, 1) \<and> title_of (byId c1 i) = Some (JStr ''baz'') \<and>
          key_counts c2 = (0, 1, 1) \<and> title_of (byId c2 i) = Some (JStr ''bar''))"

definition destroy_scenario :: "json \<Rightarrow> verb_error + cache \<times> cache" where
  "destroy_scenario idv = destroy_action (populated idv) (Cid 1) (Replied JUndef)"

definition destroy_expect :: "verb_error + cache \<times> cache \<Rightarrow> bool" where
  "destroy_expect res =
     (case res of
        Inl _ \<Rightarrow> False
      | Inr (c1, c2) \<Rightarrow> key_counts c1 = (0, 1, 1) \<and> key_counts c2 = (0, 0, 0))"

text \<open>
  The five \<open>describe\<close> blocks, each run once with a String id (lines 27--254) and
  once with a Number id (lines 256--486).
\<close>

datatype scenario = SCreate | SFind | SGet | SUpdate | SDestroy

fun scenario_passes :: "scenario \<Rightarrow> json \<Rightarrow> bool" where
  "scenario_passes SCreate idv = create_expect (create_scenario idv)"
| "scenario_passes SFind idv = find_expect (find_scenario idv)"
| "scenario_passes SGet idv = (case id_key idv of None \<Rightarrow> False | Some i \<Rightarrow> get_expect i (get_scenario idv))"
| "scenario_passes SUpdate idv =
     (case id_key idv of None \<Rightarrow> False | Some i \<Rightarrow> update_expect i (update_scenario idv))"
| "scenario_passes SDestroy idv = destroy_expect (destroy_scenario idv)"

subsection \<open>Lemmas\<close>

lemma payload_entries:
  "List.map_filter payload_entry (map (\<lambda>m. model_payload_of m st) ms) =
   find_entries ms"
  by (induction ms) (auto simp: map_filter_simps payload_entry_def model_payload_of_def model_id_def
      find_entries_def split: option.splits)

text \<open>The \<open>todo\<close> reducer on the three actions of the \<open>todo\<close> find configuration.\<close>

lemma todo_reducer_pending:
  "todo_reducer c (stage_action (fetch_todos ''FETCHING'') ms err cq) = applyFindPending c (query_key cq)"
  by (simp add: todo_reducer_def find_reducer_def fetch_todos_def stage_action_def payloadCollection_def Let_def)

lemma todo_reducer_success:
  "todo_reducer c (stage_action (fetch_todos ''RESOLVED'') ms err cq) =
   applyFindSuccess c (query_key cq) (find_entries ms)"
  by (simp add: todo_reducer_def find_reducer_def fetch_todos_def stage_action_def payloadCollection_def
      payload_entries Let_def)

lemma todo_reducer_error:
  "todo_reducer c (stage_action (fetch_todos ''ERROR_FETCHING'') ms err cq) = applyFindError c (query_key cq) err"
  by (simp add: todo_reducer_def find_reducer_def fetch_todos_def stage_action_def payloadCollection_def Let_def)

lemmas todo_reducer_actions = todo_reducer_pending todo_reducer_success todo_reducer_error

lemma todo_find_issue:
  "fst (snd (fetchAll_issue todo_find_config q p (redux_dispatch todo_reducer) c)) =
   applyFindPending c (query_key (combinedQuery (default_query q) p))"
  by (simp add: fetchAll_issue_def redux_dispatch_def todo_find_config_def todo_reducer_actions
      find_request_of_def Let_def split: prod.splits)

lemma todo_find_settle_success:
  "fst (fetchAll_settle todo_find_config req (Fetched ms) (redux_dispatch todo_reducer) c) =
   applyFindSuccess c (query_key (req_combined req)) (find_entries ms)"
  by (simp add: fetchAll_settle_def on_fetch_success_def redux_dispatch_def todo_find_config_def
      todo_reducer_actions Let_def)

lemma todo_find_settle_error:
  "fst (fetchAll_settle todo_find_config req (FetchFailed resp) (redux_dispatch todo_reducer) c) =
   applyFindError c (query_key (req_combined req)) (obj_get resp ''data'')"
  by (simp add: fetchAll_settle_def on_fetch_error_def redux_dispatch_def todo_find_config_def
      todo_reducer_actions Let_def)

lemma todo_find_run_eq:
  "todo_find_run q p r c =
   (let key = query_key (combinedQuery (default_query q) p); c1 = applyFindPending c key
    in (c1, case r of
              Fetched ms \<Rightarrow> applyFindSuccess c1 key
                 (find_entries ms)
            | FetchFailed resp \<Rightarrow> applyFindError c1 key (obj_get resp ''data'')))"
proof -
  obtain req c1 evs x where iss: "fetchAll_issue todo_find_config q p (redux_dispatch todo_reducer) c = (req, c1, evs, x)"
    by (cases "fetchAll_issue todo_find_config q p (redux_dispatch todo_reducer) c") auto
  have c1: "c1 = applyFindPending c (query_key (combinedQuery (default_query q) p))"
    using todo_find_issue [of q p c] iss by simp
  have req: "req_combined req = combinedQuery (default_query q) p"
    using iss by (auto simp add: fetchAll_issue_def find_request_of_def todo_find_config_def redux_dispatch_def Let_def)
  show ?thesis
    by (cases r) (simp_all add: todo_find_run_def iss c1 req todo_find_settle_success todo_find_settle_error Let_def)
qed

lemma fold_upsert_fresh:
  assumes "distinct (map (fst \<circ> snd) es)" "\<forall>e\<in>set es. byId c (fst (snd e)) = None"
  shows "dom (byId (fold (\<lambda>m c. upsert c m) es c)) = dom (byId c) \<union> set (map (fst \<circ> snd) es) \<and>
         dom (byCid (fold (\<lambda>m c. upsert c m) es c)) = dom (byCid c) \<union> set (map fst es) \<and>
         find_slice (fold (\<lambda>m c. upsert c m) es c) = find_slice c"
  using assms
proof (induction es arbitrary: c)
  case Nil
  then show ?case by simp
next
  case (Cons e es)
  obtain k i d where e: "e = (k, i, d)" by (cases e) auto
  have ci: "byId c i = None" using Cons.prems(2) by (simp add: e)
  have ni: "i \<notin> set (map (fst \<circ> snd) es)" using Cons.prems(1) by (simp add: e)
  define c' where "c' = put_rec c (new_rec k (Some i) d RESOLVED)"
  have u: "upsert c (k, i, d) = c'" using ci by (simp add: c'_def upsert_def)
  have "\<forall>e'\<in>set es. byId c' (fst (snd e')) = None"
  proof
    fix e' assume "e' \<in> set es"
    with ni Cons.prems(2) show "byId c' (fst (snd e')) = None" by (force simp: c'_def new_rec_def)
  qed
  with Cons.prems(1) have ih: "dom (byId (fold (\<lambda>m c. upsert c m) es c')) = dom (byId c') \<union> set (map (fst \<circ> snd) es) \<and>
         dom (byCid (fold (\<lambda>m c. upsert c m) es c')) = dom (byCid c') \<union> set (map fst es) \<and>
         find_slice (fold (\<lambda>m c. upsert c m) es c') = find_slice c'"
    by (intro Cons.IH) simp_all
  show ?case using ih by (simp add: u e c'_def new_rec_def)
qed

lemma find_entries_ids: "map (fst \<circ> snd) (find_entries ms) = List.map_filter model_id ms"
  by (induction ms) (auto simp: find_entries_def map_filter_simps split: option.splits)

lemma find_entries_q_ids: "map (\<lambda>(k, i, d). i) (find_entries ms) = List.map_filter model_id ms"
  by (induction ms) (auto simp: find_entries_def map_filter_simps split: option.splits)

lemma find_entries_cids: "fst ` set (find_entries ms) = fst ` {m \<in> set ms. model_id m \<noteq> None}"
  by (induction ms) (auto simp: find_entries_def map_filter_simps split: option.splits)

text \<open>
  C6: lore.actions.todo.find(query, pagination) against the store: the
  synchronous part of find.js leaves a pending, empty result under the query's key and
  touches no record; once the fetch succeeds, the result lists the server ids of the fetched
  models in server order, and byId and byCid gain exactly those models.
\<close>

theorem find_end_to_end:
  assumes dist: "distinct (List.map_filter model_id ms)"
    and fresh: "\<forall>i\<in>set (List.map_filter model_id ms). byId c i = None"
  shows "find_slice (fst (todo_find_run q p (Fetched ms) c)) =
           (find_slice c)(query_key (combinedQuery (default_query q) p) \<mapsto>
              \<lparr>q_ids = [], q_state = Q_PENDING, q_error = JNull\<rparr>)
       \<and> byId (fst (todo_find_run q p (Fetched ms) c)) = byId c
       \<and> byCid (fst (todo_find_run q p (Fetched ms) c)) = byCid c
       \<and> find_slice (snd (todo_find_run q p (Fetched ms) c)) =
           (find_slice c)(query_key (combinedQuery (default_query q) p) \<mapsto>
              \<lparr>q_ids = List.map_filter model_id ms, q_state = Q_RESOLVED, q_error = JNull\<rparr>)
       \<and> dom (byId (snd (todo_find_run q p (Fetched ms) c))) = dom (byId c) \<union> set (List.map_filter model_id ms)
       \<and> dom (byCid (snd (todo_find_run q p (Fetched ms) c))) =
           dom (byCid c) \<union> fst ` {m \<in> set ms. model_id m \<noteq> None}"
proof -
  define key where "key = query_key (combinedQuery (default_query q) p)"
  define c1 where "c1 = applyFindPending c key"
  have run: "todo_find_run q p (Fetched ms) c = (c1, applyFindSuccess c1 key (find_entries ms))"
    by (simp add: todo_find_run_eq key_def c1_def Let_def)
  have f: "dom (byId (fold (\<lambda>m c. upsert c m) (find_entries ms) c1)) = dom (byId c1) \<union> set (map (fst \<circ> snd) (find_entries ms)) \<and>
         dom (byCid (fold (\<lambda>m c. upsert c m) (find_entries ms) c1)) = dom (byCid c1) \<union> set (map fst (find_entries ms)) \<and>
         find_slice (fold (\<lambda>m c. upsert c m) (find_entries ms) c1) = find_slice c1"
  proof (rule fold_upsert_fresh)
    show "distinct (map (fst \<circ> snd) (find_entries ms))" using dist by (simp only: find_entries_ids)
    have "set (map (fst \<circ> snd) (find_entries ms)) = set (List.map_filter model_id ms)"
      by (simp only: find_entries_ids)
    with fresh show "\<forall>e\<in>set (find_entries ms). byId c1 (fst (snd e)) = None"
      by (auto simp: c1_def applyFindPending_def)
  qed
  show ?thesis
    using f unfolding run key_def [symmetric]
    by (simp add: applyFindSuccess_def c1_def applyFindPending_def find_entries_ids find_entries_q_ids find_entries_cids Let_def)
qed

lemma find_key_default: "query_key (combinedQuery (default_query JUndef) JUndef) = ''{\"where\":{}}''"
  by (simp add: query_key_def combinedQuery_def default_query_def quote_def escape_char_def)

lemma reply_id [simp]: "obj_get (todo_reply idv t) ''id'' = idv"
  by (simp add: todo_reply_def obj_get_def)

lemma reply_title [simp]: "fields_of (todo_reply idv t) ''title'' = Some (JStr t)"
  by (simp add: todo_reply_def fields_of_def)

lemmas scenario_simps = key_counts_def empty_cache_def put_rec_def drop_rec_def replace_rec_def with_rec_def
  new_rec_def title_of_def

text \<open>
  Property: every expectation of the five scenarios of redux.spec.js
  (create, find, get, update, destroy) holds of the model, for any server id given as a
  String or a Number. This validates the verbs modelled outside \<open>src/\<close> against the
  repository's own test; the get verb follows what the test observes (see the header).
\<close>

theorem integration_scenarios_pass:
  assumes "id_key idv \<noteq> None"
  shows "scenario_passes s idv"
proof -
  from assms obtain i where i: "id_key idv = Some i" by blast
  show ?thesis
  proof (cases s)
    case SCreate
    then show ?thesis
      by (simp add: i create_expect_def create_scenario_def create_action_def applyOptimisticCreate_def
          applyCreateSuccess_def scenario_simps)
  next
    case SFind
    show ?thesis
      using SFind
      by (simp add: find_expect_def find_scenario_def todo_find_run_eq find_key_default applyFindPending_def
          applyFindSuccess_def upsert_def find_entries_def model_id_def i map_filter_simps Let_def scenario_simps)
  next
    case SGet
    then show ?thesis
      by (simp add: i get_expect_def get_scenario_def get_action_def applyGetPending_def applyGetSuccess_def
          upsert_def scenario_simps)
  next
    case SUpdate
    then show ?thesis
      by (simp add: i update_expect_def update_scenario_def update_action_def populated_def applyOptimisticUpdate_def
          applyUpdateSuccess_def scenario_simps)
  next
    case SDestroy
    then show ?thesis
      by (simp add: i destroy_expect_def destroy_scenario_def destroy_action_def populated_def
          applyOptimisticDestroy_def applyDestroySuccess_def remove_id_from_queries_def scenario_simps)
  qed
qed

text \<open>
  C8: when the fetch fails, the result under the query's key is in
  error with response.data and lists no ids, whatever it listed before the call: the
  optimistic action of find.js resets it first.
\<close>

theorem find_error_clears_ids:
  "find_slice (snd (todo_find_run q p (FetchFailed resp) c)) (query_key (combinedQuery (default_query q) p)) =
   Some \<lparr>q_ids = [], q_state = Q_ERROR, q_error = obj_get resp ''data''\<rparr>"
  by (simp add: todo_find_run_eq applyFindPending_def applyFindError_def Let_def)

subsection \<open>Witnesses\<close>

theorem find_end_to_end_witness:
  "List.map_filter model_id [(Cid 1, todo_reply (JNum 1) ''foo'')] = [''1''] \<and> byId empty_cache ''1'' = None \<and>
   find_slice (snd (todo_find_run JUndef JUndef (Fetched [(Cid 1, todo_reply (JNum 1) ''foo'')]) empty_cache)) =
     [''{\"where\":{}}'' \<mapsto> \<lparr>q_ids = [''1''], q_state = Q_RESOLVED, q_error = JNull\<rparr>] \<and>
   dom (byId (snd (todo_find_run JUndef JUndef (Fetched [(Cid 1, todo_reply (JNum 1) ''foo'')]) empty_cache))) = {''1''}"
proof -
  have m: "List.map_filter model_id [(Cid 1, todo_reply (JNum 1) ''foo'')] = [''1'']"
    by (simp add: model_id_def id_key_def map_filter_simps int_str_def nat_str.simps digit_char_def)
  show ?thesis
    using find_end_to_end [of "[(Cid 1, todo_reply (JNum 1) ''foo'')]" empty_cache JUndef JUndef]
    unfolding m find_key_default by (simp add: m empty_cache_def)
qed

theorem integration_scenarios_pass_witness:
  "id_key (JNum 1) \<noteq> None \<and> scenario_passes SFind (JNum 1) \<and> scenario_passes SUpdate (JStr ''1'')"
  using integration_scenarios_pass [of "JNum 1" SFind] integration_scenarios_pass [of "JStr ''1''" SUpdate]
  by (simp add: id_key_def)

lemma canon_undef_iff [simp]: "canon v = JUndef \<longleftrightarrow> v = JUndef"
  by (cases v) simp_all

lemma default_query_defined [simp]: "default_query q \<noteq> JUndef"
  by (simp add: default_query_def)

lemma req_combined_find: "req_combined (find_request_of cfg q p) = combinedQuery (default_query q) p"
  by (simp add: find_request_of_def Let_def)

text \<open>
  C16: two find calls share a cache key exactly when their where-clauses (after
  the default {}) agree and their paginations agree, up to key order and undefined fields,
  where an absent pagination differs from every given one: the key keeps both parts of
  the combined query, so finds of different pages or filters never share a cached result.
\<close>

theorem find_key_separates_requests:
  "query_key (req_combined (find_request_of cfg q1 p1)) = query_key (req_combined (find_request_of cfg q2 p2))
   \<longleftrightarrow> norm (canon (default_query q1)) = norm (canon (default_query q2))
       \<and> (p1 = JUndef \<longleftrightarrow> p2 = JUndef) \<and> norm (canon p1) = norm (canon p2)"
  unfolding query_key_def stringify_eq_iff
  by (cases "p1 = JUndef"; cases "p2 = JUndef") (auto simp: req_combined_find combinedQuery_def)

theorem find_key_separates_requests_witness:
  "query_key (req_combined (find_request_of todo_find_config (JObj [(''done'', JBool False)]) JUndef))
   \<noteq> query_key (req_combined (find_request_of todo_find_config (JObj [(''done'', JBool False)])
                  (JObj [(''page'', JNum 2)])))"
  using find_key_separates_requests [of todo_find_config "JObj [(''done'', JBool False)]" JUndef
      "JObj [(''done'', JBool False)]" "JObj [(''page'', JNum 2)]"]
  by simp

end
