(* ===== verification/Connect.thy ===== *)
theory Connect
  imports Json
begin

text \<open>
  The store subscription bridge, \<open>src/packages/lore-hook-connect/src/connect.js\<close>:
  the component that \<open>connect(select, options)\<close> wraps around a view. Its state is
  the React instance (\<open>this.nextState\<close>, \<open>this.state\<close>, \<open>this.props\<close>,
  \<open>this.unsubscribe\<close>, whether it is mounted) together with the parts of its
  environment it acts on: the Redux store's state, whether the store holds its listener,
  and the queue of \<open>setTimeout(\<dots>, 0)\<close> callbacks it has scheduled. A step of
  \<open>bridge_step\<close> is one event of that environment: React mounting the component, a
  store notification, a timer firing, the parent passing new props, React unmounting
  it. \<open>getState\<close> (\<open>lore-hook-connect/src/getState\<close>, outside \<open>src/\<close>) and the
  view's \<open>select\<close> function are parameters.
\<close>

type_synonym 'st getstate = "'st \<Rightarrow> string \<Rightarrow> json \<Rightarrow> json \<Rightarrow> json"

text \<open>\<open>select(getState, props, context)\<close>, with \<open>getState\<close> already bound to a store state.\<close>

type_synonym selector = "(string \<Rightarrow> json \<Rightarrow> json \<Rightarrow> json) \<Rightarrow> json \<Rightarrow> json"

datatype bridge_error = InvariantViolation json

datatype phase = Created | Mounted | Unmounted

record conn =
  c_phase :: phase
  c_unsubscribe :: bool
  c_nextState :: json
  c_state :: json
  c_props :: json
  c_rendered :: "json option"

record 'st world =
  w_store :: 'st
  w_conn :: conn
  w_listening :: bool
  w_timers :: "json list"

datatype 'st bevent = Mount json | StoreChange 'st | TimerFire | NewProps json | Unmount

subsection \<open>The component's methods\<close>

text \<open>
  Lines 57--62: the \<open>getState\<close> used while the component mounts passes
  \<open>force: options.forceFetchOnMount\<close> over the caller's options.
\<close>

definition mount_options :: "json \<Rightarrow> json" where
  "mount_options options =
     (let opts = (if truthy options then options else JObj [])
      in js_extend (JObj []) [opts, JObj [(''force'', obj_get opts ''forceFetchOnMount'')]])"

definition getStateOnMount :: "'st getstate \<Rightarrow> 'st getstate" where
  "getStateOnMount getState state stateKey params options =
     getState state stateKey params (mount_options options)"

text \<open>Lines 116--127: \<open>selectState\<close> and its \<open>invariant\<close> on the slice.\<close>

definition selectState :: "selector \<Rightarrow> 'st getstate \<Rightarrow> 'st \<Rightarrow> json \<Rightarrow> bridge_error + json" where
  "selectState select getState state props =
     (let slice = select (getState state) props
      in if is_plain_object slice then Inr slice else Inl (InvariantViolation slice))"

text \<open>Lines 129--134: the decorated component gets \<open>_.assign({ref}, this.nextState, this.props)\<close>.\<close>

definition render_props :: "conn \<Rightarrow> json" where
  "render_props c =
     js_extend (JObj [(''ref'', JStr ''decoratedComponent'')]) [c_nextState c, c_props c]"

definition render :: "conn \<Rightarrow> conn" where
  "render c = c\<lparr>c_rendered := Some (render_props c)\<rparr>"

text \<open>
  Mounting (React's order): \<open>getInitialState\<close> (lines 55--66), \<open>render\<close>, then
  \<open>componentDidMount\<close> (lines 74--108), which subscribes only with \<open>options.subscribe\<close>.
\<close>

definition mount ::
  "selector \<Rightarrow> 'st getstate \<Rightarrow> bool \<Rightarrow> json \<Rightarrow> 'st world \<Rightarrow> bridge_error + 'st world" where
  "mount select getState subscribe props w =
     (case selectState select (getStateOnMount getState) (w_store w) props of
        Inl e \<Rightarrow> Inl e
      | Inr initialState \<Rightarrow>
          let c = render ((w_conn w)\<lparr>c_phase := Mounted, c_nextState := initialState, c_state := JObj [],
                                      c_props := props\<rparr>)
          in Inr (w\<lparr>w_conn := c\<lparr>c_unsubscribe := subscribe\<rparr>, w_listening := subscribe\<rparr>))"

text \<open>
  Lines 68--72: \<open>shouldComponentUpdate\<close> recomputes \<open>this.nextState\<close> from the store
  as it is now and always answers \<open>true\<close>, so React renders.
\<close>

definition update ::
  "selector \<Rightarrow> 'st getstate \<Rightarrow> 'st \<Rightarrow> json \<Rightarrow> json \<Rightarrow> conn \<Rightarrow> bridge_error + conn" where
  "update select getState state nextProps nextReactState c =
     (case selectState select getState state nextProps of
        Inl e \<Rightarrow> Inl e
      | Inr ns \<Rightarrow> Inr (render (c\<lparr>c_nextState := ns, c_state := nextReactState, c_props := nextProps\<rparr>)))"

text \<open>
  Lines 79--107: the store listener computes the next slice at once and defers the
  \<open>setState\<close> by one tick; the timer callback (lines 100--106) sets the state only if
  the component is still mounted. React's \<open>setState(nextState)\<close> merges the captured
  slice into the previous state, shallowly, before \<open>shouldComponentUpdate\<close> runs.
\<close>

definition listener :: "selector \<Rightarrow> 'st getstate \<Rightarrow> 'st world \<Rightarrow> bridge_error + 'st world" where
  "listener select getState w =
     (case selectState select getState (w_store w) (c_props (w_conn w)) of
        Inl e \<Rightarrow> Inl e
      | Inr ns \<Rightarrow> Inr (w\<lparr>w_timers := w_timers w @ [ns]\<rparr>))"

definition timer_callback :: "selector \<Rightarrow> 'st getstate \<Rightarrow> json \<Rightarrow> 'st world \<Rightarrow> bridge_error + 'st world" where
  "timer_callback select getState captured w =
     (if c_phase (w_conn w) = Mounted
      then (case update select getState (w_store w) (c_props (w_conn w))
                   (js_extend (c_state (w_conn w)) [captured]) (w_conn w) of
              Inl e \<Rightarrow> Inl e
            | Inr c \<Rightarrow> Inr (w\<lparr>w_conn := c\<rparr>))
      else Inr w)"

text \<open>Lines 110--114: \<open>componentWillUnmount\<close>.\<close>

definition unmount :: "'st world \<Rightarrow> 'st world" where
  "unmount w =
     w\<lparr>w_conn := (w_conn w)\<lparr>c_phase := Unmounted\<rparr>,
       w_listening := (if c_unsubscribe (w_conn w) then False else w_listening w)\<rparr>"

subsection \<open>Steps and runs\<close>

fun bridge_step ::
  "selector \<Rightarrow> 'st getstate \<Rightarrow> bool \<Rightarrow> 'st world \<Rightarrow> 'st bevent \<Rightarrow> bridge_error + 'st world" where
  "bridge_step select getState subscribe w (Mount props) =
     (if c_phase (w_conn w) = Created then mount select getState subscribe props w else Inr w)"
| "bridge_step select getState subscribe w (StoreChange st) =
     (let w1 = w\<lparr>w_store := st\<rparr> in if w_listening w1 then listener select getState w1 else Inr w1)"
| "bridge_step select getState subscribe w TimerFire =
     (case w_timers w of
        [] \<Rightarrow> Inr w
      | t # ts \<Rightarrow> timer_callback select getState t (w\<lparr>w_timers := ts\<rparr>))"
| "bridge_step select getState subscribe w (NewProps props) =
     (if c_phase (w_conn w) = Mounted
      then (case update select getState (w_store w) props (c_state (w_conn w)) (w_conn w) of
              Inl e \<Rightarrow> Inl e
            | Inr c \<Rightarrow> Inr (w\<lparr>w_conn := c\<rparr>))
      else Inr w)"
| "bridge_step select getState subscribe w Unmount =
     (if c_phase (w_conn w) = Mounted then Inr (unmount w) else Inr w)"

fun bridge_run ::
  "selector \<Rightarrow> 'st getstate \<Rightarrow> bool \<Rightarrow> 'st world \<Rightarrow> 'st bevent list \<Rightarrow> bridge_error + 'st world" where
  "bridge_run select getState subscribe w [] = Inr w"
| "bridge_run select getState subscribe w (e # es) =
     (case bridge_step select getState subscribe w e of
        Inl err \<Rightarrow> Inl err
      | Inr w1 \<Rightarrow> bridge_run select getState subscribe w1 es)"

definition initial_world :: "'st \<Rightarrow> 'st world" where
  "initial_world st =
     \<lparr>w_store = st,
      w_conn = \<lparr>c_phase = Created, c_unsubscribe = False, c_nextState = JObj [], c_state = JObj [],
                c_props = JObj [], c_rendered = None\<rparr>,
      w_listening = False, w_timers = []\<rparr>"

text \<open>
  Lines 39--47 and 74--77: the hook's \<open>connect(select, options = {})\<close> returns the
  component class; its \<open>componentDidMount\<close> subscribes only when \<open>options.subscribe\<close>
  is truthy. The component it builds is the step function above with that flag. The default
  \<open>{}\<close> replaces an undefined argument only: \<open>connect(select, null)\<close> would throw at
  mount on \<open>options.subscribe\<close>, which the model (reading it as unsubscribed) does not
  represent.
\<close>

definition connect_subscribe :: "json \<Rightarrow> bool" where
  "connect_subscribe options = truthy (obj_get (if options = JUndef then JObj [] else options) ''subscribe'')"

definition connect ::
  "'st getstate \<Rightarrow> selector \<Rightarrow> json \<Rightarrow> 'st world \<Rightarrow> 'st bevent \<Rightarrow> bridge_error + 'st world" where
  "connect getState select options = bridge_step select getState (connect_subscribe options)"

inductive reachable :: "selector \<Rightarrow> 'st getstate \<Rightarrow> bool \<Rightarrow> 'st world \<Rightarrow> bool"
  for select getState subscribe where
  init: "reachable select getState subscribe (initial_world st)"
| step: "reachable select getState subscribe w \<Longrightarrow> bridge_step select getState subscribe w e = Inr w'
         \<Longrightarrow> reachable select getState subscribe w'"

definition bridge_inv :: "bool \<Rightarrow> 'st world \<Rightarrow> bool" where
  "bridge_inv subscribe w \<longleftrightarrow>
     (w_listening w \<longleftrightarrow> subscribe \<and> c_phase (w_conn w) = Mounted) \<and>
     (c_unsubscribe (w_conn w) \<longleftrightarrow> subscribe \<and> c_phase (w_conn w) \<noteq> Created) \<and>
     (c_phase (w_conn w) = Created \<longrightarrow> w_timers w = [] \<and> c_rendered (w_conn w) = None)"

subsection \<open>The lifecycle the specification promises\<close>

text \<open>
  Spec section 4.3: a consumer is \<open>UNMOUNTED\<close> or \<open>MOUNTED(subscribed?)\<close>; while mounted
  and subscribed each store notification leads to at most one recomputation and at most one
  consumer update, decoupled by one scheduling tick; deactivation unsubscribes. The abstract
  view keeps whether the consumer is active, whether it is subscribed, and how many updates
  are pending; \<open>spec_step\<close> is the machine of the specification over the same events.
\<close>

record aview =
  a_active :: bool
  a_subscribed :: bool
  a_pending :: nat

inductive spec_step :: "bool \<Rightarrow> aview \<Rightarrow> 'st bevent \<Rightarrow> aview \<Rightarrow> bool" for subscribe where
  activate: "\<not> a_active a \<Longrightarrow> spec_step subscribe a (Mount p) (a\<lparr>a_active := True, a_subscribed := subscribe\<rparr>)"
| ignore_mount: "spec_step subscribe a (Mount p) a"
| notify: "a_active a \<Longrightarrow> a_subscribed a \<Longrightarrow>
    spec_step subscribe a (StoreChange s) (a\<lparr>a_pending := Suc (a_pending a)\<rparr>)"
| notify_ignored: "\<not> (a_active a \<and> a_subscribed a) \<Longrightarrow> spec_step subscribe a (StoreChange s) a"
| apply_update: "a_pending a = Suc n \<Longrightarrow> spec_step subscribe a TimerFire (a\<lparr>a_pending := n\<rparr>)"
| idle_tick: "a_pending a = 0 \<Longrightarrow> spec_step subscribe a TimerFire a"
| new_props: "spec_step subscribe a (NewProps p) a"
| deactivate: "a_active a \<Longrightarrow> spec_step subscribe a Unmount (a\<lparr>a_active := False, a_subscribed := False\<rparr>)"
| idle_unmount: "\<not> a_active a \<Longrightarrow> spec_step subscribe a Unmount a"

inductive spec_trace :: "bool \<Rightarrow> aview \<Rightarrow> 'st bevent list \<Rightarrow> aview \<Rightarrow> bool" for subscribe where
  nil: "spec_trace subscribe a [] a"
| cons: "spec_step subscribe a e b \<Longrightarrow> spec_trace subscribe b es c \<Longrightarrow> spec_trace subscribe a (e # es) c"

fun is_notification :: "'st bevent \<Rightarrow> bool" where
  "is_notification (StoreChange _) = True"
| "is_notification _ = False"

definition abs_view :: "'st world \<Rightarrow> aview" where
  "abs_view w = \<lparr>a_active = (c_phase (w_conn w) = Mounted), a_subscribed = w_listening w,
                 a_pending = length (w_timers w)\<rparr>"

subsection \<open>The event loop draining the scheduled callbacks\<close>

text \<open>
  The JavaScript event loop runs the \<open>setTimeout(\<dots>, 0)\<close> callbacks in the order they
  were scheduled. A callback schedules nothing, so the loop stops once the queue is empty.
  \<open>getState\<close> is a pure function of the store here: the comment at lines 88--93 says a
  nested connected view may fire actions while rendering, and such re-entrant dispatches
  are not modelled.
\<close>

function drain :: "selector \<Rightarrow> 'st getstate \<Rightarrow> 'st world \<Rightarrow> bridge_error + 'st world" where
  "drain select getState w =
     (case w_timers w of
        [] \<Rightarrow> Inr w
      | t # ts \<Rightarrow>
          (case timer_callback select getState t (w\<lparr>w_timers := ts\<rparr>) of
             Inl e \<Rightarrow> Inl e
           | Inr w' \<Rightarrow> drain select getState w'))"
  by pat_completeness auto
termination
  by (relation "measure (\<lambda>(select, getState, w). length (w_timers w))")
     (auto simp: timer_callback_def update_def split: if_splits sum.splits)

declare drain.simps [simp del]

subsection \<open>An example component\<close>

text \<open>A mounted, subscribed component with one callback scheduled; the store has moved on.\<close>

definition mounted_example :: "json world" where
  "mounted_example =
     \<lparr>w_store = JStr ''new'',
      w_conn = \<lparr>c_phase = Mounted, c_unsubscribe = True, c_nextState = JObj [], c_state = JObj [],
                c_props = JObj [(''filter'', JStr ''all'')], c_rendered = None\<rparr>,
      w_listening = True, w_timers = [JObj [(''todos'', JStr ''old'')]]\<rparr>"

text \<open>The same component mounted without \<open>options.subscribe\<close>.\<close>

definition mounted_unsubscribed :: "json world" where
  "mounted_unsubscribed =
     \<lparr>w_store = JNull,
      w_conn = \<lparr>c_phase = Mounted, c_unsubscribe = False, c_nextState = JObj [], c_state = JObj [],
                c_props = JObj [],
                c_rendered = Some (js_extend (JObj [(''ref'', JStr ''decoratedComponent'')]) [JObj [], JObj []])\<rparr>,
      w_listening = False, w_timers = []\<rparr>"

subsection \<open>Lemmas\<close>

lemma bridge_inv_initial: "bridge_inv subscribe (initial_world st)"
  by (simp add: bridge_inv_def initial_world_def)

lemma conn_mount:
  "mount select getState subscribe props w = Inr w' \<Longrightarrow>
   c_phase (w_conn w') = Mounted \<and> c_unsubscribe (w_conn w') = subscribe \<and> w_listening w' = subscribe
   \<and> w_timers w' = w_timers w \<and> c_rendered (w_conn w') \<noteq> None"
  by (auto simp: mount_def render_def Let_def split: sum.splits)

lemma conn_update:
  "update select getState st p r c = Inr c' \<Longrightarrow> c_phase c' = c_phase c \<and> c_unsubscribe c' = c_unsubscribe c"
  by (auto simp: update_def render_def split: sum.splits)

lemma listener_world:
  "listener select getState w = Inr w' \<Longrightarrow>
   w' = w\<lparr>w_timers := w_timers w @ [select (getState (w_store w)) (c_props (w_conn w))]\<rparr>"
  by (auto simp: listener_def selectState_def Let_def split: if_splits)

lemma timer_callback_world:
  "timer_callback select getState t w = Inr w' \<Longrightarrow>
   w_store w' = w_store w \<and> w_listening w' = w_listening w \<and> w_timers w' = w_timers w
   \<and> c_phase (w_conn w') = c_phase (w_conn w) \<and> c_unsubscribe (w_conn w') = c_unsubscribe (w_conn w)"
  by (auto simp: timer_callback_def dest: conn_update split: if_splits sum.splits)

lemma bridge_step_inv:
  assumes inv: "bridge_inv subscribe w" and st: "bridge_step select getState subscribe w e = Inr w'"
  shows "bridge_inv subscribe w'"
proof (cases e)
  case (Mount props)
  show ?thesis
  proof (cases "c_phase (w_conn w) = Created")
    case True
    with st Mount have "mount select getState subscribe props w = Inr w'" by simp
    from conn_mount [OF this] show ?thesis by (simp add: bridge_inv_def)
  next
    case False
    with st Mount inv show ?thesis by simp
  qed
next
  case (StoreChange s)
  with st inv show ?thesis
    by (auto simp: bridge_inv_def Let_def dest!: listener_world split: if_splits)
next
  case TimerFire
  show ?thesis
  proof (cases "w_timers w")
    case Nil
    with st TimerFire inv show ?thesis by simp
  next
    case (Cons t ts)
    with st TimerFire have "timer_callback select getState t (w\<lparr>w_timers := ts\<rparr>) = Inr w'" by simp
    from timer_callback_world [OF this] inv Cons show ?thesis by (simp add: bridge_inv_def)
  qed
next
  case (NewProps props)
  with st inv show ?thesis
    by (auto simp: bridge_inv_def dest!: conn_update split: if_splits sum.splits)
next
  case Unmount
  with st inv show ?thesis by (auto simp: bridge_inv_def unmount_def split: if_splits)
qed

lemma reachable_inv: "reachable select getState subscribe w \<Longrightarrow> bridge_inv subscribe w"
  by (induction rule: reachable.induct) (auto intro: bridge_inv_initial bridge_step_inv)

lemma bridge_step_simulates:
  assumes inv: "bridge_inv subscribe w" and st: "bridge_step select getState subscribe w e = Inr w'"
  shows "spec_step subscribe (abs_view w) e (abs_view w')"
proof (cases e)
  case (Mount props)
  show ?thesis
  proof (cases "c_phase (w_conn w) = Created")
    case True
    with st Mount have m: "mount select getState subscribe props w = Inr w'" by simp
    from conn_mount [OF m] True have "abs_view w' = (abs_view w)\<lparr>a_active := True, a_subscribed := subscribe\<rparr>"
      by (simp add: abs_view_def)
    moreover from True have "\<not> a_active (abs_view w)" by (simp add: abs_view_def)
    ultimately show ?thesis using Mount by (simp add: activate)
  next
    case False
    with st Mount show ?thesis by (simp add: ignore_mount)
  qed
next
  case (StoreChange s)
  show ?thesis
  proof (cases "w_listening w")
    case True
    with inv have "c_phase (w_conn w) = Mounted" by (simp add: bridge_inv_def)
    moreover from True st StoreChange have "listener select getState (w\<lparr>w_store := s\<rparr>) = Inr w'" by (simp add: Let_def)
    ultimately show ?thesis using True StoreChange notify [of "abs_view w" subscribe s]
      by (auto simp: abs_view_def dest!: listener_world)
  next
    case False
    with st StoreChange have "w' = w\<lparr>w_store := s\<rparr>" by (simp add: Let_def)
    with False StoreChange show ?thesis
      using notify_ignored [of "abs_view w" subscribe s] by (simp add: abs_view_def)
  qed
next
  case TimerFire
  show ?thesis
  proof (cases "w_timers w")
    case Nil
    with st TimerFire show ?thesis using idle_tick [of "abs_view w"] by (simp add: abs_view_def)
  next
    case (Cons t ts)
    with st TimerFire have "timer_callback select getState t (w\<lparr>w_timers := ts\<rparr>) = Inr w'" by simp
    from timer_callback_world [OF this] Cons TimerFire show ?thesis
      using apply_update [of "abs_view w" "length ts" subscribe] by (simp add: abs_view_def)
  qed
next
  case (NewProps props)
  with st have "abs_view w' = abs_view w"
    by (auto simp: abs_view_def dest!: conn_update split: if_splits sum.splits)
  with NewProps show ?thesis using new_props by metis
next
  case Unmount
  show ?thesis
  proof (cases "c_phase (w_conn w) = Mounted")
    case True
    with inv have "c_unsubscribe (w_conn w) = subscribe" "w_listening w = subscribe" by (auto simp: bridge_inv_def)
    with True st Unmount have "abs_view w' = (abs_view w)\<lparr>a_active := False, a_subscribed := False\<rparr>"
      by (auto simp: abs_view_def unmount_def)
    with True Unmount show ?thesis using deactivate [of "abs_view w" subscribe] by (simp add: abs_view_def)
  next
    case False
    with st Unmount show ?thesis using idle_unmount [of "abs_view w" subscribe] by (simp add: abs_view_def)
  qed
qed

lemma bridge_run_refines:
  "bridge_inv subscribe w \<Longrightarrow> bridge_run select getState subscribe w es = Inr w' \<Longrightarrow>
   spec_trace subscribe (abs_view w) es (abs_view w')"
proof (induction es arbitrary: w)
  case Nil
  then show ?case by (simp add: spec_trace.nil)
next
  case (Cons e es)
  from Cons.prems(2) obtain w1 where w1: "bridge_step select getState subscribe w e = Inr w1"
    and r: "bridge_run select getState subscribe w1 es = Inr w'"
    by (auto split: sum.splits)
  from bridge_step_inv [OF Cons.prems(1) w1] r have "spec_trace subscribe (abs_view w1) es (abs_view w')"
    by (rule Cons.IH)
  with bridge_step_simulates [OF Cons.prems(1) w1] show ?case by (rule spec_trace.cons)
qed

lemma spec_trace_pending:
  "spec_trace subscribe a es b \<Longrightarrow> a_pending b \<le> a_pending a + length (filter is_notification es)"
proof (induction rule: spec_trace.induct)
  case (nil a)
  then show ?case by simp
next
  case (cons a e b es c)
  from cons.hyps(1) have "a_pending b \<le> a_pending a + (if is_notification e then 1 else 0)"
    by (cases rule: spec_step.cases) auto
  with cons.IH show ?case by auto
qed

text \<open>
  C15: however React and the store interleave their events,
  a connected component never has more deferred callbacks queued than store notifications it
  has received: each notification schedules at most one update.
\<close>

theorem timers_bounded_by_notifications:
  assumes "bridge_run select getState subscribe (initial_world st) es = Inr w'"
  shows "length (w_timers w') \<le> length (filter is_notification es)"
proof -
  from bridge_run_refines [OF bridge_inv_initial assms]
  have "spec_trace subscribe (abs_view (initial_world st)) es (abs_view w')" .
  from spec_trace_pending [OF this] show ?thesis by (simp add: abs_view_def initial_world_def)
qed

text \<open>
  C5: every run of a connected component, from its creation,
  is a run of the lifecycle machine of spec 4.3 under the abstraction (mounted, listening,
  number of scheduled callbacks): it activates once, with the subscription options.subscribe
  asks for, each notification while subscribed adds exactly one pending update, each callback
  consumes one, and unmounting unsubscribes.
\<close>

theorem connect_refines_lifecycle:
  "bridge_run select getState subscribe (initial_world st) es = Inr w' \<Longrightarrow>
   spec_trace subscribe \<lparr>a_active = False, a_subscribed = False, a_pending = 0\<rparr> es (abs_view w')"
  using bridge_run_refines [OF bridge_inv_initial] by (fastforce simp: abs_view_def initial_world_def)

lemma timer_callback_mounted:
  assumes "c_phase (w_conn w) = Mounted" "is_plain_object (select (getState (w_store w)) (c_props (w_conn w)))"
  shows "timer_callback select getState t w =
         Inr (w\<lparr>w_conn := render ((w_conn w)\<lparr>c_nextState := select (getState (w_store w)) (c_props (w_conn w)),
                                         c_state := js_extend (c_state (w_conn w)) [t]\<rparr>)\<rparr>)"
  using assms by (simp add: timer_callback_def update_def selectState_def)

lemma render_props_rendered [simp]: "render_props (c\<lparr>c_rendered := r\<rparr>) = render_props c"
  by (simp add: render_props_def)

lemma drain_mounted:
  assumes "c_phase (w_conn w) = Mounted" "is_plain_object (select (getState (w_store w)) (c_props (w_conn w)))"
    and "w_timers w \<noteq> []"
  shows "\<exists>w'. drain select getState w = Inr w' \<and> w_timers w' = [] \<and>
           c_nextState (w_conn w') = select (getState (w_store w)) (c_props (w_conn w)) \<and>
           c_rendered (w_conn w') = Some (render_props (w_conn w'))"
  using assms
proof (induction select getState w rule: drain.induct)
  case (1 select getState w)
  from "1.prems"(3) obtain t ts where t: "w_timers w = t # ts" by (cases "w_timers w") auto
  let ?w1 = "w\<lparr>w_timers := ts\<rparr>\<lparr>w_conn := render ((w_conn w)\<lparr>c_nextState := select (getState (w_store w)) (c_props (w_conn w)),
                                         c_state := js_extend (c_state (w_conn w)) [t]\<rparr>)\<rparr>"
  have cb: "timer_callback select getState t (w\<lparr>w_timers := ts\<rparr>) = Inr ?w1"
    using timer_callback_mounted [of "w\<lparr>w_timers := ts\<rparr>"] "1.prems"(1,2) by simp
  show ?case
  proof (cases ts)
    case Nil
    with t cb show ?thesis by (simp add: drain.simps render_def)
  next
    case (Cons t' ts')
    have "\<exists>w'. drain select getState ?w1 = Inr w' \<and> w_timers w' = [] \<and>
           c_nextState (w_conn w') = select (getState (w_store ?w1)) (c_props (w_conn ?w1)) \<and>
           c_rendered (w_conn w') = Some (render_props (w_conn w'))"
      by (rule "1.IH" [OF t cb]) (use "1.prems" Cons in \<open>simp_all add: render_def\<close>)
    with t cb show ?thesis by (simp add: drain.simps [of select getState w] render_def)
  qed
qed

text \<open>
  C7: after a store change, a mounted and subscribed
  component whose select yields an object for the new store ends, once the scheduled callbacks
  have run, with no callback pending and rendering the slice selected from the new store.
\<close>

theorem store_change_eventually_rendered:
  assumes inv: "bridge_inv subscribe w" and m: "c_phase (w_conn w) = Mounted" and sub: subscribe
    and sel: "is_plain_object (select (getState s) (c_props (w_conn w)))"
  shows "\<exists>w1 w'. bridge_step select getState subscribe w (StoreChange s) = Inr w1 \<and>
           drain select getState w1 = Inr w' \<and> w_timers w' = [] \<and>
           c_nextState (w_conn w') = select (getState s) (c_props (w_conn w)) \<and>
           c_rendered (w_conn w') = Some (render_props (w_conn w'))"
proof -
  from inv m sub have l: "w_listening w" by (simp add: bridge_inv_def)
  let ?w1 = "w\<lparr>w_store := s, w_timers := w_timers w @ [select (getState s) (c_props (w_conn w))]\<rparr>"
  have st: "bridge_step select getState subscribe w (StoreChange s) = Inr ?w1"
    using l sel by (simp add: listener_def selectState_def Let_def)
  from drain_mounted [of ?w1 select getState] m sel obtain w' where
    "drain select getState ?w1 = Inr w' \<and> w_timers w' = [] \<and>
     c_nextState (w_conn w') = select (getState s) (c_props (w_conn w)) \<and>
     c_rendered (w_conn w') = Some (render_props (w_conn w'))" by auto
  with st show ?thesis by blast
qed

text \<open>
  C4: in every reachable state of a connected component, the store holds
  its listener exactly while the component is mounted with options.subscribe, this.unsubscribe
  is set exactly when it subscribed, and before mounting nothing is scheduled or rendered.
\<close>

theorem reachable_bridge_inv:
  "reachable select getState subscribe w \<Longrightarrow> bridge_inv subscribe w"
proof (induction rule: reachable.induct)
  case (init st)
  show ?case by (rule bridge_inv_initial)
next
  case (step w e w')
  then show ?case by (blast intro: bridge_step_inv)
qed

text \<open>
  C12: once unmounted, no event changes the component: a store notification
  or a timer scheduled before the unmount neither sets its state nor renders it (the
  isMounted check of the deferred callback).
\<close>

theorem no_update_after_unmount:
  assumes "c_phase (w_conn w) = Unmounted" and "bridge_step select getState subscribe w e = Inr w'"
  shows "w_conn w' = w_conn w"
  using assms
  by (cases e) (auto simp: Let_def timer_callback_def dest!: listener_world split: if_splits list.splits)

text \<open>
  C13: when a deferred callback fires on a mounted component, the slice it
  renders is recomputed from the store as it is at that moment (shouldComponentUpdate), the
  captured slice is only merged into this.state, and the decorated component receives
  _.assign({ref}, slice, props).
\<close>

theorem timer_renders_current_store:
  assumes m: "c_phase (w_conn w) = Mounted" and t: "w_timers w = t # ts"
    and st: "bridge_step select getState subscribe w TimerFire = Inr w'"
  shows "c_nextState (w_conn w') = select (getState (w_store w)) (c_props (w_conn w))
       \<and> c_state (w_conn w') = js_extend (c_state (w_conn w)) [t]
       \<and> c_rendered (w_conn w') = Some (js_extend (JObj [(''ref'', JStr ''decoratedComponent'')])
                                      [select (getState (w_store w)) (c_props (w_conn w)), c_props (w_conn w)])
       \<and> w_timers w' = ts"
  using assms
  by (auto simp: timer_callback_def update_def selectState_def render_def render_props_def Let_def
      split: if_splits)

text \<open>
  C14: a store notification to a subscribed component computes one slice and
  schedules one callback, and does not touch the component in the same tick.
\<close>

theorem store_change_defers_update:
  assumes l: "w_listening w" and st: "bridge_step select getState subscribe w (StoreChange s) = Inr w'"
  shows "w_conn w' = w_conn w \<and> w_store w' = s
       \<and> w_timers w' = w_timers w @ [select (getState s) (c_props (w_conn w))]"
  using assms by (auto simp: Let_def dest!: listener_world)

text \<open>
  C17: a component connected without options.subscribe never reacts to store
  notifications.
\<close>

theorem unsubscribed_ignores_store:
  assumes r: "reachable select getState False w"
    and st: "bridge_step select getState False w (StoreChange s) = Inr w'"
  shows "w' = w\<lparr>w_store := s\<rparr>"
proof -
  from reachable_inv [OF r] have "\<not> w_listening w" by (simp add: bridge_inv_def)
  with st show ?thesis by (simp add: Let_def)
qed

text \<open>
  C19: while mounting, getState is called with force set to
  options.forceFetchOnMount, whatever force the caller passed.
\<close>

theorem mount_discards_force:
  assumes "is_plain_object options"
  shows "obj_get (mount_options options) ''force'' = obj_get options ''forceFetchOnMount''"
proof -
  from assms obtain kvs where o: "options = JObj kvs" by (cases options) auto
  show ?thesis
    by (simp add: o mount_options_def js_extend_def obj_get_def map_of_assign_fields map_add_def
        split: option.splits)
qed

lemma render_props_override:
  assumes "distinct (map fst (obj_fields (c_nextState c)))" "distinct (map fst (obj_fields (c_props c)))"
  shows "map_of (obj_fields (render_props c)) =
         [''ref'' \<mapsto> JStr ''decoratedComponent''] ++ map_of (obj_fields (c_nextState c)) ++ map_of (obj_fields (c_props c))"
  using map_of_js_extend2 [OF assms] by (simp add: render_props_def)

text \<open>
  C18: a select function that returns anything but a plain object makes
  mounting fail with the invariant violation, carrying the returned value.
\<close>

theorem mount_rejects_non_object:
  assumes "c_phase (w_conn w) = Created"
    and "\<not> is_plain_object (select (getStateOnMount getState (w_store w)) props)"
  shows "bridge_step select getState subscribe w (Mount props) =
         Inl (InvariantViolation (select (getStateOnMount getState (w_store w)) props))"
  using assms by (simp add: mount_def selectState_def)

subsection \<open>Witnesses\<close>

text \<open>A component that selects the \<open>todo\<close> slice of a store whose state is a JSON value.\<close>

lemma example_world_timer:
  "bridge_step (\<lambda>g p. JObj [(''todos'', g ''todo'' JUndef JUndef)]) (\<lambda>st k p opts. st) True
     ((initial_world (JStr ''old''))\<lparr>w_conn := (w_conn (initial_world (JStr ''old'')))\<lparr>c_phase := Unmounted\<rparr>,
        w_timers := [JObj []]\<rparr>) TimerFire
   = Inr ((initial_world (JStr ''old''))\<lparr>w_conn := (w_conn (initial_world (JStr ''old'')))\<lparr>c_phase := Unmounted\<rparr>\<rparr>)"
  by (simp add: timer_callback_def initial_world_def)

theorem no_update_after_unmount_witness:
  "c_phase (w_conn ((initial_world (JStr ''old''))\<lparr>w_conn := (w_conn (initial_world (JStr ''old'')))\<lparr>c_phase := Unmounted\<rparr>,
        w_timers := [JObj []]\<rparr>)) = Unmounted"
  using no_update_after_unmount [OF _ example_world_timer] by (simp add: initial_world_def)

theorem reachable_bridge_inv_witness:
  "reachable (\<lambda>g p. JObj []) (\<lambda>st k p opts. st) True (initial_world JNull) \<and>
   bridge_inv True (initial_world JNull)"
  using reachable_bridge_inv [OF reachable.init [of "\<lambda>g p. JObj []" "\<lambda>st k p opts. st" True JNull]]
    reachable.init [of "\<lambda>g p. JObj []" "\<lambda>st k p opts. st" True JNull]
  by blast

lemma mounted_example_step:
  "bridge_step (\<lambda>g p. JObj [(''todos'', g ''todo'' JUndef JUndef)]) (\<lambda>st k p opts. st) True mounted_example TimerFire
   = Inr (mounted_example\<lparr>w_timers := [],
            w_conn := (w_conn mounted_example)\<lparr>c_nextState := JObj [(''todos'', JStr ''new'')],
               c_state := js_extend (JObj []) [JObj [(''todos'', JStr ''old'')]],
               c_rendered := Some (js_extend (JObj [(''ref'', JStr ''decoratedComponent'')])
                  [JObj [(''todos'', JStr ''new'')], JObj [(''filter'', JStr ''all'')]])\<rparr>\<rparr>)"
  by (simp add: mounted_example_def timer_callback_def update_def selectState_def render_def render_props_def)

theorem timer_renders_current_store_witness:
  "c_phase (w_conn mounted_example) = Mounted \<and> w_timers mounted_example = [JObj [(''todos'', JStr ''old'')]] \<and>
   c_nextState (w_conn (mounted_example\<lparr>w_timers := [],
            w_conn := (w_conn mounted_example)\<lparr>c_nextState := JObj [(''todos'', JStr ''new'')],
               c_state := js_extend (JObj []) [JObj [(''todos'', JStr ''old'')]],
               c_rendered := Some (js_extend (JObj [(''ref'', JStr ''decoratedComponent'')])
                  [JObj [(''todos'', JStr ''new'')], JObj [(''filter'', JStr ''all'')]])\<rparr>\<rparr>))
     = JObj [(''todos'', JStr ''new'')]"
  using timer_renders_current_store [OF _ _ mounted_example_step] by (simp add: mounted_example_def)

lemma mounted_example_store_step:
  "bridge_step (\<lambda>g p. JObj [(''todos'', g ''todo'' JUndef JUndef)]) (\<lambda>st k p opts. st) True mounted_example
     (StoreChange (JStr ''newer''))
   = Inr (mounted_example\<lparr>w_store := JStr ''newer'',
            w_timers := [JObj [(''todos'', JStr ''old'')], JObj [(''todos'', JStr ''newer'')]]\<rparr>)"
  by (simp add: mounted_example_def listener_def selectState_def)

theorem store_change_defers_update_witness:
  "w_listening mounted_example \<and>
   w_conn (mounted_example\<lparr>w_store := JStr ''newer'',
            w_timers := [JObj [(''todos'', JStr ''old'')], JObj [(''todos'', JStr ''newer'')]]\<rparr>) = w_conn mounted_example"
  using store_change_defers_update [OF _ mounted_example_store_step] by (simp add: mounted_example_def)

lemma mount_unsubscribed_step:
  "bridge_step (\<lambda>g p. JObj []) (\<lambda>st k p opts. st) False (initial_world JNull) (Mount (JObj []))
   = Inr mounted_unsubscribed"
  by (simp add: initial_world_def mounted_unsubscribed_def mount_def selectState_def render_def render_props_def)

lemma mounted_unsubscribed_reachable:
  "reachable (\<lambda>g p. JObj []) (\<lambda>st k p opts. st) False mounted_unsubscribed"
  by (rule reachable.step [OF reachable.init mount_unsubscribed_step])

lemma unsubscribed_step:
  "bridge_step (\<lambda>g p. JObj []) (\<lambda>st k p opts. st) False mounted_unsubscribed (StoreChange (JStr ''x''))
   = Inr (mounted_unsubscribed\<lparr>w_store := JStr ''x''\<rparr>)"
  by (simp add: mounted_unsubscribed_def)

theorem unsubscribed_ignores_store_witness:
  "reachable (\<lambda>g p. JObj []) (\<lambda>st k p opts. st) False mounted_unsubscribed \<and>
   c_phase (w_conn mounted_unsubscribed) = Mounted \<and>
   w_timers (mounted_unsubscribed\<lparr>w_store := JStr ''x''\<rparr>) = []"
  using unsubscribed_ignores_store [OF mounted_unsubscribed_reachable unsubscribed_step]
    mounted_unsubscribed_reachable
  by (simp add: mounted_unsubscribed_def)

theorem mount_discards_force_witness:
  "is_plain_object (JObj [(''force'', JBool True)]) \<and>
   obj_get (mount_options (JObj [(''force'', JBool True)])) ''force'' = JUndef"
  using mount_discards_force [of "JObj [(''force'', JBool True)]"] by (simp add: obj_get_def)

theorem mount_rejects_non_object_witness:
  "c_phase (w_conn (initial_world JNull)) = Created \<and>
   bridge_step (\<lambda>g p. JNull) (\<lambda>st k p opts. st) True (initial_world JNull) (Mount (JObj []))
     = Inl (InvariantViolation JNull)"
  using mount_rejects_non_object [of "initial_world JNull" "\<lambda>g p. JNull"] by (simp add: initial_world_def)

lemma mount_unsubscribed_run:
  "bridge_run (\<lambda>g p. JObj []) (\<lambda>st k p opts. st) False (initial_world JNull) [Mount (JObj [])]
   = Inr mounted_unsubscribed"
  by (simp only: bridge_run.simps mount_unsubscribed_step sum.case)

theorem connect_refines_lifecycle_witness:
  "bridge_run (\<lambda>g p. JObj []) (\<lambda>st k p opts. st) False (initial_world JNull) [Mount (JObj [])]
     = Inr mounted_unsubscribed \<and>
   spec_trace False \<lparr>a_active = False, a_subscribed = False, a_pending = 0\<rparr> ([Mount (JObj [])] :: json bevent list)
     \<lparr>a_active = True, a_subscribed = False, a_pending = 0\<rparr>"
proof -
  have a: "abs_view mounted_unsubscribed = \<lparr>a_active = True, a_subscribed = False, a_pending = 0\<rparr>"
    by (simp add: abs_view_def mounted_unsubscribed_def)
  have "spec_trace False \<lparr>a_active = False, a_subscribed = False, a_pending = 0\<rparr>
     ([Mount (JObj [])] :: json bevent list) (abs_view mounted_unsubscribed)"
    by (rule connect_refines_lifecycle [OF mount_unsubscribed_run])
  with mount_unsubscribed_run show ?thesis by (simp only: a simp_thms)
qed

lemma mounted_example_inv: "bridge_inv True mounted_example"
  by (simp add: bridge_inv_def mounted_example_def)

theorem store_change_eventually_rendered_witness:
  "bridge_inv True mounted_example \<and> c_phase (w_conn mounted_example) = Mounted \<and>
   (\<exists>w1 w'. bridge_step (\<lambda>g p. JObj [(''todos'', g ''todo'' JUndef JUndef)]) (\<lambda>st k p opts. st) True
        mounted_example (StoreChange (JStr ''newer'')) = Inr w1 \<and>
      drain (\<lambda>g p. JObj [(''todos'', g ''todo'' JUndef JUndef)]) (\<lambda>st k p opts. st) w1 = Inr w' \<and>
      c_nextState (w_conn w') = JObj [(''todos'', JStr ''newer'')])"
  using store_change_eventually_rendered [OF mounted_example_inv,
      of "\<lambda>g p. JObj [(''todos'', g ''todo'' JUndef JUndef)]" "\<lambda>st k p opts. st" "JStr ''newer''"]
    mounted_example_inv
  by (auto simp: mounted_example_def)

theorem timers_bounded_by_notifications_witness:
  "bridge_run (\<lambda>g p. JObj []) (\<lambda>st k p opts. st) False (initial_world JNull) [Mount (JObj [])]
     = Inr mounted_unsubscribed \<and>
   length (w_timers mounted_unsubscribed) \<le> length (filter is_notification ([Mount (JObj [])] :: json bevent list))"
  using timers_bounded_by_notifications [OF mount_unsubscribed_run] mount_unsubscribed_run by simp

end
