(* ===== verification/Auth_Config.thy ===== *)
theory Auth_Config
  imports Json
begin

text \<open>
  The model configuration of the authentication example,
  \<open>src/examples/auth/config/models.js\<close>: the API root every collection is fetched from,
  the \<open>pluralize\<close> switch (left commented out, so Lore's default applies), and the
  \<open>headers\<close> function that Backbone calls for each request, which reads the token of the
  example's \<open>auth\<close> module (\<open>src/examples/auth/src/auth\<close>, outside \<open>src/\<close>) and builds
  the \<open>Authorization\<close> header. JavaScript's \<open>'Bearer ' + token\<close> converts the token to
  a string first; \<open>js_to_string\<close> is that conversion.
\<close>

fun js_to_string :: "json \<Rightarrow> string" where
  "js_to_string JUndef = ''undefined''"
| "js_to_string JNull = ''null''"
| "js_to_string (JBool b) = (if b then ''true'' else ''false'')"
| "js_to_string (JNum n) = int_str n"
| "js_to_string (JStr s) = s"
| "js_to_string (JArr xs) =
     join '','' (map (\<lambda>x. if x = JUndef \<or> x = JNull then [] else js_to_string x) xs)"
| "js_to_string (JObj _) = ''[object Object]''"

text \<open>Lines 45--49: \<open>headers()\<close>, given what \<open>auth.getToken()\<close> returns.\<close>

definition auth_headers :: "json \<Rightarrow> json" where
  "auth_headers token = JObj [(''Authorization'', JStr (''Bearer '' @ js_to_string token))]"

record models_config =
  mc_apiRoot :: string
  mc_pluralize :: "bool option"
  mc_headers :: "json \<Rightarrow> json"

text \<open>Lines 8--60: the exported configuration; \<open>pluralize\<close> (line 30) is not set.\<close>

definition auth_models_config :: models_config where
  "auth_models_config = \<lparr>mc_apiRoot = ''http://localhost:1337'', mc_pluralize = None, mc_headers = auth_headers\<rparr>"

text \<open>
  Lines 20--30, the documented meaning of \<open>pluralize\<close>: a model \<open>foo\<close> is fetched from
  \<open>/foos\<close> when it is true and from \<open>/foo\<close> when it is false. The plural form
  (pluralize.js) and Lore's default for an unset switch are parameters.
\<close>

definition collection_url :: "models_config \<Rightarrow> bool \<Rightarrow> (string \<Rightarrow> string) \<Rightarrow> string \<Rightarrow> string" where
  "collection_url cfg default_pluralize plural name =
     mc_apiRoot cfg @ ''/'' @
       (if (case mc_pluralize cfg of None \<Rightarrow> default_pluralize | Some b \<Rightarrow> b) then plural name else name)"

subsection \<open>Requests over a session\<close>

text \<open>
  The example's session: the token \<open>auth\<close> holds (\<open>null\<close> when logged out) and the
  headers of the requests made so far. \<open>headers\<close> is a function, so each request reads
  the token as it is when the request is made.
\<close>

record auth_session =
  as_token :: json
  as_sent :: "json list"

datatype auth_event = Login string | Logout | Request

text \<open>
  Lines 43--49: Backbone calls \<open>headers()\<close> for every request, so each request carries
  the header built from the token \<open>auth.getToken()\<close> returns at that moment.
\<close>

definition auth_request :: "models_config \<Rightarrow> auth_session \<Rightarrow> auth_session" where
  "auth_request cfg s = s\<lparr>as_sent := as_sent s @ [mc_headers cfg (as_token s)]\<rparr>"

text \<open>
  The session of the example's \<open>auth\<close> module (outside \<open>src/\<close>): a login stores the
  token, a logout clears it (\<open>getToken\<close> then returns \<open>null\<close>).
\<close>

fun auth_step :: "models_config \<Rightarrow> auth_session \<Rightarrow> auth_event \<Rightarrow> auth_session" where
  "auth_step cfg s (Login t) = s\<lparr>as_token := JStr t\<rparr>"
| "auth_step cfg s Logout = s\<lparr>as_token := JNull\<rparr>"
| "auth_step cfg s Request = auth_request cfg s"

definition auth_run :: "models_config \<Rightarrow> auth_session \<Rightarrow> auth_event list \<Rightarrow> auth_session" where
  "auth_run cfg s es = fold (\<lambda>e s. auth_step cfg s e) es s"

text \<open>The tokens in force at each request of a sequence of events, in order.\<close>

fun tokens_at_requests :: "json \<Rightarrow> auth_event list \<Rightarrow> json list" where
  "tokens_at_requests t [] = []"
| "tokens_at_requests t (Login t' # es) = tokens_at_requests (JStr t') es"
| "tokens_at_requests t (Logout # es) = tokens_at_requests JNull es"
| "tokens_at_requests t (Request # es) = t # tokens_at_requests t es"

text \<open>
  How the API server reads the header (the bearer scheme of RFC 6750, outside the
  repository): the text after \<open>Bearer \<close>.
\<close>

definition bearer_token :: "json \<Rightarrow> string option" where
  "bearer_token hdrs =
     (case obj_get hdrs ''Authorization'' of
        JStr v \<Rightarrow> if take 7 v = ''Bearer '' then Some (drop 7 v) else None
      | _ \<Rightarrow> None)"

subsection \<open>Lemmas\<close>

lemma bearer_auth_headers [simp]: "bearer_token (auth_headers v) = Some (js_to_string v)"
  by (simp add: bearer_token_def auth_headers_def obj_get_def)

text \<open>
  Property: the Authorization header the configuration builds for a token
  reads back, under the bearer scheme, as exactly that token.
\<close>

theorem bearer_roundtrip: "bearer_token (mc_headers auth_models_config (JStr t)) = Some t"
  by (simp add: auth_models_config_def)

lemma auth_run_cons [simp]: "auth_run cfg s (e # es) = auth_run cfg (auth_step cfg s e) es"
  by (simp add: auth_run_def)

lemma auth_run_nil [simp]: "auth_run cfg s [] = s"
  by (simp add: auth_run_def)

lemma auth_run_sent:
  "map bearer_token (as_sent (auth_run auth_models_config s es)) =
   map bearer_token (as_sent s) @ map (Some \<circ> js_to_string) (tokens_at_requests (as_token s) es)"
proof (induction es arbitrary: s)
  case Nil
  then show ?case by simp
next
  case (Cons e es)
  then show ?case by (cases e) (simp_all add: auth_models_config_def auth_request_def)
qed

text \<open>
  C30: over any sequence of logins, logouts and requests,
  each request carries the token in force when it is made, in order.
\<close>

theorem requests_carry_current_token:
  "map bearer_token (as_sent (auth_run auth_models_config \<lparr>as_token = t0, as_sent = []\<rparr> es)) =
   map (Some \<circ> js_to_string) (tokens_at_requests t0 es)"
  using auth_run_sent [of "\<lparr>as_token = t0, as_sent = []\<rparr>" es] by simp

lemma auth_url: "collection_url auth_models_config d plural name = ''http://localhost:1337/'' @ (if d then plural name else name)"
  by (simp add: collection_url_def auth_models_config_def)

end
