(* ===== verification/App_Store.thy ===== *)
theory App_Store
  imports Lore_Store Connect Auth_Config
begin

text \<open>
  The store and a connected view together. Redux's \<open>dispatch\<close> (outside \<open>src/\<close>, from
  its documented contract) runs the reducer and then every subscribed listener; the
  listener of \<open>connect.js\<close> (lines 79--107) may throw the \<open>select\<close> invariant
  (lines 120--124), and the exception leaves \<open>dispatch\<close> after the state has changed.
  \<open>connected_dispatch\<close> is that dispatcher for a world of \<open>Connect\<close>; \<open>app_find_run\<close>
  runs \<open>find.js\<close> against it with the todo reducer of \<open>Lore_Store\<close>.
\<close>

text \<open>
  \<open>connect.js\<close> lines 120--124: the message of the \<open>invariant\<close>, whose \<open>%s\<close> is
  replaced by the slice converted to a string.
\<close>

definition invariant_message :: "json \<Rightarrow> string" where
  "invariant_message slice =
     ''The return value of '' @ [CHR 0x60] @ ''select'' @ [CHR 0x60] @ '' prop must be an object. Instead received ''
     @ js_to_string slice @ ''.''"

text \<open>
  Redux \<open>dispatch\<close> with the view's listener subscribed: the reducer's state is
  stored, then the listener runs; an exception it throws is the dispatch's exception.
\<close>

definition connected_dispatch ::
  "('st \<Rightarrow> action \<Rightarrow> 'st) \<Rightarrow> selector \<Rightarrow> 'st getstate \<Rightarrow> bool \<Rightarrow> 'st world dispatcher" where
  "connected_dispatch reducer select getState subscribe a w =
     (let st = reducer (w_store w) a
      in case bridge_step select getState subscribe w (StoreChange st) of
           Inr w' \<Rightarrow> (w', None)
         | Inl (InvariantViolation v) \<Rightarrow> (w\<lparr>w_store := st\<rparr>, Some (JsError (invariant_message v))))"

text \<open>\<open>lore.actions.todo.find(q, pagination)\<close> dispatched through that store.\<close>

definition app_find_run ::
  "selector \<Rightarrow> cache getstate \<Rightarrow> json \<Rightarrow> json \<Rightarrow> fetch_result \<Rightarrow> cache world \<Rightarrow> cache world \<times> find_event list" where
  "app_find_run select getState q pagination result w =
     fetchAll_run todo_find_config q pagination result (connected_dispatch todo_reducer select getState True) w"

subsection \<open>Examples\<close>

text \<open>A mounted, subscribed view over the empty cache.\<close>

definition ex_conn_world :: "cache world" where
  "ex_conn_world =
     \<lparr>w_store = empty_cache,
      w_conn = \<lparr>c_phase = Mounted, c_unsubscribe = True, c_nextState = JObj [], c_state = JObj [],
                c_props = JObj [], c_rendered = None\<rparr>,
      w_listening = True, w_timers = []\<rparr>"

text \<open>
  A \<open>getState\<close> whose slice is an object while a query is pending and the array of ids
  once it has resolved: a view that returns it as its select result passes the invariant
  on the first notification of a find and fails on the second.
\<close>

definition ex_fail_getState :: "cache getstate" where
  "ex_fail_getState c k p opts =
     (case find_slice c k of
        Some r \<Rightarrow> if q_state r = Q_RESOLVED then JArr (map (\<lambda>i. JStr i) (q_ids r)) else JObj []
      | None \<Rightarrow> JObj [])"

subsection \<open>Lemmas\<close>

lemma fetch_todos_no_before [simp]: "beforeDispatch (fetch_todos st) = False"
  by (simp add: fetch_todos_def)

lemma connected_dispatch_listening:
  assumes "w_listening w"
  shows "connected_dispatch r select getState sub a w =
    (if is_plain_object (select (getState (r (w_store w) a)) (c_props (w_conn w)))
     then (w\<lparr>w_store := r (w_store w) a,
             w_timers := w_timers w @ [select (getState (r (w_store w) a)) (c_props (w_conn w))]\<rparr>, None)
     else (w\<lparr>w_store := r (w_store w) a\<rparr>,
           Some (JsError (invariant_message (select (getState (r (w_store w) a)) (c_props (w_conn w)))))))"
  using assms by (simp add: connected_dispatch_def listener_def selectState_def Let_def)

lemma drain_keeps_store:
  "drain select getState w = Inr w' \<Longrightarrow> w_store w' = w_store w \<and> c_props (w_conn w') = c_props (w_conn w)"
proof (induction select getState w rule: drain.induct)
  case (1 select getState w)
  show ?case
  proof (cases "w_timers w")
    case Nil
    with "1.prems" show ?thesis by (simp add: drain.simps)
  next
    case (Cons t ts)
    with "1.prems" obtain w1 where cb: "timer_callback select getState t (w\<lparr>w_timers := ts\<rparr>) = Inr w1"
      and d: "drain select getState w1 = Inr w'"
      by (auto simp: drain.simps split: sum.splits)
    from cb have "w_store w1 = w_store w \<and> c_props (w_conn w1) = c_props (w_conn w)"
      by (auto simp: timer_callback_def update_def render_def split: if_splits sum.splits)
    with "1.IH" [OF Cons cb d] show ?thesis by simp
  qed
qed

text \<open>
  C10: with a subscribed, mounted view whose select always returns an object,
  \<open>lore.actions.todo.find()\<close> dispatched through the store that notifies the view,
  followed by the event loop running the scheduled callbacks, terminates with the cache the
  find alone produces, no callback left, and the view showing its select of that cache.
\<close>

theorem find_view_shows_fetched:
  assumes obj: "\<And>g p. is_plain_object (select g p)" and inv: "bridge_inv True w"
    and m: "c_phase (w_conn w) = Mounted"
  shows "\<exists>w'. drain select getState (fst (app_find_run select getState q p (Fetched ms) w)) = Inr w'
           \<and> w_store w' = snd (todo_find_run q p (Fetched ms) (w_store w)) \<and> w_timers w' = []
           \<and> c_nextState (w_conn w') = select (getState (w_store w')) (c_props (w_conn w))"
proof -
  from inv m have l: "w_listening w" by (simp add: bridge_inv_def)
  define key where "key = query_key (combinedQuery (default_query q) p)"
  define c1 where "c1 = applyFindPending (w_store w) key"
  define c2 where "c2 = applyFindSuccess c1 key (find_entries ms)"
  define w2 where "w2 = w\<lparr>w_store := c2, w_timers := w_timers w @
      [select (getState c1) (c_props (w_conn w)), select (getState c2) (c_props (w_conn w))]\<rparr>"
  have run: "fst (app_find_run select getState q p (Fetched ms) w) = w2"
    using l obj
    by (simp add: app_find_run_def fetchAll_run_def fetchAll_issue_def fetchAll_settle_def on_fetch_success_def
        connected_dispatch_listening todo_find_config_def find_request_of_def todo_reducer_actions
        w2_def c2_def c1_def key_def Let_def)
  have c2: "snd (todo_find_run q p (Fetched ms) (w_store w)) = c2"
    by (simp add: todo_find_run_eq c2_def c1_def key_def Let_def)
  from drain_mounted [of w2 select getState] obj m obtain w' where
    d: "drain select getState w2 = Inr w'" "w_timers w' = []"
       "c_nextState (w_conn w') = select (getState (w_store w2)) (c_props (w_conn w2))"
    by (auto simp: w2_def)
  from drain_keeps_store [OF d(1)] have "w_store w' = c2" "c_props (w_conn w') = c_props (w_conn w)"
    by (simp_all add: w2_def)
  with d c2 run show ?thesis by (auto simp: w2_def)
qed

text \<open>
  C11: when the view's select accepts the pending cache but throws on the
  resolved one, the exception escapes the success dispatch into find's catch handler, and
  the query, whose records did arrive, is left marked as failed with an undefined error.
\<close>

theorem select_failure_marks_find_error:
  assumes inv: "bridge_inv True w" and m: "c_phase (w_conn w) = Mounted"
    and ok: "is_plain_object (select (getState (fst (todo_find_run q p (Fetched ms) (w_store w)))) (c_props (w_conn w)))"
    and bad: "\<not> is_plain_object (select (getState (snd (todo_find_run q p (Fetched ms) (w_store w)))) (c_props (w_conn w)))"
  shows "find_slice (w_store (fst (app_find_run select getState q p (Fetched ms) w))) (query_key (combinedQuery (default_query q) p))
         = Some \<lparr>q_ids = List.map_filter model_id ms, q_state = Q_ERROR, q_error = JUndef\<rparr>"
proof -
  from inv m have l: "w_listening w" by (simp add: bridge_inv_def)
  define key where "key = query_key (combinedQuery (default_query q) p)"
  define c1 where "c1 = applyFindPending (w_store w) key"
  define c2 where "c2 = applyFindSuccess c1 key (find_entries ms)"
  have ok': "is_plain_object (select (getState c1) (c_props (w_conn w)))"
    using ok by (simp add: todo_find_run_eq c1_def key_def Let_def)
  have bad': "\<not> is_plain_object (select (getState c2) (c_props (w_conn w)))"
    using bad by (simp add: todo_find_run_eq c2_def c1_def key_def Let_def)
  have "w_store (fst (app_find_run select getState q p (Fetched ms) w)) = applyFindError c2 key JUndef"
    using l ok' bad'
    by (simp add: app_find_run_def fetchAll_run_def fetchAll_issue_def fetchAll_settle_def on_fetch_success_def
        on_fetch_error_def connected_dispatch_listening todo_find_config_def find_request_of_def todo_reducer_actions
        obj_get_def c2_def c1_def key_def Let_def split: if_split)
  then show ?thesis
    by (simp add: applyFindError_def applyFindSuccess_def c2_def c1_def applyFindPending_def find_entries_q_ids key_def Let_def)
qed

theorem find_view_shows_fetched_witness:
  "bridge_inv True ex_conn_world \<and> c_phase (w_conn ex_conn_world) = Mounted \<and>
   (\<exists>w'. drain (\<lambda>g p. JObj [(''todos'', g ''todo'' JUndef JUndef)]) (\<lambda>c k p opts. JNull)
           (fst (app_find_run (\<lambda>g p. JObj [(''todos'', g ''todo'' JUndef JUndef)]) (\<lambda>c k p opts. JNull)
                  JUndef JUndef (Fetched [(Cid 1, JObj [(''id'', JStr ''1'')])]) ex_conn_world)) = Inr w'
        \<and> w_timers w' = [] \<and> c_nextState (w_conn w') = JObj [(''todos'', JNull)])"
  using find_view_shows_fetched [of "\<lambda>g p. JObj [(''todos'', g ''todo'' JUndef JUndef)]" ex_conn_world
      "\<lambda>c k p opts. JNull" JUndef JUndef "[(Cid 1, JObj [(''id'', JStr ''1'')])]"]
  by (auto simp: ex_conn_world_def bridge_inv_def)

theorem select_failure_marks_find_error_witness:
  "find_slice (w_store (fst (app_find_run (\<lambda>g p. g ''{\"where\":{}}'' JUndef JUndef) ex_fail_getState
      JUndef JUndef (Fetched [(Cid 1, JObj [(''id'', JStr ''1'')])]) ex_conn_world))) ''{\"where\":{}}''
   = Some \<lparr>q_ids = [''1''], q_state = Q_ERROR, q_error = JUndef\<rparr>"
proof -
  have "bridge_inv True ex_conn_world" "c_phase (w_conn ex_conn_world) = Mounted"
    by (simp_all add: ex_conn_world_def bridge_inv_def)
  moreover have "is_plain_object (ex_fail_getState (fst (todo_find_run JUndef JUndef (Fetched [(Cid 1, JObj [(''id'', JStr ''1'')])]) (w_store ex_conn_world))) ''{\"where\":{}}'' JUndef JUndef)"
    by (simp add: todo_find_run_eq find_key_default ex_fail_getState_def applyFindPending_def empty_cache_def ex_conn_world_def Let_def)
  moreover have "\<not> is_plain_object (ex_fail_getState (snd (todo_find_run JUndef JUndef (Fetched [(Cid 1, JObj [(''id'', JStr ''1'')])]) (w_store ex_conn_world))) ''{\"where\":{}}'' JUndef JUndef)"
    by (simp add: todo_find_run_eq find_key_default ex_fail_getState_def applyFindPending_def applyFindSuccess_def empty_cache_def ex_conn_world_def Let_def)
  ultimately show ?thesis
    using select_failure_marks_find_error [where w = ex_conn_world and select = "\<lambda>g p. g ''{\"where\":{}}'' JUndef JUndef"
        and getState = ex_fail_getState and q = JUndef and p = JUndef and ms = "[(Cid 1, JObj [(''id'', JStr ''1'')])]"]
    by (simp add: ex_conn_world_def find_key_default model_id_def map_filter_simps obj_get_def id_key_def)
qed

end
