(* ===== verification/Tutorial_Components.thy ===== *)
theory Tutorial_Components
  imports Connect
begin

text \<open>
  Two views of the tutorial applications, as the Lore generators emit them:
  \<^item> \<open>Guessatron\<close>
    (\<open>src/packages/lore-generate-tutorial/templates/esnext/step13/src/components/Guessatron.js\<close>)
    is wrapped by \<open>lore.connect\<close> with a select function reading one colour by the id in
    the route; the theory composes it with the model of \<open>connect.js\<close>.
  \<^item> \<open>DeleteLink\<close>
    (\<open>src/packages/lore-tutorial/templates/es6/step19/src/components/DeleteLink.js\<close>)
    destroys a tweet only after the user confirms a dialog; its state is the tweet of its
    props, the dialog on screen and the \<open>lore.actions.tweet.destroy\<close> calls it has made.
  A rendered element tree is a \<open>vnode\<close>: an element with its tag, its attributes and its
  children, a text, or an embedded JavaScript expression (\<open>{\<dots>}\<close> in JSX). Event
  handler attributes are not values; the events they handle are the steps of the models.
\<close>

datatype vnode = Elem string "json alist" "vnode list" | VText string | VExpr json

subsection \<open>Guessatron\<close>

text \<open>
  Lines 4--10: the select function. \<open>props.params\<close> is the route's parameter object, which
  the router always supplies (without it, \<open>props.params.id\<close> would throw, which the
  model, reading \<open>undefined\<close>, does not represent); \<open>getState\<close> is called with two
  arguments, so its options are \<open>undefined\<close>.
\<close>

definition guessatron_select :: selector where
  "guessatron_select getState props =
     JObj [(''color'', getState ''color.byId'' (JObj [(''id'', obj_get (obj_get props ''params'') ''colorId'')]) JUndef)]"

text \<open>Lines 13--15: \<open>color: React.PropTypes.object.isRequired\<close>.\<close>

definition guessatron_propTypes_ok :: "json \<Rightarrow> bool" where
  "guessatron_propTypes_ok props = is_plain_object (obj_get props ''color'')"

text \<open>Lines 17--25: \<open>getStyles\<close>; \<open>randomColor()\<close> is the parameter \<open>rc\<close>.\<close>

definition guessatron_styles :: "string \<Rightarrow> json" where
  "guessatron_styles rc =
     JObj [(''media'', JObj [(''height'', JStr ''64px''), (''width'', JStr ''64px''), (''backgroundColor'', JStr rc)])]"

text \<open>Line 41: the heading shows \<open>color.data.name\<close>.\<close>

definition guessatron_heading :: "json \<Rightarrow> json" where
  "guessatron_heading props = obj_get (obj_get (obj_get props ''color'') ''data'') ''name''"

text \<open>Lines 27--48: \<open>render\<close>.\<close>

definition guessatron_render :: "string \<Rightarrow> json \<Rightarrow> vnode" where
  "guessatron_render rc props =
     Elem ''div'' []
       [Elem ''h2'' [] [VText ''Guessatron Result''],
        Elem ''div'' [(''className'', JStr ''media'')]
          [Elem ''div'' [(''className'', JStr ''media-left'')]
             [Elem ''a'' [(''href'', JStr ''#'')]
                [Elem ''div'' [(''className'', JStr ''media-object''), (''style'', obj_get (guessatron_styles rc) ''media'')] []]],
           Elem ''div'' [(''className'', JStr ''media-body'')]
             [Elem ''h4'' [(''className'', JStr ''media-heading'')] [VExpr (guessatron_heading props)],
              Elem ''em'' [] [VText ''Is this your color?''],
              Elem ''div'' [] [VText (''I hope it is because it'' @ [CHR 0x27] @ ''s the only color I know.'')]]]]"

text \<open>
  Lines 4--11: \<open>@lore.connect(select)\<close> with no options: the component React sees is the
  connected wrapper, whose events are those of \<open>connect.js\<close>.
\<close>

definition guessatron_component :: "'st getstate \<Rightarrow> 'st world \<Rightarrow> 'st bevent \<Rightarrow> bridge_error + 'st world" where
  "guessatron_component getState = connect getState guessatron_select JUndef"

subsection \<open>DeleteLink\<close>

record dl_state =
  dl_tweet :: json
  dl_dialog :: "json option"
  dl_destroyed :: "json list"

datatype dl_event = DlClick | DlSubmit | DlDismiss | DlProps json

text \<open>Lines 5--8: the constructor binds \<open>onDestroy\<close> to the instance; nothing is shown yet.\<close>

definition dl_init :: "json \<Rightarrow> dl_state" where
  "dl_init tweet = \<lparr>dl_tweet = tweet, dl_dialog = None, dl_destroyed = []\<rparr>"

text \<open>Lines 46--48: \<open>tweet: React.PropTypes.object.isRequired\<close>.\<close>

definition dl_propTypes_ok :: "json \<Rightarrow> bool" where
  "dl_propTypes_ok tweet = is_plain_object tweet"

text \<open>Lines 10--17: \<open>getStyles\<close>.\<close>

definition dl_styles :: json where
  "dl_styles = JObj [(''link'', JObj [(''cursor'', JStr ''pointer''), (''marginRight'', JStr ''16px'')])]"

text \<open>Lines 34--42: \<open>render\<close>; its \<open>onClick\<close> is the event \<open>DlClick\<close>.\<close>

definition dl_render :: "dl_state \<Rightarrow> vnode" where
  "dl_render s = Elem ''a'' [(''style'', obj_get dl_styles ''link'')] [VText ''delete'']"

text \<open>Lines 22--24: \<open>destroyTweet\<close> calls \<open>lore.actions.tweet.destroy\<close> on the tweet it closes over.\<close>

definition destroyTweet :: "json \<Rightarrow> dl_state \<Rightarrow> dl_state" where
  "destroyTweet tweet s = s\<lparr>dl_destroyed := dl_destroyed s @ [tweet]\<rparr>"

text \<open>
  Lines 19--32: \<open>onDestroy\<close> reads \<open>this.props.tweet\<close> once, into a constant, and shows
  the tweet's destroy dialog with that tweet as its model and \<open>destroyTweet\<close> over the same
  constant as its \<open>onSubmit\<close>. The dialog on screen is recorded by the tweet it closes over.
\<close>

definition onDestroy :: "dl_state \<Rightarrow> dl_state" where
  "onDestroy s = (let tweet = dl_tweet s in s\<lparr>dl_dialog := Some tweet\<rparr>)"

text \<open>
  The events of the component's environment: a click on the link, the user submitting or
  dismissing the dialog (\<open>lore.dialog\<close> closes it either way; a submit calls the dialog's
  \<open>onSubmit\<close>), and the parent passing a new tweet.
\<close>

fun dl_step :: "dl_state \<Rightarrow> dl_event \<Rightarrow> dl_state" where
  "dl_step s DlClick = onDestroy s"
| "dl_step s DlSubmit = (case dl_dialog s of None \<Rightarrow> s | Some t \<Rightarrow> (destroyTweet t s)\<lparr>dl_dialog := None\<rparr>)"
| "dl_step s DlDismiss = s\<lparr>dl_dialog := None\<rparr>"
| "dl_step s (DlProps t) = s\<lparr>dl_tweet := t\<rparr>"

definition dl_run :: "dl_state \<Rightarrow> dl_event list \<Rightarrow> dl_state" where
  "dl_run s es = fold (\<lambda>e s. dl_step s e) es s"

text \<open>The tweets the link shows at each click, in order: what a user can confirm to destroy.\<close>

fun clicked :: "json \<Rightarrow> dl_event list \<Rightarrow> json list" where
  "clicked t [] = []"
| "clicked t (DlClick # es) = t # clicked t es"
| "clicked t (DlProps t' # es) = clicked t' es"
| "clicked t (_ # es) = clicked t es"

subsection \<open>Lemmas\<close>

lemma guessatron_select_object [simp]: "is_plain_object (guessatron_select g p)"
  by (simp add: guessatron_select_def)

lemma guessatron_component_step: "guessatron_component getState = bridge_step guessatron_select getState False"
  by (simp add: guessatron_component_def connect_def connect_subscribe_def obj_get_def)

lemma object_select_step_quiet:
  assumes obj: "\<And>g p. is_plain_object (select g p)"
    and q: "\<not> w_listening w" "w_timers w = []"
  shows "\<exists>w'. bridge_step select getState False w e = Inr w' \<and> \<not> w_listening w' \<and> w_timers w' = []"
proof (cases e)
  case (Mount props)
  then show ?thesis
    using q obj by (auto simp: mount_def selectState_def render_def Let_def)
next
  case (NewProps props)
  then show ?thesis
    using q obj by (auto simp: update_def selectState_def render_def)
qed (use q in \<open>simp_all add: Let_def unmount_def\<close>)

text \<open>
  C29: the connected Guessatron never fails its select invariant
  and never subscribes to the store (it is connected without options), so whatever events
  React and the store produce, it never has a callback scheduled.
\<close>

theorem guessatron_never_fails:
  "\<exists>w'. bridge_run guessatron_select getState (connect_subscribe JUndef) (initial_world st) es = Inr w'
        \<and> \<not> w_listening w' \<and> w_timers w' = []"
proof -
  have "\<not> w_listening w \<Longrightarrow> w_timers w = [] \<Longrightarrow>
        \<exists>w'. bridge_run guessatron_select getState False w es = Inr w' \<and> \<not> w_listening w' \<and> w_timers w' = []"
    for w
  proof (induction es arbitrary: w)
    case Nil
    then show ?case by simp
  next
    case (Cons e es)
    have "\<exists>w1. bridge_step guessatron_select getState False w e = Inr w1 \<and> \<not> w_listening w1 \<and> w_timers w1 = []"
      by (rule object_select_step_quiet) (simp_all add: Cons.prems)
    then obtain w1
      where "bridge_step guessatron_select getState False w e = Inr w1" "\<not> w_listening w1" "w_timers w1 = []"
      by blast
    with Cons.IH [of w1] show ?case by simp
  qed
  moreover have "connect_subscribe JUndef = False" by (simp add: connect_subscribe_def obj_get_def)
  ultimately show ?thesis by (simp add: initial_world_def)
qed

text \<open>
  C28: when React mounts the connected Guessatron with route props
  that have no color of their own, it renders the name in the data of the record that getState
  returned for 'color.byId' and the route's colorId, fetched with force
  options.forceFetchOnMount of undefined options.
\<close>

theorem guessatron_mount_heading:
  assumes p: "props = JObj kvs" and nc: "''color'' \<notin> fst ` set kvs"
  shows "\<exists>w' rp. guessatron_component getState (initial_world st) (Mount props) = Inr w'
           \<and> c_rendered (w_conn w') = Some rp
           \<and> guessatron_heading rp =
               obj_get (obj_get (getState st ''color.byId''
                   (JObj [(''id'', obj_get (obj_get props ''params'') ''colorId'')]) (mount_options JUndef)) ''data'') ''name''"
proof -
  define C where "C = getState st ''color.byId'' (JObj [(''id'', obj_get (obj_get props ''params'') ''colorId'')]) (mount_options JUndef)"
  have none: "map_of (rev kvs) ''color'' = None" using nc by (simp add: map_of_eq_None_iff)
  have col: "obj_get (js_extend (JObj [(''ref'', JStr ''decoratedComponent'')]) [JObj [(''color'', C)], props]) ''color'' = C"
    using none by (simp add: p js_extend_def obj_get_def map_of_assign_fields map_add_def)
  show ?thesis
    using col by (simp add: guessatron_component_step mount_def selectState_def guessatron_select_def getStateOnMount_def
        render_def render_props_def initial_world_def guessatron_heading_def C_def)
qed

lemma dl_run_cons [simp]: "dl_run s (e # es) = dl_run (dl_step s e) es"
  by (simp add: dl_run_def)

lemma dl_run_nil [simp]: "dl_run s [] = s"
  by (simp add: dl_run_def)

lemma dl_run_append [simp]: "dl_run s (xs @ ys) = dl_run (dl_run s xs) ys"
  by (simp add: dl_run_def)

lemma dl_run_destroys:
  "set (dl_destroyed (dl_run s es)) \<subseteq> set (dl_destroyed s) \<union> set_option (dl_dialog s) \<union> set (clicked (dl_tweet s) es)
   \<and> length (dl_destroyed (dl_run s es)) \<le> length (dl_destroyed s) + length (filter (\<lambda>e. e = DlSubmit) es)"
proof (induction es arbitrary: s)
  case Nil
  then show ?case by simp
next
  case (Cons e es)
  show ?case
  proof (cases e)
    case DlClick
    with Cons.IH [of "dl_step s e"] show ?thesis by (auto simp: onDestroy_def Let_def)
  next
    case DlSubmit
    with Cons.IH [of "dl_step s e"] show ?thesis
      by (cases "dl_dialog s") (auto simp: destroyTweet_def)
  next
    case DlDismiss
    with Cons.IH [of "dl_step s e"] show ?thesis by auto
  next
    case (DlProps t)
    with Cons.IH [of "dl_step s e"] show ?thesis by auto
  qed
qed

text \<open>
  C24: DeleteLink destroys only tweets it showed when clicked,
  and at most one per submitted dialog: without a confirmation nothing is destroyed.
\<close>

theorem delete_requires_confirmation:
  "set (dl_destroyed (dl_run (dl_init t) es)) \<subseteq> set (clicked t es)
   \<and> length (dl_destroyed (dl_run (dl_init t) es)) \<le> length (filter (\<lambda>e. e = DlSubmit) es)"
  using dl_run_destroys [of "dl_init t" es] by (simp add: dl_init_def)

lemma dl_run_props: "dl_run s (map DlProps ts) = (if ts = [] then s else s\<lparr>dl_tweet := last ts\<rparr>)"
  by (induction ts arbitrary: s) auto

text \<open>
  C23: submitting the dialog destroys the tweet the link
  showed when it was clicked, even if the parent passed other tweets in between.
\<close>

theorem delete_destroys_clicked_tweet:
  "dl_destroyed (dl_run s (DlClick # map DlProps ts @ [DlSubmit])) = dl_destroyed s @ [dl_tweet s]"
  by (simp add: dl_run_props onDestroy_def destroyTweet_def Let_def)


subsection \<open>Witnesses\<close>

theorem guessatron_mount_heading_witness:
  "''color'' \<notin> fst ` set [(''params'', JObj [(''colorId'', JStr ''7'')])] \<and>
   (\<exists>w' rp. guessatron_component (\<lambda>st k p opts. JObj [(''data'', JObj [(''name'', JStr ''red'')])]) (initial_world JNull)
        (Mount (JObj [(''params'', JObj [(''colorId'', JStr ''7'')])])) = Inr w'
      \<and> c_rendered (w_conn w') = Some rp \<and> guessatron_heading rp = JStr ''red'')"
  using guessatron_mount_heading [of "JObj [(''params'', JObj [(''colorId'', JStr ''7'')])]"
      "[(''params'', JObj [(''colorId'', JStr ''7'')])]" "\<lambda>st k p opts. JObj [(''data'', JObj [(''name'', JStr ''red'')])]" JNull]
  by (simp add: obj_get_def)

end
