(* ===== verification/Delete_Flow.thy ===== *)
theory Delete_Flow
  imports Tutorial_Components Lore_Store
begin

text \<open>
  DeleteLink against the store: the \<open>lore.actions.tweet.destroy(tweet)\<close> calls its dialog
  makes (\<open>DeleteLink.js\<close> lines 22--24) run the destroy verb of \<open>Lore_Store\<close> on the
  record the tweet stands for, in the order the dialogs were submitted, each confirmed by
  the server before the next; \<open>server\<close> is the answer the API gives to the delete
  request for a tweet. The tweet prop is a Lore record payload; its \<open>cid\<close> is the
  Backbone client id, the letter \<open>c\<close> followed by a counter.
\<close>

definition tweet_cid :: "json \<Rightarrow> cid option" where
  "tweet_cid t =
     (case obj_get t ''cid'' of
        JStr (c # ds) \<Rightarrow>
          if c = CHR ''c'' \<and> ds \<noteq> [] \<and> list_all is_digit ds then Some (Cid (digits_nat ds)) else None
      | _ \<Rightarrow> None)"

fun destroy_all :: "(json \<Rightarrow> verb_reply) \<Rightarrow> cache \<Rightarrow> json list \<Rightarrow> verb_error + cache" where
  "destroy_all server c [] = Inr c"
| "destroy_all server c (t # ts) =
     (case tweet_cid t of
        None \<Rightarrow> Inl PrecariousUpdateError
      | Some k \<Rightarrow> (case destroy_action c k (server t) of
                    Inl e \<Rightarrow> Inl e
                  | Inr (c1, c2) \<Rightarrow> destroy_all server c2 ts))"

definition delete_flow ::
  "(json \<Rightarrow> verb_reply) \<Rightarrow> json \<Rightarrow> dl_event list \<Rightarrow> cache \<Rightarrow> verb_error + cache" where
  "delete_flow server t es c = destroy_all server c (dl_destroyed (dl_run (dl_init t) es))"

subsection \<open>Lemmas\<close>

lemma destroy_action_confirmed:
  assumes "byCid c k = Some r" "r_id r = Some i"
  shows "destroy_action c k (Replied v) = Inr (applyOptimisticDestroy c k, applyDestroySuccess (applyOptimisticDestroy c k) k)"
  using assms by (simp add: destroy_action_def Let_def)

text \<open>
  C25: clicking the link of a confirmed tweet and submitting the dialog
  removes its record from the store once the server confirms: it is no longer under its
  client id, under its server id, or in any query result.
\<close>

theorem delete_flow_removes_tweet:
  assumes inv: "cache_inv c" and r: "byCid c k = Some r" and i: "r_id r = Some i"
    and t: "tweet_cid t = Some k" and ok: "server t = Replied v"
  shows "\<exists>c'. delete_flow server t [DlClick, DlSubmit] c = Inr c' \<and> byCid c' k = None \<and> byId c' i = None
           \<and> (\<forall>key q. find_slice c' key = Some q \<longrightarrow> i \<notin> set (q_ids q))"
proof -
  have "dl_destroyed (dl_run (dl_init t) [DlClick, DlSubmit]) = [t]"
    by (simp add: dl_init_def onDestroy_def destroyTweet_def Let_def)
  then have "delete_flow server t [DlClick, DlSubmit] c = Inr (applyDestroySuccess (applyOptimisticDestroy c k) k)"
    using t ok destroy_action_confirmed [OF r i] by (simp add: delete_flow_def)
  with destroy_removes_everywhere [OF inv r] i show ?thesis by simp
qed

lemma destroy_action_rejected:
  assumes "byCid c k = Some r" "r_id r = Some i"
  shows "destroy_action c k (Rejected resp) =
    Inr (applyOptimisticDestroy c k, applyDestroyError (applyOptimisticDestroy c k) k (obj_get resp ''data''))"
  using assms by (simp add: destroy_action_def Let_def)

text \<open>
  C27: when the server rejects the delete of a confirmed tweet, its record is
  back in the store as it was, resolved, with the response's data as its error, still
  under its server id, and no query result has changed (spec 4.2: destroy reverts on failure).
\<close>

theorem delete_flow_rejected_keeps_tweet:
  assumes inv: "cache_inv c" and r: "byCid c k = Some r" and i: "r_id r = Some i"
    and t: "tweet_cid t = Some k" and rej: "server t = Rejected resp"
  shows "\<exists>c'. delete_flow server t [DlClick, DlSubmit] c = Inr c'
           \<and> byCid c' k = Some (r\<lparr>r_state := RESOLVED, r_error := obj_get resp ''data''\<rparr>)
           \<and> byId c' i = byCid c' k \<and> find_slice c' = find_slice c"
proof -
  define c1 where "c1 = applyOptimisticDestroy c k"
  define c2 where "c2 = applyDestroyError c1 k (obj_get resp ''data'')"
  have inv1: "cache_inv c1"
    unfolding c1_def applyOptimisticDestroy_def using inv by (rule cache_inv_with_rec) simp_all
  have b1: "byCid c1 k = Some (r\<lparr>r_state := PENDING_DESTROY\<rparr>)"
    unfolding c1_def applyOptimisticDestroy_def using r by (simp add: byCid_with_rec [OF inv])
  have inv2: "cache_inv c2"
    unfolding c2_def applyDestroyError_def using inv1 by (rule cache_inv_with_rec) simp_all
  have b2: "byCid c2 k = Some (r\<lparr>r_state := RESOLVED, r_error := obj_get resp ''data''\<rparr>)"
    unfolding c2_def applyDestroyError_def using b1 by (simp add: byCid_with_rec [OF inv1])
  have id2: "byId c2 i = byCid c2 k"
    using index_invD(4) [OF _ b2] inv2 i b2 by (simp add: cache_inv_def)
  have fs: "find_slice c2 = find_slice c"
    by (simp add: c2_def c1_def applyDestroyError_def applyOptimisticDestroy_def find_slice_with_rec)
  have "dl_destroyed (dl_run (dl_init t) [DlClick, DlSubmit]) = [t]"
    by (simp add: dl_init_def onDestroy_def destroyTweet_def Let_def)
  then have "delete_flow server t [DlClick, DlSubmit] c = Inr c2"
    using t rej destroy_action_rejected [OF r i] by (simp add: delete_flow_def c2_def c1_def)
  with b2 id2 fs show ?thesis by blast
qed

lemma dl_run_no_submit: "DlSubmit \<notin> set es \<Longrightarrow> dl_destroyed (dl_run s es) = dl_destroyed s"
proof (induction es arbitrary: s)
  case (Cons e es)
  then show ?case by (cases e) (simp_all add: onDestroy_def Let_def)
qed simp

text \<open>
  C26: whatever the user clicks, dismisses or the parent passes, the store
  is left exactly as it was unless a dialog is submitted.
\<close>

theorem delete_flow_needs_submit:
  assumes "DlSubmit \<notin> set es"
  shows "delete_flow server t es c = Inr c"
  using dl_run_no_submit [OF assms, of "dl_init t"] by (simp add: delete_flow_def dl_init_def)

subsection \<open>Witnesses\<close>

theorem delete_flow_rejected_keeps_tweet_witness:
  "\<exists>c'. delete_flow (\<lambda>t. Rejected (JObj [(''data'', JStr ''locked'')])) (JObj [(''cid'', JStr ''c1'')])
          [DlClick, DlSubmit] todo_cache = Inr c'
        \<and> byCid c' (Cid 1) = Some (todo_rec\<lparr>r_state := RESOLVED, r_error := JStr ''locked''\<rparr>)
        \<and> byId c' ''1'' = byCid c' (Cid 1)"
proof -
  have "tweet_cid (JObj [(''cid'', JStr ''c1'')]) = Some (Cid 1)"
    by (simp add: tweet_cid_def obj_get_def is_digit_def digits_nat_def digit_val_def)
  moreover have "r_id todo_rec = Some ''1''" by (simp add: todo_rec_def new_rec_def)
  ultimately show ?thesis
    using delete_flow_rejected_keeps_tweet [OF todo_cache_inv todo_cache_cid, of "''1''" "JObj [(''cid'', JStr ''c1'')]"
        "\<lambda>t. Rejected (JObj [(''data'', JStr ''locked'')])" "JObj [(''data'', JStr ''locked'')]"]
    by (auto simp: obj_get_def)
qed

theorem delete_flow_removes_tweet_witness:
  "cache_inv todo_cache \<and> byCid todo_cache (Cid 1) = Some todo_rec \<and> r_id todo_rec = Some ''1'' \<and>
   tweet_cid (JObj [(''id'', JNum 1), (''cid'', JStr ''c1'')]) = Some (Cid 1) \<and>
   (\<exists>c'. delete_flow (\<lambda>t. Replied JUndef) (JObj [(''id'', JNum 1), (''cid'', JStr ''c1'')]) [DlClick, DlSubmit] todo_cache
          = Inr c' \<and> byCid c' (Cid 1) = None \<and> byId c' ''1'' = None)"
proof -
  have "tweet_cid (JObj [(''id'', JNum 1), (''cid'', JStr ''c1'')]) = Some (Cid 1)"
    by (simp add: tweet_cid_def obj_get_def is_digit_def digits_nat_def digit_val_def)
  moreover have "r_id todo_rec = Some ''1''" by (simp add: todo_rec_def new_rec_def)
  ultimately show ?thesis
    using delete_flow_removes_tweet [OF todo_cache_inv todo_cache_cid, of "''1''" "JObj [(''id'', JNum 1), (''cid'', JStr ''c1'')]"
        "\<lambda>t. Replied JUndef" JUndef]
      todo_cache_inv todo_cache_cid by auto
qed

theorem delete_flow_needs_submit_witness:
  "DlSubmit \<notin> set [DlClick, DlDismiss, DlProps JNull, DlClick] \<and>
   delete_flow (\<lambda>t. Rejected JNull) (JObj [(''cid'', JStr ''c1'')]) [DlClick, DlDismiss, DlProps JNull, DlClick] todo_cache
     = Inr todo_cache"
  using delete_flow_needs_submit [of "[DlClick, DlDismiss, DlProps JNull, DlClick]" "\<lambda>t. Rejected JNull"
      "JObj [(''cid'', JStr ''c1'')]" todo_cache]
  by simp

end
