(* ===== verification/Spec2Isabelle.thy ===== *)
theory Spec2Isabelle
  imports App_Store Delete_Flow
begin

text \<open>
  A verification development for Lore (fengweijp/lore), a framework that puts a Redux
  store of records between React views and a REST API. The parts of the program and how
  they interact:
  \<^item> the \<^bold>\<open>action blueprints\<close> turn a CRUD call into an optimistic Redux action, a
    request, and a reconciling action; \<open>src/packages/lore-actions/src/blueprints/find.js\<close>
    is the one under \<open>src/\<close>;
  \<^item> the \<^bold>\<open>record store\<close> reducers (\<open>lore-hook-reducers\<close>, outside \<open>src/\<close>) keep each
    model's cache: \<open>byCid\<close>, \<open>byId\<close> and the \<open>find\<close> query results;
  \<^item> the \<^bold>\<open>subscription bridge\<close> \<open>src/packages/lore-hook-connect/src/connect.js\<close>
    wraps a view, selects its data from the store through \<open>getState\<close> and re-renders it
    one tick after each store notification;
  \<^item> applications use these: the tutorial views \<open>Guessatron.js\<close> (connected) and
    \<open>DeleteLink.js\<close> (calls \<open>lore.actions.tweet.destroy\<close> after a dialog), and the
    auth example's \<open>config/models.js\<close> (API root, Authorization header);
  \<^item> the integration test \<open>src/packages/lore/test/integration/redux.spec.js\<close> runs each
    verb against a store with one model, \<open>todo\<close>.

  \<^bold>\<open>Theories.\<close>
  \<^item> \<open>Prelude\<close>: association lists (\<open>alist_put\<close>) and the lemmas on \<open>map_of\<close>,
    multisets and \<open>sort_key\<close> that the components share.
  \<^item> \<open>Json\<close>: JavaScript values (\<open>json\<close>, objects as association lists in insertion
    order), property reads, truthiness, lodash's \<open>_.extend\<close> (\<open>js_extend\<close>),
    \<open>JSON.stringify\<close> with the string escapes of ECMA-262 (\<open>escape_char\<close>) and a
    canonical form with sorted keys.
  \<^item> \<open>Json_Parse\<close>: a decoder for the text \<open>stringify\<close> emits (the JSON grammar), on
    fuel equal to the length of the text, which is always enough: every nested call consumes
    a character. It decodes string escapes (\<open>parse_chars\<close>) and every serialisation to the
    value it denotes (\<open>norm\<close>: undefined read as null, undefined fields dropped), for every
    value; so two values serialise alike exactly when they denote the same value. This is
    what lets \<open>Lore_Store\<close> state which find requests share a cache entry.
  \<^item> \<open>Record_Store\<close>: the cache of one model as a record of three maps and the fifteen
    reducer operations of spec 4.1 (\<open>apply_op\<close>), modelled from the specification because
    the reducers are not under \<open>src/\<close>. Its lemmas show that every operation the action
    layer can issue keeps the index invariant \<open>cache_inv\<close> (the two indices agree, every
    listed id is cached), the create/confirm, update/rollback and destroy contracts, that a
    confirmed destroy wins over later reconciliations, and that a create and a find of the
    same server record converge on one record.
  \<^item> \<open>Find_Blueprint\<close>: \<open>find.js\<close> line by line. Option handling (\<open>defaultsDeep\<close>,
    \<open>validatePartialPairs\<close>, \<open>find_blueprint\<close>) returns an error value for a missing
    collection. The thunk is split as the event loop splits it: \<open>fetchAll_issue\<close> (build
    the request, dispatch the optimistic action) and \<open>fetchAll_settle\<close> (the \<open>then\<close>
    handler and the \<open>catch\<close> chained after it); \<open>store.dispatch\<close> is a parameter that may
    throw. The lemmas fix the order and content of the dispatched actions on success (with
    and without \<open>normalize\<close>), on failure, and when the success dispatch throws.
  \<^item> \<open>Connect\<close>: \<open>connect.js\<close> as a state machine. The state is the component (phase,
    \<open>nextState\<close>, \<open>state\<close>, props, rendered props, \<open>unsubscribe\<close>) with the store's
    state, whether the store holds its listener and the queue of \<open>setTimeout\<close> callbacks;
    \<open>bridge_step\<close> handles mount, store notification, timer, new props and unmount, each
    method translated with its guards, errors (the select invariant) as \<open>Inl\<close>; the timer's
    \<open>setState\<close> merges the captured slice into the previous state, as React does.
    \<open>reachable\<close> is the inductive set of states from creation; \<open>bridge_inv\<close> holds in
    all of them (rule induction). \<open>spec_step\<close> is the lifecycle machine of spec 4.3 and
    \<open>abs_view\<close> maps a state to it (mounted, listening, callbacks pending); every run of
    the component is a run of that machine, and hence its callback queue never holds more
    entries than the notifications it received. \<open>drain\<close> is the event loop running the queued
    callbacks; it is a \<^theory_text>\<open>function\<close> whose termination measure is the queue length (a
    callback schedules nothing), and a store change is eventually rendered. A pending
    callback never updates an unmounted component.
  \<^item> \<open>Lore_Store\<close>: the composition. \<open>find_reducer\<close> routes the find actions of
    \<open>find.js\<close> to the cache by payload state, keyed by \<open>query_key\<close> (the canonical
    serialisation); \<open>todo_find_run\<close> is \<open>lore.actions.todo.find()\<close> against the store. The
    other verbs are the optimistic and reconciling operations of spec 4.2 with the
    \<open>PrecariousUpdateError\<close> guard; the server's answer (\<open>verb_reply\<close>) is a reply,
    reconciled by the success operation, or a rejection, recorded by the error operation.
    The lemmas show what find leaves in the cache on success and on failure (the optimistic
    action has already emptied the result), and that two finds share a cache key exactly when
    their where-clauses and paginations agree up to key order and undefined fields. Each
    \<open>describe\<close> block of the integration test is a scenario definition with its expectations
    as a predicate; a lemma checks the model against all of them, for String and Number ids,
    which validates the verbs modelled outside \<open>src/\<close> (the get verb is modelled from what
    the test observes).
  \<^item> \<open>App_Store\<close>: the store and a connected view together. \<open>connected_dispatch\<close> is
    Redux's \<open>dispatch\<close> (a library outside \<open>src/\<close>, from its contract): the reducer's state
    is stored, then the view's listener of \<open>connect.js\<close> runs, and the \<open>select\<close>
    invariant it may throw (message \<open>invariant_message\<close>) escapes \<open>dispatch\<close>.
    \<open>app_find_run\<close> runs \<open>find.js\<close> through it. The lemmas show that with a select that
    returns objects the find followed by the event loop (\<open>drain\<close>) ends with the view
    showing the fetched cache, and that a select that throws on the resolved cache turns a
    successful fetch into a query in state ERROR: the catch of \<open>find.js\<close> receives the
    view's exception.
  \<^item> \<open>Tutorial_Components\<close>: Guessatron's select, propTypes, styles and render (element
    trees as \<open>vnode\<close>), composed with \<open>connect\<close>; DeleteLink's handlers as a step
    function over clicks, dialog submit and dismiss, and new props.
  \<^item> \<open>Delete_Flow\<close>: DeleteLink against the store: each \<open>destroyTweet\<close> call runs the
    destroy verb on the record of the tweet (found by its Backbone client id). A click and a
    submit remove a confirmed tweet from every index and query result once the server
    confirms; a rejected delete restores it, resolved and carrying the error; without a
    submit the store is untouched.
  \<^item> \<open>Auth_Config\<close>: \<open>models.js\<close>: the configuration record, JavaScript's string
    conversion in \<open>'Bearer ' + token\<close>, and a session of logins, logouts and requests.

  \<^bold>\<open>Bounds and loops.\<close> The only loop of the program is the event loop draining
  callbacks, whose termination is proved by the queue length; every other recursion of the
  program's model is structural (\<^theory_text>\<open>fun\<close>, \<^theory_text>\<open>primrec\<close>). The one use of fuel is the
  reference decoder of \<open>Json_Parse\<close>, given the length of its input: each nested call
  consumes a character, and the round-trip lemma \<open>parse_val_stringify\<close> shows that this
  fuel decodes every serialisation. JavaScript numbers appear only as record ids and query
  values and are modelled as unbounded integers: no arithmetic is done on them.

  \<^bold>\<open>Not modelled.\<close> React's rendering and reconciliation (a render is the props handed
  to the child, or an element tree), Backbone's collections and HTTP transport (a fetch is
  its outcome, given as \<open>Fetched\<close> or \<open>FetchFailed\<close>), lodash beyond the functions above,
  pluralize.js (a parameter), randomColor and \<open>lore.dialog\<close> (a parameter and environment
  events). The reducers, the create/get/update/destroy blueprints, \<open>getState\<close>, the
  payload helpers and the example's \<open>auth\<close> module are not under \<open>src/\<close> and are modelled
  from the specification or kept as parameters. The hook defaults test
  (\<open>lore-hook-actions/test/defaults.spec.js\<close>) configures options that no modelled code
  reads, and the hook that reads them is not under \<open>src/\<close>. JavaScript numbers are
  modelled as integers and characters as single 8-bit code units; Lore's ids and query
  values need no more. Query keys sort object keys as strings, where a JavaScript object
  lists integer-like keys first. Some throws of the source are not represented: a
  \<open>null\<close> rejection in \<open>find.js\<close> (\<open>response.data\<close>), \<open>connect(select, null)\<close> at
  mount, and a Guessatron without route params; \<open>getState\<close> never dispatches (the
  re-entrant dispatch the comment of \<open>connect.js\<close> lines 88--93 mentions).
\<close>

end
